(* ===== verification/Prelude.thy ===== *)
theory Prelude imports Main "HOL-Library.AList" begin

section \<open>Shared vocabulary: strings, string maps and list lemmas\<close>

text \<open>
  Go strings are byte sequences and become \<open>string\<close>.  A Go \<open>map[string]string\<close> (labels,
  annotations, secret data) becomes an association list with \<open>map_of\<close> as lookup: the library
  theory AList gives update and delete with their \<open>map_of\<close> laws, \<open>length\<close> is Go's \<open>len\<close>, and the
  nil map and the empty map are the same list, since the code only tests them with \<open>len\<close> or
  replaces nil by an empty map before it writes.  This theory also declares the collections of
  rules the component proofs draw on.
\<close>

type_synonym smap = "(string \<times> string) list"

named_theorems trace_intros "introduction rules of the trace logic"
named_theorems run_simps "symbolic execution of effectful code"
named_theorems kinds "unfolding of the typed views of API objects"

subsection \<open>Go map reads and writes\<close>

definition sget :: "smap \<Rightarrow> string \<Rightarrow> string" where
  \<comment> \<open>\<open>m[k]\<close>: the zero value for a missing key\<close>
  "sget m k = (case map_of m k of None \<Rightarrow> '''' | Some v \<Rightarrow> v)"

definition shas :: "smap \<Rightarrow> string \<Rightarrow> bool" where
  "shas m k = (map_of m k \<noteq> None)"

definition sput :: "string \<Rightarrow> string \<Rightarrow> smap \<Rightarrow> smap" where
  "sput k v m = AList.update k v m"

definition sdel :: "string \<Rightarrow> smap \<Rightarrow> smap" where
  "sdel k m = AList.delete k m"

fun sputs :: "smap \<Rightarrow> smap \<Rightarrow> smap" where
  \<comment> \<open>\<open>maps.Copy(out, in)\<close>\<close>
  "sputs out [] = out"
| "sputs out ((k, v) # ins) = sputs (sput k v out) ins"

lemma map_of_sput [simp]: "map_of (sput k v m) = (map_of m)(k \<mapsto> v)"
  by (simp add: sput_def update_conv')

lemma map_of_sdel [simp]: "map_of (sdel k m) = (map_of m)(k := None)"
  by (simp add: sdel_def delete_conv')

lemma sget_sput [simp]: "sget (sput k v m) k' = (if k' = k then v else sget m k')"
  by (simp add: sget_def)

lemma shas_sput [simp]: "shas (sput k v m) k' \<longleftrightarrow> k' = k \<or> shas m k'"
  by (simp add: shas_def)

lemma sget_sdel [simp]: "sget (sdel k m) k' = (if k' = k then '''' else sget m k')"
  by (simp add: sget_def)

lemma shas_sdel [simp]: "shas (sdel k m) k' \<longleftrightarrow> k' \<noteq> k \<and> shas m k'"
  by (simp add: shas_def)

lemma shas_Nil [simp]: "\<not> shas [] k" and sget_Nil [simp]: "sget [] k = ''''"
  by (simp_all add: shas_def sget_def)

lemma map_of_sputs: "distinct (map fst ins) \<Longrightarrow> map_of (sputs out ins) = map_of out ++ map_of ins"
proof (induction out ins rule: sputs.induct)
  case (2 out k v ins)
  have "map_of ins k = None"
    using "2.prems" by (auto simp: map_of_eq_None_iff)
  then show ?case
    using 2 by (auto simp: fun_eq_iff map_add_def split: option.splits)
qed simp

lemma sput_ne_Nil [simp]: "sput k v m \<noteq> []"
  by (cases m) (auto simp: sput_def)

lemma sputs_Nil_iff: "sputs out ins = [] \<longleftrightarrow> out = [] \<and> ins = []"
proof (induction out ins rule: sputs.induct)
  case (2 out k v ins)
  then show ?case by simp
qed simp

subsection \<open>Strings\<close>

definition has_prefix :: "string \<Rightarrow> string \<Rightarrow> bool" where
  \<comment> \<open>\<open>strings.HasPrefix(s, p)\<close>\<close>
  "has_prefix s p = (take (length p) s = p)"

definition has_suffix :: "string \<Rightarrow> string \<Rightarrow> bool" where
  \<comment> \<open>\<open>strings.HasSuffix(s, x)\<close>\<close>
  "has_suffix s x = (length x \<le> length s \<and> drop (length s - length x) s = x)"

definition trim_prefix :: "string \<Rightarrow> string \<Rightarrow> string" where
  "trim_prefix s p = (if has_prefix s p then drop (length p) s else s)"

definition is_space :: "char \<Rightarrow> bool" where
  \<comment> \<open>the ASCII part of \<open>unicode.IsSpace\<close>\<close>
  "is_space c = (of_char c \<in> {9, 10, 11, 12, 13, 32 :: nat})"

definition trim_space :: "string \<Rightarrow> string" where
  "trim_space s = rev (dropWhile is_space (rev (dropWhile is_space s)))"

fun join :: "string \<Rightarrow> string list \<Rightarrow> string" where
  \<comment> \<open>\<open>strings.Join(xs, sep)\<close>\<close>
  "join sep [] = ''''"
| "join sep [x] = x"
| "join sep (x # xs) = x @ sep @ join sep xs"

fun cut :: "char \<Rightarrow> string \<Rightarrow> (string \<times> string) option" where
  \<comment> \<open>\<open>strings.Cut\<close> with a one-byte separator\<close>
  "cut c [] = None"
| "cut c (x # xs) = (if x = c then Some ([], xs)
     else (case cut c xs of None \<Rightarrow> None | Some (a, b) \<Rightarrow> Some (x # a, b)))"

lemma has_suffix_append [simp]: "has_suffix (s @ x) x"
  by (simp add: has_suffix_def)

lemma cut_Some_iff: "cut c s = Some (a, b) \<longleftrightarrow> s = a @ c # b \<and> c \<notin> set a"
proof (induction s arbitrary: a)
  case (Cons x xs)
  show ?case
  proof (cases a)
    case Nil
    then show ?thesis by (auto split: option.splits)
  next
    case (Cons y ys)
    then show ?thesis using Cons.IH [of ys] by (auto split: option.splits)
  qed
qed simp

lemma cut_None_iff: "cut c s = None \<longleftrightarrow> c \<notin> set s"
  by (induction c s rule: cut.induct) (auto split: option.splits)

fun digits :: "nat \<Rightarrow> string" where
  "digits n = (if n < 10 then [char_of (48 + n)] else digits (n div 10) @ [char_of (48 + n mod 10)])"

declare digits.simps [simp del]

definition itoa :: "int \<Rightarrow> string" where
  \<comment> \<open>\<open>strconv.Itoa\<close> and the verb \<open>%d\<close>\<close>
  "itoa i = (if i < 0 then ''-'' @ digits (nat (- i)) else digits (nat i))"

fun read_digits :: "nat \<Rightarrow> string \<Rightarrow> nat option" where
  "read_digits n [] = Some n"
| "read_digits n (c # cs) = (let d = (of_char c :: nat) in
     if 48 \<le> d \<and> d \<le> 57 then read_digits (10 * n + (d - 48)) cs else None)"

definition atoi :: "string \<Rightarrow> int option" where
  \<comment> \<open>\<open>strconv.Atoi\<close>; a value outside 64 bits is an error\<close>
  "atoi s = (case s of
     [] \<Rightarrow> None
   | c # cs \<Rightarrow>
     (let neg = (c = CHR ''-''); ds = (if neg \<or> c = CHR ''+'' then cs else s) in
      if ds = [] then None else
      case read_digits 0 ds of
        None \<Rightarrow> None
      | Some n \<Rightarrow> (let v = (if neg then - int n else int n) in
          if - (2 ^ 63) \<le> v \<and> v < 2 ^ 63 then Some v else None)))"

lemma read_digits_append:
  "read_digits n (xs @ ys) = (case read_digits n xs of None \<Rightarrow> None | Some m \<Rightarrow> read_digits m ys)"
  by (induction n xs rule: read_digits.induct) (auto simp: Let_def)

lemma of_char_digit: "k < 10 \<Longrightarrow> (of_char (char_of (48 + k :: nat) :: char) :: nat) = 48 + k"
  by simp

lemma read_digits_digits: "read_digits 0 (digits n) = Some n"
proof (induction n rule: digits.induct)
  case (1 n)
  show ?case
  proof (cases "n < 10")
    case True
    then show ?thesis by (subst digits.simps) (simp add: Let_def)
  next
    case False
    have "n mod 10 < 10" by simp
    then show ?thesis
      using 1 [OF False] False of_char_digit [of "n mod 10"]
      by (subst digits.simps) (simp add: read_digits_append Let_def)
  qed
qed

lemma digits_head: "\<exists>c cs. digits n = c # cs \<and> 48 \<le> (of_char c :: nat)"
proof (induction n rule: digits.induct)
  case (1 n)
  show ?case
  proof (cases "n < 10")
    case True
    then show ?thesis by (subst digits.simps) simp
  next
    case False
    then show ?thesis using 1 [OF False] by (subst digits.simps) auto
  qed
qed

lemma atoi_itoa:
  assumes "0 \<le> i" "i < 2 ^ 63"
  shows "atoi (itoa i) = Some i"
proof -
  obtain c cs where c: "digits (nat i) = c # cs" "48 \<le> (of_char c :: nat)"
    using digits_head by blast
  then have "c \<noteq> CHR ''-''" "c \<noteq> CHR ''+''" by auto
  then show ?thesis
    using assms c read_digits_digits [of "nat i"] by (simp add: atoi_def itoa_def Let_def)
qed

subsection \<open>Comparing and sorting by key\<close>

fun str_less :: "string \<Rightarrow> string \<Rightarrow> bool" where
  \<comment> \<open>Go's \<open><\<close> on strings: bytewise, a proper prefix is smaller\<close>
  "str_less [] [] = False"
| "str_less [] (_ # _) = True"
| "str_less (_ # _) [] = False"
| "str_less (x # xs) (y # ys) =
     ((of_char x :: nat) < of_char y \<or> (x = y \<and> str_less xs ys))"

lemma str_less_irrefl [simp]: "\<not> str_less s s"
  by (induction s) auto

lemma str_less_trans: "str_less a b \<Longrightarrow> str_less b c \<Longrightarrow> str_less a c"
proof (induction a b arbitrary: c rule: str_less.induct)
  case (2 y ys)
  then show ?case by (cases c) auto
next
  case (4 x xs y ys)
  then show ?case by (cases c) auto
qed auto

lemma str_less_linear: "str_less a b \<or> a = b \<or> str_less b a"
proof (induction a b rule: str_less.induct)
  case (4 x xs y ys)
  have "(of_char x :: nat) = of_char y \<Longrightarrow> x = y"
    by (metis char_of_char)
  with 4 show ?case by (auto simp: not_less_iff_gr_or_eq)
qed auto

lemma str_less_asym: "str_less a b \<Longrightarrow> \<not> str_less b a"
  using str_less_trans str_less_irrefl by blast

fun insert_by :: "('a \<Rightarrow> 'a \<Rightarrow> bool) \<Rightarrow> 'a \<Rightarrow> 'a list \<Rightarrow> 'a list" where
  "insert_by lt x [] = [x]"
| "insert_by lt x (y # ys) = (if lt y x then y # insert_by lt x ys else x # y # ys)"

fun sort_by :: "('a \<Rightarrow> 'a \<Rightarrow> bool) \<Rightarrow> 'a list \<Rightarrow> 'a list" where
  \<comment> \<open>\<open>sort.Slice\<close> and \<open>sort.Strings\<close>: for keys without duplicates every sort gives this list\<close>
  "sort_by lt [] = []"
| "sort_by lt (x # xs) = insert_by lt x (sort_by lt xs)"

lemma set_insert_by [simp]: "set (insert_by lt x xs) = insert x (set xs)"
  by (induction xs) auto

lemma set_sort_by [simp]: "set (sort_by lt xs) = set xs"
  by (induction xs) auto

lemma length_insert_by [simp]: "length (insert_by lt x xs) = Suc (length xs)"
  by (induction xs) auto

lemma length_sort_by [simp]: "length (sort_by lt xs) = length xs"
  by (induction xs) auto

lemma sort_by_Nil_iff [simp]: "sort_by lt xs = [] \<longleftrightarrow> xs = []"
  by (cases xs) (auto simp flip: length_0_conv)

lemma those_map_Some: "(\<And>x. x \<in> set xs \<Longrightarrow> f (g x) = Some x) \<Longrightarrow> those (map f (map g xs)) = Some xs"
  by (induction xs) auto

lemma those_Somes: "those (map Some xs) = Some xs"
  by (induction xs) auto

end
