(* ===== verification/Objects.thy ===== *)
theory Objects imports Prelude begin

section \<open>The API objects the controllers read and write\<close>

text \<open>
  One record per Kubernetes kind, with the fields this repository's code reads or writes; a
  \<open>rest\<close> field stands for the part of a structure that is only ever copied.  A Go pointer field
  is an \<open>option\<close>; a \<open>runtime.RawExtension\<close> or \<open>[]byte\<close> is the \<open>string\<close> of its bytes.  The
  datatype \<open>object\<close> is Go's \<open>client.Object\<close> interface value: one constructor per kind.  A
  namespaced name is the pair (namespace, name).
\<close>

type_synonym key = "string \<times> string"

definition key_string :: "key \<Rightarrow> string" where
  \<comment> \<open>\<open>types.NamespacedName.String\<close>\<close>
  "key_string k = fst k @ ''/'' @ snd k"

record owner_ref =
  or_api :: string
  or_kind :: string
  or_name :: string
  or_uid :: string

record objmeta =
  om_namespace :: string
  om_name :: string
  om_uid :: string
  om_generation :: int
  om_rversion :: string
  om_labels :: smap
  om_annotations :: smap
  om_finalizers :: "string list"
  om_owners :: "owner_ref list"
  om_deleting :: bool  \<comment> \<open>\<open>DeletionTimestamp != nil\<close>\<close>

definition new_meta :: "string \<Rightarrow> string \<Rightarrow> objmeta" where
  \<comment> \<open>\<open>metav1.ObjectMeta{Namespace: ns, Name: n}\<close>\<close>
  "new_meta ns n = \<lparr>om_namespace = ns, om_name = n, om_uid = '''', om_generation = 0,
     om_rversion = '''', om_labels = [], om_annotations = [], om_finalizers = [], om_owners = [],
     om_deleting = False\<rparr>"

definition meta_key :: "objmeta \<Rightarrow> key" where
  \<comment> \<open>\<open>client.ObjectKeyFromObject\<close>\<close>
  "meta_key m = (om_namespace m, om_name m)"

lemma meta_key_new_meta [simp]: "meta_key (new_meta ns n) = (ns, n)"
  by (simp add: meta_key_def new_meta_def)

subsection \<open>Label selectors\<close>

datatype sel_op = OpIn | OpNotIn | OpExists | OpDoesNotExist | OpUnknown string

record sel_expr =
  ex_key :: string
  ex_op :: sel_op
  ex_values :: "string list"

record label_selector =
  match_labels :: smap
  match_exprs :: "sel_expr list"

text \<open>A compiled \<open>labels.Selector\<close>.\<close>

record requirement =
  rq_key :: string
  rq_op :: sel_op
  rq_values :: "string list"

datatype selector = SelNothing | SelAll "requirement list"

subsection \<open>Core and RBAC kinds\<close>

datatype int_or_string = IntVal int | StrVal string

record service_port =
  sp_name :: string
  sp_port :: int
  sp_target :: int_or_string
  sp_rest :: string

record service =
  sv_meta :: objmeta
  sv_type :: string
  sv_cluster_ip :: string
  sv_ports :: "service_port list"

record endpoint_port =
  epp_name :: string
  epp_port :: int
  epp_rest :: string

record endpoint_subset =
  es_addresses :: "string list"  \<comment> \<open>the IP of each address\<close>
  es_ports :: "endpoint_port list"
  es_rest :: string

record endpoints =
  ep_meta :: objmeta
  ep_subsets :: "endpoint_subset list"

record secret =
  sc_meta :: objmeta
  sc_immutable :: "bool option"
  sc_data :: smap
  sc_string_data :: smap
  sc_type :: string

record service_account =
  sa_meta :: objmeta

record policy_rule =
  pr_groups :: "string list"
  pr_resources :: "string list"
  pr_verbs :: "string list"

record cluster_role =
  cr_meta :: objmeta
  cr_rules :: "policy_rule list"

record role_ref =
  rr_group :: string
  rr_kind :: string
  rr_name :: string

record subject =
  su_group :: string
  su_kind :: string
  su_name :: string
  su_namespace :: string

record role_binding =
  rb_meta :: objmeta
  rb_ref :: role_ref
  rb_subjects :: "subject list"

record namespace =
  ns_meta :: objmeta

record config_map =
  cm_meta :: objmeta
  cm_data :: smap

subsection \<open>AppBindings and chart presets\<close>

record service_spec =
  \<comment> \<open>\<open>mona.ServiceSpec\<close>\<close>
  ss_scheme :: string
  ss_name :: string
  ss_namespace :: string
  ss_port :: string
  ss_path :: string
  ss_query :: string

record service_ref =
  \<comment> \<open>\<open>appcatalog.ServiceReference\<close>\<close>
  sr_scheme :: string
  sr_namespace :: string
  sr_name :: string
  sr_port :: int
  sr_path :: string
  sr_query :: string

record client_config =
  cc_url :: "string option"
  cc_service :: "service_ref option"
  cc_insecure :: bool
  cc_ca :: string
  cc_server_name :: string

record typed_ref =
  tr_group :: string
  tr_kind :: string
  tr_namespace :: string
  tr_name :: string

record app_binding =
  ab_meta :: objmeta
  ab_type :: string
  ab_app_ref :: "typed_ref option"
  ab_client :: client_config
  ab_secret :: "string option"      \<comment> \<open>the name in \<open>Spec.Secret\<close>\<close>
  ab_tls_secret :: "string option"
  ab_params :: "string option"      \<comment> \<open>\<open>Spec.Parameters.Raw\<close>\<close>

record chart_preset =
  \<comment> \<open>\<open>ChartPreset\<close> and the cluster-scoped \<open>ClusterChartPreset\<close>\<close>
  cp_meta :: objmeta
  cp_values :: "string option"

subsection \<open>Prometheus operator kinds\<close>

record prometheus =
  pm_meta :: objmeta
  pm_ext_labels :: smap
  pm_sm_selector :: "label_selector option"
  pm_sm_ns_selector :: "label_selector option"
  pm_rule_selector :: "label_selector option"

record relabel_config =
  rl_action :: string
  rl_source :: "string list"
  rl_regex :: string
  rl_rest :: string

record sm_endpoint =
  se_honor :: bool
  se_ca_secret :: "string option"  \<comment> \<open>the name in \<open>TLSConfig.CA.Secret\<close>, if all three are set\<close>
  se_metric_relabel :: "relabel_config list"
  se_rest :: string

record service_monitor =
  sm_meta :: objmeta
  sm_selector :: label_selector
  sm_ns_any :: bool
  sm_ns_names :: "string list"
  sm_endpoints :: "sm_endpoint list"

record alertmanager =
  am_meta :: objmeta
  am_cfg_selector :: "label_selector option"
  am_strategy :: string

record key_selector =
  ks_name :: string
  ks_key :: string

record email_config =
  ec_to :: string
  ec_from :: string
  ec_smarthost :: string
  ec_password :: "key_selector option"

record webhook_config =
  wc_send_resolved :: "bool option"
  wc_url :: "string option"
  wc_url_secret :: "key_selector option"
  wc_insecure :: "bool option"
  wc_max_alerts :: int

record receiver =
  rc_name :: string
  rc_emails :: "email_config list"
  rc_webhooks :: "webhook_config list"

record am_matcher =
  mt_name :: string
  mt_value :: string
  mt_type :: string

record sub_route =
  \<comment> \<open>the fields the code sets of the nested route it marshals\<close>
  sr_receiver :: string
  sr_matchers :: "am_matcher list"
  sr_repeat :: string

record route =
  rt_group_by :: "string list"
  rt_group_wait :: string
  rt_group_interval :: string
  rt_receiver :: string
  rt_repeat :: string
  rt_continue :: bool
  rt_routes :: "sub_route list"

record am_config =
  ac_meta :: objmeta
  ac_receivers :: "receiver list"
  ac_route :: "route option"

record api_service =
  as_meta :: objmeta
  as_group :: string
  as_service :: "key option"  \<comment> \<open>\<open>Spec.Service\<close>: (namespace, name)\<close>

subsection \<open>Openviz kinds\<close>

datatype phase = PhaseNone | Processing | Terminating | Failed | Current

record condition =
  co_type :: string
  co_status :: string
  co_reason :: string
  co_message :: string
  co_observed :: int

record gdash_ref =
  \<comment> \<open>\<open>GrafanaDashboardReference\<close>\<close>
  gr_id :: "int option"
  gr_uid :: "string option"
  gr_org_id :: "int option"
  gr_slug :: "string option"
  gr_url :: "string option"
  gr_version :: "int option"
  gr_state :: "string option"

record gdash_status =
  gs_observed :: int
  gs_phase :: phase
  gs_reason :: string
  gs_dashboard :: "gdash_ref option"
  gs_conditions :: "condition list"

record grafana_dashboard =
  gd_meta :: objmeta
  gd_ref :: "key option"            \<comment> \<open>\<open>Spec.GrafanaRef\<close>\<close>
  gd_model :: "string option"       \<comment> \<open>\<open>Spec.Model.Raw\<close>\<close>
  gd_overwrite :: bool
  gd_templatize :: "(bool \<times> bool) option"  \<comment> \<open>title, datasource\<close>
  gd_status :: gdash_status

record gds_status =
  ds_observed :: int
  ds_id :: "int option"
  ds_phase :: phase
  ds_reason :: string
  ds_conditions :: "condition list"

record grafana_datasource =
  ds_meta :: objmeta
  ds_ref :: "key option"
  ds_org_id :: int
  ds_name :: string
  ds_type :: string
  ds_access :: string
  ds_url :: string
  ds_is_default :: bool
  ds_status :: gds_status

record pdash_ref =
  \<comment> \<open>\<open>PersesDashboardReference\<close>\<close>
  pr_name :: string
  pr_project :: string
  pr_folder :: string
  pr_state :: "string option"

record pdash_status =
  ps_observed :: int
  ps_phase :: phase
  ps_reason :: string
  ps_dashboard :: "pdash_ref option"
  ps_conditions :: "condition list"

record perses_dashboard =
  pd_meta :: objmeta
  pd_ref :: "key option"
  pd_model :: "string option"
  pd_overwrite :: bool
  pd_templatize :: "(bool \<times> bool) option"
  pd_status :: pdash_status

subsection \<open>The interface value and its kinds\<close>

datatype kind =
  KService | KEndpoints | KSecret | KServiceAccount | KClusterRole | KRoleBinding | KNamespace
| KConfigMap | KAppBinding | KChartPreset | KClusterChartPreset | KPrometheus | KServiceMonitor
| KAlertmanager | KAlertmanagerConfig | KAPIService | KGrafanaDashboard | KGrafanaDatasource
| KPersesDashboard

datatype object =
  OService service | OEndpoints endpoints | OSecret secret | OServiceAccount service_account
| OClusterRole cluster_role | ORoleBinding role_binding | ONamespace namespace
| OConfigMap config_map | OAppBinding app_binding | OChartPreset chart_preset
| OClusterChartPreset chart_preset | OPrometheus prometheus | OServiceMonitor service_monitor
| OAlertmanager alertmanager | OAlertmanagerConfig am_config | OAPIService api_service
| OGrafanaDashboard grafana_dashboard | OGrafanaDatasource grafana_datasource
| OPersesDashboard perses_dashboard

fun kind_of :: "object \<Rightarrow> kind" where
  "kind_of (OService _) = KService"
| "kind_of (OEndpoints _) = KEndpoints"
| "kind_of (OSecret _) = KSecret"
| "kind_of (OServiceAccount _) = KServiceAccount"
| "kind_of (OClusterRole _) = KClusterRole"
| "kind_of (ORoleBinding _) = KRoleBinding"
| "kind_of (ONamespace _) = KNamespace"
| "kind_of (OConfigMap _) = KConfigMap"
| "kind_of (OAppBinding _) = KAppBinding"
| "kind_of (OChartPreset _) = KChartPreset"
| "kind_of (OClusterChartPreset _) = KClusterChartPreset"
| "kind_of (OPrometheus _) = KPrometheus"
| "kind_of (OServiceMonitor _) = KServiceMonitor"
| "kind_of (OAlertmanager _) = KAlertmanager"
| "kind_of (OAlertmanagerConfig _) = KAlertmanagerConfig"
| "kind_of (OAPIService _) = KAPIService"
| "kind_of (OGrafanaDashboard _) = KGrafanaDashboard"
| "kind_of (OGrafanaDatasource _) = KGrafanaDatasource"
| "kind_of (OPersesDashboard _) = KPersesDashboard"

fun obj_meta :: "object \<Rightarrow> objmeta" where
  "obj_meta (OService x) = sv_meta x"
| "obj_meta (OEndpoints x) = ep_meta x"
| "obj_meta (OSecret x) = sc_meta x"
| "obj_meta (OServiceAccount x) = sa_meta x"
| "obj_meta (OClusterRole x) = cr_meta x"
| "obj_meta (ORoleBinding x) = rb_meta x"
| "obj_meta (ONamespace x) = ns_meta x"
| "obj_meta (OConfigMap x) = cm_meta x"
| "obj_meta (OAppBinding x) = ab_meta x"
| "obj_meta (OChartPreset x) = cp_meta x"
| "obj_meta (OClusterChartPreset x) = cp_meta x"
| "obj_meta (OPrometheus x) = pm_meta x"
| "obj_meta (OServiceMonitor x) = sm_meta x"
| "obj_meta (OAlertmanager x) = am_meta x"
| "obj_meta (OAlertmanagerConfig x) = ac_meta x"
| "obj_meta (OAPIService x) = as_meta x"
| "obj_meta (OGrafanaDashboard x) = gd_meta x"
| "obj_meta (OGrafanaDatasource x) = ds_meta x"
| "obj_meta (OPersesDashboard x) = pd_meta x"

fun map_meta :: "(objmeta \<Rightarrow> objmeta) \<Rightarrow> object \<Rightarrow> object" where
  \<comment> \<open>the setters of the \<open>metav1.Object\<close> interface\<close>
  "map_meta f (OService x) = OService (x\<lparr>sv_meta := f (sv_meta x)\<rparr>)"
| "map_meta f (OEndpoints x) = OEndpoints (x\<lparr>ep_meta := f (ep_meta x)\<rparr>)"
| "map_meta f (OSecret x) = OSecret (x\<lparr>sc_meta := f (sc_meta x)\<rparr>)"
| "map_meta f (OServiceAccount x) = OServiceAccount (x\<lparr>sa_meta := f (sa_meta x)\<rparr>)"
| "map_meta f (OClusterRole x) = OClusterRole (x\<lparr>cr_meta := f (cr_meta x)\<rparr>)"
| "map_meta f (ORoleBinding x) = ORoleBinding (x\<lparr>rb_meta := f (rb_meta x)\<rparr>)"
| "map_meta f (ONamespace x) = ONamespace (x\<lparr>ns_meta := f (ns_meta x)\<rparr>)"
| "map_meta f (OConfigMap x) = OConfigMap (x\<lparr>cm_meta := f (cm_meta x)\<rparr>)"
| "map_meta f (OAppBinding x) = OAppBinding (x\<lparr>ab_meta := f (ab_meta x)\<rparr>)"
| "map_meta f (OChartPreset x) = OChartPreset (x\<lparr>cp_meta := f (cp_meta x)\<rparr>)"
| "map_meta f (OClusterChartPreset x) = OClusterChartPreset (x\<lparr>cp_meta := f (cp_meta x)\<rparr>)"
| "map_meta f (OPrometheus x) = OPrometheus (x\<lparr>pm_meta := f (pm_meta x)\<rparr>)"
| "map_meta f (OServiceMonitor x) = OServiceMonitor (x\<lparr>sm_meta := f (sm_meta x)\<rparr>)"
| "map_meta f (OAlertmanager x) = OAlertmanager (x\<lparr>am_meta := f (am_meta x)\<rparr>)"
| "map_meta f (OAlertmanagerConfig x) = OAlertmanagerConfig (x\<lparr>ac_meta := f (ac_meta x)\<rparr>)"
| "map_meta f (OAPIService x) = OAPIService (x\<lparr>as_meta := f (as_meta x)\<rparr>)"
| "map_meta f (OGrafanaDashboard x) = OGrafanaDashboard (x\<lparr>gd_meta := f (gd_meta x)\<rparr>)"
| "map_meta f (OGrafanaDatasource x) = OGrafanaDatasource (x\<lparr>ds_meta := f (ds_meta x)\<rparr>)"
| "map_meta f (OPersesDashboard x) = OPersesDashboard (x\<lparr>pd_meta := f (pd_meta x)\<rparr>)"

definition set_rversion :: "string \<Rightarrow> object \<Rightarrow> object" where
  \<comment> \<open>\<open>SetResourceVersion\<close>\<close>
  "set_rversion v = map_meta (\<lambda>m. m\<lparr>om_rversion := v\<rparr>)"

definition obj_key :: "object \<Rightarrow> key" where
  "obj_key ob = meta_key (obj_meta ob)"

lemma kind_of_map_meta [simp]: "kind_of (map_meta f ob) = kind_of ob"
  by (cases ob) simp_all

lemma obj_meta_map_meta [simp]: "obj_meta (map_meta f ob) = f (obj_meta ob)"
  by (cases ob) simp_all

lemma map_meta_comp [simp]: "map_meta f (map_meta g ob) = map_meta (\<lambda>m. f (g m)) ob"
  by (cases ob) simp_all

lemma kind_of_set_rversion [simp]: "kind_of (set_rversion v ob) = kind_of ob"
  by (simp add: set_rversion_def)

lemma obj_key_set_rversion [simp]: "obj_key (set_rversion v ob) = obj_key ob"
  by (simp add: obj_key_def meta_key_def set_rversion_def)

definition desired :: "object \<Rightarrow> object" where
  \<comment> \<open>an object without the metadata the API server manages\<close>
  "desired = map_meta (\<lambda>m. m\<lparr>om_uid := [], om_generation := 0, om_rversion := []\<rparr>)"

lemma kind_of_desired [simp]: "kind_of (desired ob) = kind_of ob"
  by (simp add: desired_def)

lemma obj_key_desired [simp]: "obj_key (desired ob) = obj_key ob"
  by (simp add: obj_key_def meta_key_def desired_def)

lemma desired_set_rversion [simp]: "desired (set_rversion v ob) = desired ob"
  by (simp add: desired_def set_rversion_def)

subsection \<open>Typed views\<close>

text \<open>
  A Go call on a typed object (\<open>kc.Get(ctx, key, &prom)\<close>) works with one kind only.  A view
  packs a kind with its embedding into \<open>object\<close> and the partial projection back; the locale
  states the laws of such a pair, and every kind is an interpretation.
\<close>

record 'a view =
  vkind :: kind
  wrap :: "'a \<Rightarrow> object"
  unwrap :: "object \<Rightarrow> 'a option"

locale typed_view =
  fixes v :: "'a view"
  assumes unwrap_wrap: "unwrap v (wrap v x) = Some x"
    and wrap_unwrap: "unwrap v ob = Some x \<Longrightarrow> ob = wrap v x"
    and kind_wrap: "kind_of (wrap v x) = vkind v"
    and kind_unwrap: "kind_of ob = vkind v \<Longrightarrow> unwrap v ob \<noteq> None"
begin

lemma kind_iff: "kind_of ob = vkind v \<longleftrightarrow> (\<exists>x. ob = wrap v x)"
  using kind_unwrap wrap_unwrap kind_wrap by fastforce

lemma unwrap_kind: "unwrap v ob = Some x \<Longrightarrow> kind_of ob = vkind v"
  using wrap_unwrap kind_wrap by auto

lemma wrap_inject: "wrap v x = wrap v y \<longleftrightarrow> x = y"
  by (metis unwrap_wrap option.inject)

lemma unwrap_iff: "unwrap v ob = Some x \<longleftrightarrow> ob = wrap v x"
  using unwrap_wrap wrap_unwrap by metis

end

definition v_service :: "service view" where [kinds]:
  "v_service = \<lparr>vkind = KService, wrap = OService,
     unwrap = (\<lambda>ob. case ob of OService x \<Rightarrow> Some x | _ \<Rightarrow> None)\<rparr>"
definition v_endpoints :: "endpoints view" where [kinds]:
  "v_endpoints = \<lparr>vkind = KEndpoints, wrap = OEndpoints,
     unwrap = (\<lambda>ob. case ob of OEndpoints x \<Rightarrow> Some x | _ \<Rightarrow> None)\<rparr>"
definition v_secret :: "secret view" where [kinds]:
  "v_secret = \<lparr>vkind = KSecret, wrap = OSecret,
     unwrap = (\<lambda>ob. case ob of OSecret x \<Rightarrow> Some x | _ \<Rightarrow> None)\<rparr>"
definition v_sa :: "service_account view" where [kinds]:
  "v_sa = \<lparr>vkind = KServiceAccount, wrap = OServiceAccount,
     unwrap = (\<lambda>ob. case ob of OServiceAccount x \<Rightarrow> Some x | _ \<Rightarrow> None)\<rparr>"
definition v_crole :: "cluster_role view" where [kinds]:
  "v_crole = \<lparr>vkind = KClusterRole, wrap = OClusterRole,
     unwrap = (\<lambda>ob. case ob of OClusterRole x \<Rightarrow> Some x | _ \<Rightarrow> None)\<rparr>"
definition v_rb :: "role_binding view" where [kinds]:
  "v_rb = \<lparr>vkind = KRoleBinding, wrap = ORoleBinding,
     unwrap = (\<lambda>ob. case ob of ORoleBinding x \<Rightarrow> Some x | _ \<Rightarrow> None)\<rparr>"
definition v_ns :: "namespace view" where [kinds]:
  "v_ns = \<lparr>vkind = KNamespace, wrap = ONamespace,
     unwrap = (\<lambda>ob. case ob of ONamespace x \<Rightarrow> Some x | _ \<Rightarrow> None)\<rparr>"
definition v_cm :: "config_map view" where [kinds]:
  "v_cm = \<lparr>vkind = KConfigMap, wrap = OConfigMap,
     unwrap = (\<lambda>ob. case ob of OConfigMap x \<Rightarrow> Some x | _ \<Rightarrow> None)\<rparr>"
definition v_ab :: "app_binding view" where [kinds]:
  "v_ab = \<lparr>vkind = KAppBinding, wrap = OAppBinding,
     unwrap = (\<lambda>ob. case ob of OAppBinding x \<Rightarrow> Some x | _ \<Rightarrow> None)\<rparr>"
definition v_cp :: "chart_preset view" where [kinds]:
  "v_cp = \<lparr>vkind = KChartPreset, wrap = OChartPreset,
     unwrap = (\<lambda>ob. case ob of OChartPreset x \<Rightarrow> Some x | _ \<Rightarrow> None)\<rparr>"
definition v_ccp :: "chart_preset view" where [kinds]:
  "v_ccp = \<lparr>vkind = KClusterChartPreset, wrap = OClusterChartPreset,
     unwrap = (\<lambda>ob. case ob of OClusterChartPreset x \<Rightarrow> Some x | _ \<Rightarrow> None)\<rparr>"
definition v_prom :: "prometheus view" where [kinds]:
  "v_prom = \<lparr>vkind = KPrometheus, wrap = OPrometheus,
     unwrap = (\<lambda>ob. case ob of OPrometheus x \<Rightarrow> Some x | _ \<Rightarrow> None)\<rparr>"
definition v_sm :: "service_monitor view" where [kinds]:
  "v_sm = \<lparr>vkind = KServiceMonitor, wrap = OServiceMonitor,
     unwrap = (\<lambda>ob. case ob of OServiceMonitor x \<Rightarrow> Some x | _ \<Rightarrow> None)\<rparr>"
definition v_am :: "alertmanager view" where [kinds]:
  "v_am = \<lparr>vkind = KAlertmanager, wrap = OAlertmanager,
     unwrap = (\<lambda>ob. case ob of OAlertmanager x \<Rightarrow> Some x | _ \<Rightarrow> None)\<rparr>"
definition v_amcfg :: "am_config view" where [kinds]:
  "v_amcfg = \<lparr>vkind = KAlertmanagerConfig, wrap = OAlertmanagerConfig,
     unwrap = (\<lambda>ob. case ob of OAlertmanagerConfig x \<Rightarrow> Some x | _ \<Rightarrow> None)\<rparr>"
definition v_apisvc :: "api_service view" where [kinds]:
  "v_apisvc = \<lparr>vkind = KAPIService, wrap = OAPIService,
     unwrap = (\<lambda>ob. case ob of OAPIService x \<Rightarrow> Some x | _ \<Rightarrow> None)\<rparr>"
definition v_gd :: "grafana_dashboard view" where [kinds]:
  "v_gd = \<lparr>vkind = KGrafanaDashboard, wrap = OGrafanaDashboard,
     unwrap = (\<lambda>ob. case ob of OGrafanaDashboard x \<Rightarrow> Some x | _ \<Rightarrow> None)\<rparr>"
definition v_ds :: "grafana_datasource view" where [kinds]:
  "v_ds = \<lparr>vkind = KGrafanaDatasource, wrap = OGrafanaDatasource,
     unwrap = (\<lambda>ob. case ob of OGrafanaDatasource x \<Rightarrow> Some x | _ \<Rightarrow> None)\<rparr>"
definition v_pd :: "perses_dashboard view" where [kinds]:
  "v_pd = \<lparr>vkind = KPersesDashboard, wrap = OPersesDashboard,
     unwrap = (\<lambda>ob. case ob of OPersesDashboard x \<Rightarrow> Some x | _ \<Rightarrow> None)\<rparr>"

interpretation view_service: typed_view v_service
  by unfold_locales (auto simp: kinds split: object.splits)
interpretation view_endpoints: typed_view v_endpoints
  by unfold_locales (auto simp: kinds split: object.splits)
interpretation view_secret: typed_view v_secret
  by unfold_locales (auto simp: kinds split: object.splits)
interpretation view_sa: typed_view v_sa
  by unfold_locales (auto simp: kinds split: object.splits)
interpretation view_crole: typed_view v_crole
  by unfold_locales (auto simp: kinds split: object.splits)
interpretation view_rb: typed_view v_rb
  by unfold_locales (auto simp: kinds split: object.splits)
interpretation view_ns: typed_view v_ns
  by unfold_locales (auto simp: kinds split: object.splits)
interpretation view_cm: typed_view v_cm
  by unfold_locales (auto simp: kinds split: object.splits)
interpretation view_ab: typed_view v_ab
  by unfold_locales (auto simp: kinds split: object.splits)
interpretation view_cp: typed_view v_cp
  by unfold_locales (auto simp: kinds split: object.splits)
interpretation view_ccp: typed_view v_ccp
  by unfold_locales (auto simp: kinds split: object.splits)
interpretation view_prom: typed_view v_prom
  by unfold_locales (auto simp: kinds split: object.splits)
interpretation view_sm: typed_view v_sm
  by unfold_locales (auto simp: kinds split: object.splits)
interpretation view_am: typed_view v_am
  by unfold_locales (auto simp: kinds split: object.splits)
interpretation view_amcfg: typed_view v_amcfg
  by unfold_locales (auto simp: kinds split: object.splits)
interpretation view_apisvc: typed_view v_apisvc
  by unfold_locales (auto simp: kinds split: object.splits)
interpretation view_gd: typed_view v_gd
  by unfold_locales (auto simp: kinds split: object.splits)
interpretation view_ds: typed_view v_ds
  by unfold_locales (auto simp: kinds split: object.splits)
interpretation view_pd: typed_view v_pd
  by unfold_locales (auto simp: kinds split: object.splits)

end
