(* ===== verification/Effects.thy ===== *)
theory Effects imports Objects begin

section \<open>Errors, the environment and effectful code\<close>

text \<open>
  Every handler of the program talks to services it does not implement: the Kubernetes API
  server, the inbox hub (HTTP), Grafana, Perses, Rancher, the clock.  They are one parameter of
  the model, the environment: a function \<open>exec\<close> from a request and the environment's own state to
  a response and a new state, together with the byte-level functions (JSON, URLs, digests) the
  code calls.  A Go function that can call them becomes a value of type \<open>('s, 'a) M\<close>: it reads
  the environment, threads the \<open>world\<close> (the process's own shared variables and the environment's
  state), and returns its outcome (a value, a Go \<open>error\<close> or a panic) with the events it caused,
  each a request paired with its response.

  The second half of the theory is a small logic of event traces.  \<open>never\<close>, \<open>guarded\<close>, \<open>emits\<close>
  and \<open>returns\<close> are claims about every environment and every state of the world, so no assumption
  on the services hides in a theorem that uses them.
\<close>

subsection \<open>Go errors\<close>

datatype ereason = NotFound | AlreadyExists | Conflict | BadRequest | Unauthorized | Forbidden
  | Internal | Unavailable | UnknownReason

datatype gerr =
  ApiErr ereason string      \<comment> \<open>a \<open>StatusError\<close> of the API machinery\<close>
| Wrap string gerr           \<comment> \<open>\<open>errors.Wrap(f)\<close> and \<open>%w\<close>: keeps the cause\<close>
| Plain string               \<comment> \<open>\<open>errors.New\<close>, \<open>fmt.Errorf\<close> with \<open>%v\<close>\<close>
| Sentinel string            \<comment> \<open>a package-level error variable\<close>
| Agg "gerr list"            \<comment> \<open>\<open>utilerrors.NewAggregate\<close>\<close>

fun err_reason :: "gerr \<Rightarrow> ereason" where
  \<comment> \<open>\<open>apierrors.ReasonForError\<close>\<close>
  "err_reason (ApiErr r _) = r"
| "err_reason (Wrap _ e) = err_reason e"
| "err_reason _ = UnknownReason"

definition is_not_found :: "gerr \<Rightarrow> bool" where
  "is_not_found e = (err_reason e = NotFound)"

definition is_already_exists :: "gerr \<Rightarrow> bool" where
  "is_already_exists e = (err_reason e = AlreadyExists)"

fun nub :: "string list \<Rightarrow> string list" where
  "nub [] = []"
| "nub (x # xs) = x # nub (filter (\<lambda>y. y \<noteq> x) xs)"

fun err_msg :: "gerr \<Rightarrow> string" where
  "err_msg (ApiErr _ m) = m"
| "err_msg (Wrap m e) = m @ '': '' @ err_msg e"
| "err_msg (Plain m) = m"
| "err_msg (Sentinel m) = m"
| "err_msg (Agg es) = (case nub (map err_msg es) of [] \<Rightarrow> '''' | [m] \<Rightarrow> m
     | ms \<Rightarrow> ''['' @ join '', '' ms @ '']'')"

lemma is_not_found_simps [simp]:
  "is_not_found (ApiErr r m) \<longleftrightarrow> r = NotFound"
  "is_not_found (Wrap m e) \<longleftrightarrow> is_not_found e"
  "\<not> is_not_found (Plain m)" "\<not> is_not_found (Sentinel m)" "\<not> is_not_found (Agg es)"
  by (simp_all add: is_not_found_def)

subsection \<open>JSON values as \<open>encoding/json\<close> decodes them into \<open>any\<close>\<close>

datatype any = ANull | ABool bool | ANum string | AStr string | AArr "any list"
  | AObj "(string \<times> any) list"

subsection \<open>Requests and responses\<close>

record list_opts =
  lo_namespace :: "string option"
  lo_labels :: smap
  lo_selector :: "selector option"
  lo_fields :: "(string \<times> string) list"  \<comment> \<open>\<open>client.MatchingFields\<close>\<close>

definition all_opts :: list_opts where
  "all_opts = \<lparr>lo_namespace = None, lo_labels = [], lo_selector = None, lo_fields = []\<rparr>"

record http_req =
  hq_method :: string
  hq_url :: string
  hq_headers :: smap
  hq_body :: string
  hq_ca :: string
  hq_insecure :: bool

datatype auth_config = NoAuth | Bearer string | Basic string string

record gconn =
  \<comment> \<open>an \<open>sdk.Client\<close>: where it calls and with which credentials\<close>
  gn_addr :: string
  gn_auth :: auth_config
  gn_ca :: string
  gn_insecure :: bool

record datasource =
  \<comment> \<open>\<open>sdk.Datasource\<close>\<close>
  dt_id :: int
  dt_org_id :: int
  dt_name :: string
  dt_type :: string
  dt_access :: string
  dt_url :: string
  dt_is_default :: bool

record gresp =
  \<comment> \<open>\<open>sdk.GrafanaResponse\<close>\<close>
  gq_status :: int
  gq_id :: "int option"
  gq_uid :: "string option"
  gq_slug :: "string option"
  gq_url :: "string option"
  gq_version :: "int option"
  gq_message :: "string option"

datatype gcall =
  SetDashboard "string option" int bool   \<comment> \<open>model bytes, folder, overwrite\<close>
| DeleteDashboardByUID string
| GetCurrentOrg
| CreateDatasource datasource
| UpdateDatasource datasource
| DeleteDatasource int

record rtoken =
  \<comment> \<open>the fields of Rancher's \<open>Token\<close> the code reads\<close>
  rt_name :: string
  rt_user :: string
  rt_token :: string
  rt_expires :: string
  rt_ttl_millis :: int

record cluster_md =
  \<comment> \<open>\<open>kmapi.ClusterMetadata\<close>, with the values its methods compute\<close>
  md_uid :: string
  md_name :: string
  md_state :: string

datatype request =
  Get kind key
| GetUncached kind key
| ListQ kind list_opts
| CreateQ object
| PatchQ object object            \<comment> \<open>the base the patch is computed from, the new object\<close>
| StatusPatchQ object object
| DeleteQ kind key
| DeleteAllOfQ kind string        \<comment> \<open>in a namespace\<close>
| RestMapping string string       \<comment> \<open>group, kind\<close>
| ClusterMetadataQ
| ACEManagedSpokeQ
| AuthorizeQ string string key    \<comment> \<open>user, resource, object\<close>
| HttpQ http_req
| GrafanaQ gconn gcall
| TokenSecretQ key                \<comment> \<open>\<open>cu.GetServiceAccountTokenSecret\<close>\<close>
| OpenShiftDomainQ
| OpenShiftSignerQ
| RancherConnect string string    \<comment> \<open>\<open>rancher.NewClient\<close>: server, token\<close>
| RancherByID string string string    \<comment> \<open>server, token, token id\<close>
| RancherCreate string string string int  \<comment> \<open>server, token, description, ttl in milliseconds\<close>
| NowQ
| EventQ kind key string string   \<comment> \<open>object, reason, message\<close>
| GenerateName string
| CrdQ string                     \<comment> \<open>a CustomResourceDefinition by name\<close>
| CrdApplyQ string                \<comment> \<open>create or update the CustomResourceDefinition of that name\<close>
| ReadFileQ string
| IndexQ kind string              \<comment> \<open>register the index function of a field\<close>
| SetupQ string "kind list"       \<comment> \<open>build a controller: its name and the kinds it watches\<close>
| LibQ string smap                \<comment> \<open>a step of a server library: the function and its settings\<close>
| ExitQ

datatype response =
  RErr gerr
| RDone
| RObj object
| RObjs "object list"
| RBool bool
| RHttp int string
| RGrafana "gresp option" "gerr option"  \<comment> \<open>both results of an sdk call\<close>
| ROrg "int option"
| RToken rtoken
| RMetadata cluster_md
| RNow int
| RName string
| RCrd string string              \<comment> \<open>group and kind\<close>
| RFile string

type_synonym event = "request \<times> response"

subsection \<open>The process and its environment\<close>

datatype prom_detector = OpenshiftProm | RancherProm
  | StandaloneProm (sa_openshift: bool) (sa_rancher: bool) (sa_singleton: bool)

datatype am_detector = OpenshiftAM | RancherAM | StandaloneAM bool bool bool

type_synonym state_cache = "((string \<times> int) \<times> (gerr + string)) list"

record 's world =
  w_prom :: "prom_detector option"    \<comment> \<open>\<open>lazyPrometheus.delegated\<close>\<close>
  w_am :: "am_detector option"        \<comment> \<open>\<open>lazyAlertmanager.delegated\<close>\<close>
  w_states :: state_cache             \<comment> \<open>\<open>openviz.stateMap\<close>\<close>
  w_ext :: 's                         \<comment> \<open>the state of the services\<close>

record url =
  u_scheme :: string
  u_host :: string
  u_path :: string
  u_query :: string

record grafana_config =
  \<comment> \<open>\<open>openvizapi.GrafanaConfiguration\<close>\<close>
  gc_datasource :: string
  gc_folder_id :: "int option"

record perses_config =
  \<comment> \<open>\<open>openvizapi.PersesConfiguration\<close>\<close>
  pc_datasource :: string
  pc_folder_name :: string
  pc_folder_id :: int
  pc_project_name :: string
  pc_project_id :: int

record prom_context =
  \<comment> \<open>\<open>mona.PrometheusContext\<close>\<close>
  px_hub_uid :: string
  px_cluster_uid :: string
  px_project_id :: string
  px_default :: bool
  px_issue_token :: bool
  px_client_org :: string

record prom_config =
  \<comment> \<open>\<open>mona.PrometheusConfig\<close>, without the parts the code leaves zero\<close>
  pf_url :: string
  pf_service :: service_spec
  pf_bearer_token :: string
  pf_tls_ca :: string

record grafana_resp =
  \<comment> \<open>\<open>GrafanaDatasourceResponse\<close>\<close>
  gp_url :: string
  gp_bearer_token :: string
  gp_datasource :: string
  gp_folder_id :: "int option"

record perses_resp =
  \<comment> \<open>\<open>PersesDatasourceResponse\<close>\<close>
  pp_url :: string
  pp_bearer_token :: string
  pp_config :: perses_config

record presets =
  \<comment> \<open>\<open>mona.MonitoringPresets\<close>\<close>
  mp_agent :: string
  mp_monitor_labels :: smap
  mp_alert_enabled :: string
  mp_alert_labels :: smap

text \<open>
  Dashboard models as the Grafana and Perses libraries decode them, with the fields the code reads
  or writes.
\<close>

record templ_var =
  tv_name :: string
  tv_type :: string
  tv_query :: any
  tv_rest :: string

datatype board_panel = BoardPanel (bp_type: string) (bp_title: string) (bp_id: int)
  (bp_panels: "board_panel list") (bp_rest: string)

record board =
  \<comment> \<open>\<open>sdk.Board\<close>; a panel pointer can be nil\<close>
  bo_title :: string
  bo_vars :: "templ_var list"
  bo_panels :: "board_panel option list"
  bo_rest :: string

record perses_plugin =
  pl_kind :: string
  pl_spec :: any

datatype default_value = SingleValue string | SliceValues "string list"

record list_spec =
  \<comment> \<open>\<open>dashboard.ListVariableSpec\<close>\<close>
  ls_name :: string
  ls_default :: "default_value option"
  ls_plugin :: perses_plugin
  ls_rest :: string

datatype var_spec = ListVar list_spec | OtherVar string

record perses_var =
  va_kind :: string
  va_spec :: var_spec

record perses_query =
  qu_kind :: string
  qu_plugin :: perses_plugin

record perses_panel =
  pn_title :: string
  pn_queries :: "perses_query list"
  pn_rest :: string

record perses_board =
  \<comment> \<open>the Perses \<open>v1.Dashboard\<close>; display and panels are pointers\<close>
  pb_name :: string
  pb_project :: string
  pb_project_id :: int
  pb_folder :: string
  pb_folder_id :: int
  pb_display :: "(string \<times> string) option"
  pb_vars :: "perses_var list"
  pb_panels :: "(string \<times> perses_panel option) list"
  pb_rest :: string

record codec =
  json_dec :: "string \<Rightarrow> string + any"      \<comment> \<open>\<open>json.Unmarshal\<close>: the error text or the value\<close>
  json_enc :: "any \<Rightarrow> string"
  dec_grafana_cfg :: "string \<Rightarrow> string + grafana_config"
  dec_perses_cfg :: "string \<Rightarrow> string + perses_config"
  enc_grafana_cfg :: "grafana_config \<Rightarrow> string"
  enc_perses_cfg :: "perses_config \<Rightarrow> string"
  enc_context :: "prom_context \<Rightarrow> string"
  enc_register :: "prom_context \<Rightarrow> prom_config \<Rightarrow> string"
  dec_grafana_resp :: "string \<Rightarrow> string + grafana_resp"
  dec_perses_resp :: "string \<Rightarrow> string + perses_resp"
  enc_presets :: "presets \<Rightarrow> string"
  dec_board :: "string \<Rightarrow> string + board"
  enc_board :: "board \<Rightarrow> string"
  dec_perses :: "string \<Rightarrow> string + perses_board"
  enc_perses :: "perses_board \<Rightarrow> string"
  obj_hash :: "object \<Rightarrow> string"            \<comment> \<open>\<open>meta.ObjectHash\<close>\<close>
  sha_b64 :: "string \<Rightarrow> string"             \<comment> \<open>base64 of the SHA-256 digest\<close>
  url_parse :: "string \<Rightarrow> string + url"
  url_string :: "url \<Rightarrow> string"
  api_server_address :: "string \<Rightarrow> string + url"
  host_is_ip :: "string \<Rightarrow> bool"            \<comment> \<open>\<open>net.ParseIP(u.Hostname()) != nil\<close>\<close>
  path_join :: "string \<Rightarrow> string \<Rightarrow> string"
  label_key_ok :: "string \<Rightarrow> bool"        \<comment> \<open>\<open>validateLabelKey\<close>\<close>
  label_value_ok :: "string \<Rightarrow> bool"
  time_parse :: "string \<Rightarrow> string + int"    \<comment> \<open>RFC 3339, as nanoseconds\<close>

record 's env =
  exec :: "request \<Rightarrow> 's \<Rightarrow> response \<times> 's"
  codecs :: codec

subsection \<open>Effectful code\<close>

datatype 'a outcome = Ok 'a | Err gerr | Panic string

type_synonym ('s, 'a) M = "'s env \<Rightarrow> 's world \<Rightarrow> 'a outcome \<times> event list \<times> 's world"

definition ret :: "'a \<Rightarrow> ('s, 'a) M" where
  "ret x = (\<lambda>E w. (Ok x, [], w))"

definition fail :: "gerr \<Rightarrow> ('s, 'a) M" where
  "fail e = (\<lambda>E w. (Err e, [], w))"

definition panic :: "string \<Rightarrow> ('s, 'a) M" where
  "panic m = (\<lambda>E w. (Panic m, [], w))"

definition bnd :: "('s, 'a) M \<Rightarrow> ('a \<Rightarrow> ('s, 'b) M) \<Rightarrow> ('s, 'b) M" where
  "bnd m f = (\<lambda>E w. case m E w of
     (Ok x, es, w1) \<Rightarrow> (case f x E w1 of (r, es', w2) \<Rightarrow> (r, es @ es', w2))
   | (Err e, es, w1) \<Rightarrow> (Err e, es, w1)
   | (Panic p, es, w1) \<Rightarrow> (Panic p, es, w1))"

definition attempt :: "('s, 'a) M \<Rightarrow> ('s, gerr + 'a) M" where
  \<comment> \<open>a call whose error the caller inspects instead of returning it; a panic is not caught\<close>
  "attempt m = (\<lambda>E w. case m E w of
     (Ok x, es, w1) \<Rightarrow> (Ok (Inr x), es, w1)
   | (Err e, es, w1) \<Rightarrow> (Ok (Inl e), es, w1)
   | (Panic p, es, w1) \<Rightarrow> (Panic p, es, w1))"

definition send :: "request \<Rightarrow> ('s, response) M" where
  "send q = (\<lambda>E w. case exec E q (w_ext w) of (a, s) \<Rightarrow> (Ok a, [(q, a)], w\<lparr>w_ext := s\<rparr>))"

definition pures :: "('s, codec) M" where
  "pures = (\<lambda>E w. (Ok (codecs E), [], w))"

definition get_world :: "('s world \<Rightarrow> 'a) \<Rightarrow> ('s, 'a) M" where
  "get_world f = (\<lambda>E w. (Ok (f w), [], w))"

definition put_world :: "('s world \<Rightarrow> 's world) \<Rightarrow> ('s, unit) M" where
  "put_world f = (\<lambda>E w. (Ok (), [], f w))"

definition lift_sum :: "gerr + 'a \<Rightarrow> ('s, 'a) M" where
  "lift_sum s = (case s of Inl e \<Rightarrow> fail e | Inr x \<Rightarrow> ret x)"

abbreviation seq :: "('s, 'a) M \<Rightarrow> ('s, 'b) M \<Rightarrow> ('s, 'b) M" where
  "seq m k \<equiv> bnd m (\<lambda>_. k)"

fun for_each :: "('a \<Rightarrow> ('s, unit) M) \<Rightarrow> 'a list \<Rightarrow> ('s, unit) M" where
  "for_each f [] = ret ()"
| "for_each f (x # xs) = seq (f x) (for_each f xs)"

definition answer :: "request \<Rightarrow> (response \<Rightarrow> 'a option) \<Rightarrow> ('s, 'a) M" where
  \<comment> \<open>a call whose error is returned; a response that the call cannot have is an error as well\<close>
  "answer q get = bnd (send q) (\<lambda>a. case a of
     RErr e \<Rightarrow> fail e
   | _ \<Rightarrow> (case get a of Some x \<Rightarrow> ret x | None \<Rightarrow> fail (Plain ''unexpected response'')))"

lemma attempt_simps [run_simps]:
  "attempt (ret x) = ret (Inr x)" "attempt (fail e) = ret (Inl e)" "attempt (panic p) = panic p"
  by (simp_all add: attempt_def ret_def fail_def panic_def)

lemma bnd_simps [run_simps]:
  "bnd (ret x) f = f x" "bnd (fail e) f = fail e" "bnd (panic p) f = panic p"
  by (simp_all add: bnd_def ret_def fail_def panic_def)

lemma bnd_assoc: "bnd (bnd m f) g = bnd m (\<lambda>x. bnd (f x) g)"
  by (auto simp: bnd_def fun_eq_iff split: prod.splits outcome.splits)

subsection \<open>Claims about every run\<close>

definition holds :: "('s, 'a) M \<Rightarrow> ('a outcome \<Rightarrow> event list \<Rightarrow> bool) \<Rightarrow> bool" where
  "holds m \<Phi> = (\<forall>E w r es w'. m E w = (r, es, w') \<longrightarrow> \<Phi> r es)"

definition never :: "(event \<Rightarrow> bool) \<Rightarrow> ('s, 'a) M \<Rightarrow> bool" where
  "never q m = holds m (\<lambda>_ es. \<forall>e \<in> set es. \<not> q e)"

definition emits :: "(event \<Rightarrow> bool) \<Rightarrow> ('s, 'a) M \<Rightarrow> bool" where
  \<comment> \<open>every successful run has an event in p\<close>
  "emits p m = holds m (\<lambda>r es. (\<exists>x. r = Ok x) \<longrightarrow> (\<exists>e \<in> set es. p e))"

definition returns :: "('a \<Rightarrow> bool) \<Rightarrow> ('s, 'a) M \<Rightarrow> bool" where
  "returns R m = holds m (\<lambda>r _. \<forall>x. r = Ok x \<longrightarrow> R x)"

definition no_panic :: "('s, 'a) M \<Rightarrow> bool" where
  "no_panic m = holds m (\<lambda>r _. \<forall>p. r \<noteq> Panic p)"

fun precedes :: "('e \<Rightarrow> bool) \<Rightarrow> ('e \<Rightarrow> bool) \<Rightarrow> 'e list \<Rightarrow> bool" where
  \<comment> \<open>no q-event before the first p-event\<close>
  "precedes p q [] = True"
| "precedes p q (e # es) = (p e \<or> (\<not> q e \<and> precedes p q es))"

definition guarded :: "(event \<Rightarrow> bool) \<Rightarrow> (event \<Rightarrow> bool) \<Rightarrow> ('s, 'a) M \<Rightarrow> bool" where
  "guarded p q m = holds m (\<lambda>_ es. precedes p q es)"

lemma precedes_append:
  "precedes p q (xs @ ys) \<longleftrightarrow> precedes p q xs \<and> ((\<exists>x \<in> set xs. p x) \<or> precedes p q ys)"
  by (induction xs) auto

lemma precedes_iff:
  "precedes p q es \<longleftrightarrow> (\<forall>i < length es. q (es ! i) \<longrightarrow> (\<exists>j \<le> i. p (es ! j)))"
proof (induction es)
  case (Cons e es)
  show ?case
  proof (cases "p e")
    case True
    then show ?thesis by (auto intro!: exI [of _ 0])
  next
    case False
    have "(\<forall>i < length (e # es). q ((e # es) ! i) \<longrightarrow> (\<exists>j \<le> i. p ((e # es) ! j))) \<longleftrightarrow>
      \<not> q e \<and> (\<forall>i < length es. q (es ! i) \<longrightarrow> (\<exists>j \<le> i. p (es ! j)))" (is "?L = ?R")
    proof
      assume L: ?L
      have "\<exists>j \<le> i. p (es ! j)" if "i < length es" "q (es ! i)" for i
      proof -
        have "\<exists>j \<le> Suc i. p ((e # es) ! j)"
          using L [rule_format, of "Suc i"] that by simp
        then obtain j where "j \<le> Suc i" "p ((e # es) ! j)" by blast
        with False show ?thesis by (cases j) auto
      qed
      moreover have "\<not> q e"
        using L [rule_format, of 0] False by auto
      ultimately show ?R by blast
    next
      assume R: ?R
      show ?L
      proof (intro allI impI)
        fix i assume i: "i < length (e # es)" "q ((e # es) ! i)"
        with R obtain i' where i': "i = Suc i'" by (cases i) auto
        with i R obtain j where "j \<le> i'" "p (es ! j)" by auto
        with i' show "\<exists>j \<le> i. p ((e # es) ! j)" by (intro exI [of _ "Suc j"]) auto
      qed
    qed
    with False Cons show ?thesis by simp
  qed
qed simp

lemma precedes_never: "\<forall>e \<in> set es. \<not> q e \<Longrightarrow> precedes p q es"
  by (induction es) auto

subsection \<open>Rules\<close>

lemma holdsI: "(\<And>E w r es w'. m E w = (r, es, w') \<Longrightarrow> \<Phi> r es) \<Longrightarrow> holds m \<Phi>"
  by (simp add: holds_def)

lemma holdsD: "holds m \<Phi> \<Longrightarrow> m E w = (r, es, w') \<Longrightarrow> \<Phi> r es"
  unfolding holds_def by blast

lemma holds_mono: "holds m \<Psi> \<Longrightarrow> (\<And>r es. \<Psi> r es \<Longrightarrow> \<Phi> r es) \<Longrightarrow> holds m \<Phi>"
  by (simp add: holds_def)

lemma holds_conj: "holds m \<Phi> \<Longrightarrow> holds m \<Psi> \<Longrightarrow> holds m (\<lambda>r es. \<Phi> r es \<and> \<Psi> r es)"
  by (simp add: holds_def)

lemma holds_True [simp]: "holds m (\<lambda>_ _. True)"
  by (simp add: holds_def)

lemma holds_bnd:
  assumes m: "holds m \<Psi>"
    and f: "\<And>x es. \<Psi> (Ok x) es \<Longrightarrow> holds (f x) (\<lambda>r es'. \<Phi> r (es @ es'))"
    and e: "\<And>e es. \<Psi> (Err e) es \<Longrightarrow> \<Phi> (Err e) es"
    and p: "\<And>p es. \<Psi> (Panic p) es \<Longrightarrow> \<Phi> (Panic p) es"
  shows "holds (bnd m f) \<Phi>"
proof (rule holdsI)
  fix E w r es w' assume run: "bnd m f E w = (r, es, w')"
  obtain r1 es1 w1 where m1: "m E w = (r1, es1, w1)" by (cases "m E w")
  then have P: "\<Psi> r1 es1" by (rule holdsD [OF m])
  show "\<Phi> r es"
  proof (cases r1)
    case (Ok x)
    obtain r2 es2 w2 where f2: "f x E w1 = (r2, es2, w2)" by (cases "f x E w1")
    have "\<Phi> r2 (es1 @ es2)" using holdsD [OF f f2] P Ok by simp
    then show ?thesis using run m1 f2 Ok by (auto simp: bnd_def)
  qed (use run m1 P e p in \<open>auto simp: bnd_def\<close>)
qed

lemma holds_bnd_any:
  assumes "\<And>x es. holds (f x) (\<lambda>r es'. \<Phi> r (es @ es'))" "\<And>e es. \<Phi> (Err e) es" "\<And>p es. \<Phi> (Panic p) es"
  shows "holds (bnd m f) \<Phi>"
  by (rule holds_bnd [OF holds_True]) (use assms in auto)

lemma holds_ret [simp]: "holds (ret x) \<Phi> \<longleftrightarrow> \<Phi> (Ok x) []"
  by (simp add: holds_def ret_def)

lemma holds_fail [simp]: "holds (fail e) \<Phi> \<longleftrightarrow> \<Phi> (Err e) []"
  by (simp add: holds_def fail_def)

lemma holds_panic [simp]: "holds (panic p) \<Phi> \<longleftrightarrow> \<Phi> (Panic p) []"
  by (simp add: holds_def panic_def)

lemma holds_send: "(\<And>a. \<Phi> (Ok a) [(q, a)]) \<Longrightarrow> holds (send q) \<Phi>"
  by (auto simp: holds_def send_def split: prod.splits)

lemma holds_pures: "(\<And>c. \<Phi> (Ok c) []) \<Longrightarrow> holds pures \<Phi>"
  by (auto simp: holds_def pures_def)

lemma holds_get_world: "(\<And>x. \<Phi> (Ok x) []) \<Longrightarrow> holds (get_world f) \<Phi>"
  by (auto simp: holds_def get_world_def)

lemma holds_put_world: "\<Phi> (Ok ()) [] \<Longrightarrow> holds (put_world f) \<Phi>"
  by (auto simp: holds_def put_world_def)

lemma holds_attempt:
  assumes "holds m \<Psi>"
    and "\<And>x es. \<Psi> (Ok x) es \<Longrightarrow> \<Phi> (Ok (Inr x)) es" "\<And>e es. \<Psi> (Err e) es \<Longrightarrow> \<Phi> (Ok (Inl e)) es"
    and "\<And>p es. \<Psi> (Panic p) es \<Longrightarrow> \<Phi> (Panic p) es"
  shows "holds (attempt m) \<Phi>"
  using assms by (fastforce simp: holds_def attempt_def split: prod.splits outcome.splits)

lemma never_ret [trace_intros]: "never q (ret x)"
  and never_fail [trace_intros]: "never q (fail e)"
  and never_panic [trace_intros]: "never q (panic p)"
  by (simp_all add: never_def)

lemma never_pures [trace_intros]: "never q pures"
  and never_get_world [trace_intros]: "never q (get_world f)"
  and never_put_world [trace_intros]: "never q (put_world g)"
  by (auto simp: never_def intro: holds_pures holds_get_world holds_put_world)

lemma never_send [trace_intros]: "(\<And>a. \<not> q (r, a)) \<Longrightarrow> never q (send r)"
  by (auto simp: never_def intro: holds_send)

lemma never_bnd_returns:
  assumes R: "returns R m" and m: "never q m" and f: "\<And>x. R x \<Longrightarrow> never q (f x)"
  shows "never q (bnd m f)"
  unfolding never_def
proof (rule holds_bnd [OF holds_conj [OF R [unfolded returns_def] m [unfolded never_def]]])
  fix x es assume P: "(\<forall>y. Ok x = Ok y \<longrightarrow> R y) \<and> (\<forall>e \<in> set es. \<not> q e)"
  then have "never q (f x)" using f by simp
  then show "holds (f x) (\<lambda>r es'. \<forall>e \<in> set (es @ es'). \<not> q e)"
    unfolding never_def by (rule holds_mono) (use P in auto)
qed simp_all

lemma returns_top: "returns (\<lambda>_. True) m"
  by (simp add: returns_def)

lemma never_bnd [trace_intros]:
  "never q m \<Longrightarrow> (\<And>x. never q (f x)) \<Longrightarrow> never q (bnd m f)"
  by (rule never_bnd_returns [OF returns_top])

lemma never_attempt [trace_intros]: "never q m \<Longrightarrow> never q (attempt m)"
  unfolding never_def by (erule holds_attempt) simp_all

lemma never_for_each [trace_intros]:
  "(\<And>x. x \<in> set xs \<Longrightarrow> never q (f x)) \<Longrightarrow> never q (for_each f xs)"
  by (induction xs) (auto intro!: trace_intros)

lemma never_lift_sum [trace_intros]: "never q (lift_sum s)"
  by (cases s) (auto simp: lift_sum_def intro: trace_intros)

lemma never_answer [trace_intros]: "(\<And>a. \<not> q (r, a)) \<Longrightarrow> never q (answer r g)"
  unfolding answer_def
  by (rule never_bnd) (auto intro!: trace_intros split: response.splits option.splits)

lemma never_weaken: "never q m \<Longrightarrow> (\<And>e. q' e \<Longrightarrow> q e) \<Longrightarrow> never q' m"
  unfolding never_def by (erule holds_mono) blast

lemma guarded_never: "never q m \<Longrightarrow> guarded p q m"
  unfolding never_def guarded_def by (erule holds_mono) (rule precedes_never)

lemma guarded_bnd_returns:
  assumes R: "returns R m" and m: "guarded p q m" and f: "\<And>x. R x \<Longrightarrow> guarded p q (f x)"
  shows "guarded p q (bnd m f)"
  unfolding guarded_def
proof (rule holds_bnd [OF holds_conj [OF R [unfolded returns_def] m [unfolded guarded_def]]])
  fix x es assume P: "(\<forall>y. Ok x = Ok y \<longrightarrow> R y) \<and> precedes p q es"
  then have "guarded p q (f x)" using f by simp
  then show "holds (f x) (\<lambda>r es'. precedes p q (es @ es'))"
    unfolding guarded_def by (rule holds_mono) (use P in \<open>auto simp: precedes_append\<close>)
qed simp_all

lemma guarded_bnd:
  "guarded p q m \<Longrightarrow> (\<And>x. guarded p q (f x)) \<Longrightarrow> guarded p q (bnd m f)"
  by (rule guarded_bnd_returns [OF returns_top])

lemma guarded_after:
  assumes m: "guarded p q m" and p: "emits p m"
  shows "guarded p q (bnd m f)"
  unfolding guarded_def
  by (rule holds_bnd [OF holds_conj [OF m [unfolded guarded_def] p [unfolded emits_def]]])
     (simp_all add: precedes_append holds_def)

lemma guarded_skip: "guarded p q (ret x)" and guarded_fail: "guarded p q (fail e)"
  and guarded_panic: "guarded p q (panic m)"
  by (simp_all add: guarded_def)

lemma guarded_if: "guarded p q m \<Longrightarrow> guarded p q m' \<Longrightarrow> guarded p q (if c then m else m')"
  by simp

lemma guarded_attempt: "guarded p q m \<Longrightarrow> guarded p q (attempt m)"
  unfolding guarded_def by (erule holds_attempt) simp_all

lemma emits_fail [simp]: "emits p (fail e)" and emits_panic [simp]: "emits p (panic s)"
  by (simp_all add: emits_def)

lemma emits_bnd_left: "emits p m \<Longrightarrow> emits p (bnd m f)"
  unfolding emits_def by (erule holds_bnd) (auto simp: holds_def)

lemma emits_bnd_returns:
  assumes R: "returns R m" and f: "\<And>x. R x \<Longrightarrow> emits p (f x)"
  shows "emits p (bnd m f)"
  unfolding emits_def
proof (rule holds_bnd [OF R [unfolded returns_def]])
  fix x es assume "\<forall>y. Ok x = Ok y \<longrightarrow> R y"
  then have "emits p (f x)" using f by simp
  then show "holds (f x) (\<lambda>r es'. (\<exists>x. r = Ok x) \<longrightarrow> (\<exists>e \<in> set (es @ es'). p e))"
    unfolding emits_def by (rule holds_mono) auto
qed simp_all

lemma emits_bnd_right: "(\<And>x. emits p (f x)) \<Longrightarrow> emits p (bnd m f)"
  by (rule emits_bnd_returns [OF returns_top])

lemma returns_ret: "R x \<Longrightarrow> returns R (ret x)"
  and returns_fail: "returns R (fail e)" and returns_panic: "returns R (panic p)"
  by (simp_all add: returns_def)

lemma returns_bnd: "(\<And>x. returns R (f x)) \<Longrightarrow> returns R (bnd m f)"
  unfolding returns_def by (rule holds_bnd_any) simp_all

lemma returns_bnd_from:
  assumes "returns S m" "\<And>x. S x \<Longrightarrow> returns R (f x)"
  shows "returns R (bnd m f)"
  unfolding returns_def
  by (rule holds_bnd [OF assms(1) [unfolded returns_def]]) (use assms(2) in \<open>simp_all add: returns_def\<close>)

lemma returns_mono: "returns S m \<Longrightarrow> (\<And>x. S x \<Longrightarrow> R x) \<Longrightarrow> returns R m"
  unfolding returns_def by (erule holds_mono) blast

lemma no_panic_ret [trace_intros]: "no_panic (ret x)"
  and no_panic_fail [trace_intros]: "no_panic (fail e)"
  by (simp_all add: no_panic_def)

lemma no_panic_prims [trace_intros]:
  "no_panic (send q)" "no_panic pures" "no_panic (get_world f)" "no_panic (put_world g)"
  by (auto simp: no_panic_def intro: holds_send holds_pures holds_get_world holds_put_world)

lemma no_panic_bnd_returns:
  assumes R: "returns R m" and m: "no_panic m" and f: "\<And>x. R x \<Longrightarrow> no_panic (f x)"
  shows "no_panic (bnd m f)"
  unfolding no_panic_def
  by (rule holds_bnd [OF holds_conj [OF R [unfolded returns_def] m [unfolded no_panic_def]]])
     (use f in \<open>simp_all add: no_panic_def\<close>)

lemma no_panic_bnd [trace_intros]:
  "no_panic m \<Longrightarrow> (\<And>x. no_panic (f x)) \<Longrightarrow> no_panic (bnd m f)"
  by (rule no_panic_bnd_returns [OF returns_top])

lemma no_panic_attempt [trace_intros]: "no_panic m \<Longrightarrow> no_panic (attempt m)"
  unfolding no_panic_def by (erule holds_attempt) simp_all

lemma no_panic_for_each [trace_intros]:
  "(\<And>x. x \<in> set xs \<Longrightarrow> no_panic (f x)) \<Longrightarrow> no_panic (for_each f xs)"
  by (induction xs) (auto intro!: trace_intros)

lemma no_panic_answer [trace_intros]: "no_panic (answer r g)"
  unfolding answer_def
  by (rule no_panic_bnd) (auto intro!: trace_intros split: response.splits option.splits)

lemma no_panic_lift_sum [trace_intros]: "no_panic (lift_sum s)"
  by (cases s) (auto simp: lift_sum_def intro: trace_intros)

subsection \<open>A scripted environment\<close>

text \<open>
  For evaluating code on a concrete run: the environment's state is the list of responses still
  to come, and the byte-level functions are simple total ones.
\<close>

definition plain_codec :: codec where
  "plain_codec = \<lparr>json_dec = (\<lambda>s. Inr (AStr s)), json_enc = (\<lambda>_. ''json''),
     dec_grafana_cfg = (\<lambda>s. Inr \<lparr>gc_datasource = s, gc_folder_id = None\<rparr>),
     dec_perses_cfg = (\<lambda>s. Inr \<lparr>pc_datasource = s, pc_folder_name = '''', pc_folder_id = 0,
       pc_project_name = '''', pc_project_id = 0\<rparr>),
     enc_grafana_cfg = gc_datasource, enc_perses_cfg = pc_datasource,
     enc_context = px_cluster_uid, enc_register = (\<lambda>x c. px_cluster_uid x @ pf_url c),
     dec_grafana_resp = (\<lambda>s. Inr \<lparr>gp_url = s, gp_bearer_token = s, gp_datasource = s, gp_folder_id = None\<rparr>),
     dec_perses_resp = (\<lambda>s. Inr \<lparr>pp_url = s, pp_bearer_token = s, pp_config = \<lparr>pc_datasource = s,
       pc_folder_name = '''', pc_folder_id = 0, pc_project_name = '''', pc_project_id = 0\<rparr>\<rparr>),
     enc_presets = mp_agent,
     dec_board = (\<lambda>s. Inr \<lparr>bo_title = s, bo_vars = [], bo_panels = [], bo_rest = ''''\<rparr>), enc_board = bo_title,
     dec_perses = (\<lambda>s. Inr \<lparr>pb_name = s, pb_project = '''', pb_project_id = 0, pb_folder = '''', pb_folder_id = 0,
       pb_display = None, pb_vars = [], pb_panels = [], pb_rest = ''''\<rparr>), enc_perses = pb_name,
     obj_hash = (\<lambda>ob. fst (obj_key ob)), sha_b64 = (\<lambda>s. s),
     url_parse = (\<lambda>s. Inr \<lparr>u_scheme = '''', u_host = '''', u_path = s, u_query = ''''\<rparr>),
     url_string = u_path,
     api_server_address = (\<lambda>s. Inr \<lparr>u_scheme = '''', u_host = '''', u_path = s, u_query = ''''\<rparr>),
     host_is_ip = (\<lambda>_. False), path_join = (\<lambda>a b. a @ ''/'' @ b), label_key_ok = (\<lambda>_. True),
     label_value_ok = (\<lambda>_. True), time_parse = (\<lambda>_. Inr 0)\<rparr>"

fun script_exec :: "request \<Rightarrow> response list \<Rightarrow> response \<times> response list" where
  "script_exec _ [] = (RErr (Plain ''end of script''), [])"
| "script_exec _ (a # s) = (a, s)"

definition script_env :: "response list env" where
  "script_env = \<lparr>exec = script_exec, codecs = plain_codec\<rparr>"

definition start :: "'s \<Rightarrow> 's world" where
  \<comment> \<open>a process that has just started\<close>
  "start s = \<lparr>w_prom = None, w_am = None, w_states = [], w_ext = s\<rparr>"

definition outcome_of :: "'a outcome \<times> event list \<times> 's world \<Rightarrow> 'a outcome" where
  "outcome_of p = fst p"

definition requests_of :: "'a outcome \<times> event list \<times> 's world \<Rightarrow> request list" where
  "requests_of p = map fst (fst (snd p))"

end
