(* ===== verification/Client.thy ===== *)
theory Client imports Effects begin

section \<open>The Kubernetes client and its helpers\<close>

text \<open>
  Typed calls of \<open>client.Client\<close> over the views of \<open>Objects\<close>, and the helpers the repository
  builds its controllers on: \<open>CreateOrPatch\<close>, \<open>Patch\<close> and \<open>PatchStatus\<close> of
  \<open>kmodules.xyz/client-go/client\<close> and the finalizer functions, translated from their vendored
  sources under src/vendor.  Each helper has a rule that says which requests it can send, for
  every environment; the locale \<open>api_server\<close> adds what a well-behaved API server promises, and
  is interpreted on an in-memory store.
\<close>

subsection \<open>Typed calls\<close>

definition the_obj :: "'a view \<Rightarrow> response \<Rightarrow> 'a option" where
  "the_obj v a = (case a of RObj ob \<Rightarrow> unwrap v ob | _ \<Rightarrow> None)"

definition the_list :: "'a view \<Rightarrow> response \<Rightarrow> 'a list option" where
  "the_list v a = (case a of RObjs obs \<Rightarrow> those (map (unwrap v) obs) | _ \<Rightarrow> None)"

definition the_done :: "response \<Rightarrow> unit option" where
  "the_done a = (case a of RDone \<Rightarrow> Some () | _ \<Rightarrow> None)"

definition kget :: "'a view \<Rightarrow> key \<Rightarrow> ('s, 'a) M" where
  "kget v k = answer (Get (vkind v) k) (the_obj v)"

definition kget_uncached :: "'a view \<Rightarrow> key \<Rightarrow> ('s, 'a) M" where
  "kget_uncached v k = answer (GetUncached (vkind v) k) (the_obj v)"

definition klist :: "'a view \<Rightarrow> list_opts \<Rightarrow> ('s, 'a list) M" where
  "klist v opts = answer (ListQ (vkind v) opts) (the_list v)"

definition kcreate :: "'a view \<Rightarrow> 'a \<Rightarrow> ('s, 'a) M" where
  "kcreate v x = answer (CreateQ (wrap v x)) (the_obj v)"

definition kpatch :: "'a view \<Rightarrow> 'a \<Rightarrow> 'a \<Rightarrow> ('s, 'a) M" where
  "kpatch v base x = answer (PatchQ (wrap v base) (wrap v x)) (the_obj v)"

definition kpatch_status :: "'a view \<Rightarrow> 'a \<Rightarrow> 'a \<Rightarrow> ('s, 'a) M" where
  "kpatch_status v base x = answer (StatusPatchQ (wrap v base) (wrap v x)) (the_obj v)"

definition kdelete :: "'a view \<Rightarrow> key \<Rightarrow> ('s, unit) M" where
  "kdelete v k = answer (DeleteQ (vkind v) k) the_done"

definition kdelete_all_of :: "'a view \<Rightarrow> string \<Rightarrow> ('s, unit) M" where
  "kdelete_all_of v ns = answer (DeleteAllOfQ (vkind v) ns) the_done"

definition ignore_not_found :: "('s, unit) M \<Rightarrow> ('s, unit) M" where
  \<comment> \<open>\<open>client.IgnoreNotFound\<close> on the error of a call\<close>
  "ignore_not_found m = bnd (attempt m) (\<lambda>r. case r of
     Inl e \<Rightarrow> if is_not_found e then ret () else fail e
   | Inr _ \<Rightarrow> ret ())"

definition fetch :: "('s, 'a) M \<Rightarrow> ('a \<Rightarrow> ('s, unit) M) \<Rightarrow> ('s, unit) M" where
  \<comment> \<open>\<open>if err := kc.Get(...); err != nil { return Result{}, client.IgnoreNotFound(err) }\<close>\<close>
  "fetch m f = bnd (attempt m) (\<lambda>r. case r of
     Inl e \<Rightarrow> if is_not_found e then ret () else fail e
   | Inr x \<Rightarrow> f x)"

type_synonym requeue = int  \<comment> \<open>\<open>ctrl.Result.RequeueAfter\<close> in nanoseconds; 0 is the empty result\<close>

definition seconds :: "int \<Rightarrow> requeue" where
  "seconds n = n * 1000000000"

definition fetch_result :: "('s, 'a) M \<Rightarrow> ('a \<Rightarrow> ('s, requeue) M) \<Rightarrow> ('s, requeue) M" where
  \<comment> \<open>the same for a handler whose result can ask for another run\<close>
  "fetch_result m f = bnd (attempt m) (\<lambda>r. case r of
     Inl e \<Rightarrow> if is_not_found e then ret 0 else fail e
   | Inr x \<Rightarrow> f x)"

subsection \<open>CreateOrPatch, Patch, PatchStatus\<close>

datatype verb = VerbUnchanged | VerbCreated | VerbPatched

definition patch_verb :: "codec \<Rightarrow> object \<Rightarrow> object \<Rightarrow> verb" where
  \<comment> \<open>the verb after a successful patch of \<open>cur\<close> that returned \<open>new\<close>\<close>
  "patch_verb C cur new =
     (if om_generation (obj_meta new) > 0
      then (if om_generation (obj_meta cur) \<noteq> om_generation (obj_meta new)
            then VerbPatched else VerbUnchanged)
      else (if obj_hash C cur \<noteq> obj_hash C new then VerbPatched else VerbUnchanged))"

definition kcreate_object :: "'a view \<Rightarrow> object \<Rightarrow> ('s, 'a) M" where
  "kcreate_object v ob = answer (CreateQ ob) (the_obj v)"

definition create_or_patch ::
    "'a view \<Rightarrow> 'a \<Rightarrow> ('a \<Rightarrow> bool \<Rightarrow> 'a) \<Rightarrow> ('s, verb \<times> 'a) M" where
  \<comment> \<open>\<open>cu.CreateOrPatch(ctx, kc, obj, transform)\<close>: the verb and what \<open>obj\<close> is afterwards\<close>
  "create_or_patch v x f =
     bnd (attempt (kget v (obj_key (wrap v x)))) (\<lambda>r. case r of
       Inl e \<Rightarrow>
         if is_not_found e then
           bnd (kcreate_object v (set_rversion '''' (wrap v (f x True)))) (\<lambda>new.
           ret (VerbCreated, new))
         else fail e
     | Inr cur \<Rightarrow>
         bnd (kpatch v cur (f cur False)) (\<lambda>new.
         bnd pures (\<lambda>C.
         ret (patch_verb C (wrap v cur) (wrap v new), new))))"

definition create_or_patch_e ::
    "'a view \<Rightarrow> 'a \<Rightarrow> ('a \<Rightarrow> bool \<Rightarrow> ('s, 'a) M) \<Rightarrow> ('s, verb \<times> 'a) M" where
  \<comment> \<open>with a transform that can fail or panic, after the read and before the write\<close>
  "create_or_patch_e v x f =
     bnd (attempt (kget v (obj_key (wrap v x)))) (\<lambda>r. case r of
       Inl e \<Rightarrow>
         if is_not_found e then
           bnd (f x True) (\<lambda>y.
           bnd (kcreate_object v (set_rversion [] (wrap v y))) (\<lambda>new.
           ret (VerbCreated, new)))
         else fail e
     | Inr cur \<Rightarrow>
         bnd (f cur False) (\<lambda>y.
         bnd (kpatch v cur y) (\<lambda>new.
         bnd pures (\<lambda>C.
         ret (patch_verb C (wrap v cur) (wrap v new), new)))))"

lemma create_or_patch_is_e: "create_or_patch v x f = create_or_patch_e v x (\<lambda>y c. ret (f y c))"
  unfolding create_or_patch_def create_or_patch_e_def
  by (rule arg_cong [where f = "bnd _"]) (simp add: fun_eq_iff bnd_simps split: sum.split)

definition patch :: "'a view \<Rightarrow> 'a \<Rightarrow> ('a \<Rightarrow> 'a) \<Rightarrow> ('s, verb \<times> 'a) M" where
  "patch v x f =
     bnd (kpatch v x (f x)) (\<lambda>new.
     bnd pures (\<lambda>C.
     ret (patch_verb C (wrap v x) (wrap v new), new)))"

definition patch_status_e :: "'a view \<Rightarrow> 'a \<Rightarrow> ('a \<Rightarrow> ('s, 'a) M) \<Rightarrow> ('s, 'a) M" where
  "patch_status_e v x f =
     bnd (kget v (obj_key (wrap v x))) (\<lambda>cur.
     bnd (f cur) (\<lambda>y.
     kpatch_status v cur y))"

definition patch_status :: "'a view \<Rightarrow> 'a \<Rightarrow> ('a \<Rightarrow> 'a) \<Rightarrow> ('s, 'a) M" where
  "patch_status v x f = patch_status_e v x (\<lambda>cur. ret (f cur))"

subsection \<open>Finalizers\<close>

definition add_finalizer :: "string \<Rightarrow> objmeta \<Rightarrow> objmeta" where
  "add_finalizer fz m = (if fz \<in> set (om_finalizers m) then m
     else m\<lparr>om_finalizers := om_finalizers m @ [fz]\<rparr>)"

definition remove_finalizer :: "string \<Rightarrow> objmeta \<Rightarrow> objmeta" where
  "remove_finalizer fz m = m\<lparr>om_finalizers := filter (\<lambda>n. n \<noteq> fz) (om_finalizers m)\<rparr>"

lemma add_finalizer_set [simp]: "set (om_finalizers (add_finalizer fz m)) = insert fz (set (om_finalizers m))"
  by (auto simp: add_finalizer_def)

lemma remove_finalizer_set [simp]:
  "set (om_finalizers (remove_finalizer fz m)) = set (om_finalizers m) - {fz}"
  by (auto simp: remove_finalizer_def)

lemma remove_add_finalizer:
  "fz \<notin> set (om_finalizers m) \<Longrightarrow> remove_finalizer fz (add_finalizer fz m) = m"
  by (cases m) (auto simp: remove_finalizer_def add_finalizer_def filter_id_conv)

subsection \<open>Which requests a call can send\<close>

lemma never_calls [trace_intros]:
  "(\<And>a. \<not> q (Get (vkind v) k, a)) \<Longrightarrow> never q (kget v k)"
  "(\<And>a. \<not> q (GetUncached (vkind v) k, a)) \<Longrightarrow> never q (kget_uncached v k)"
  "(\<And>a. \<not> q (ListQ (vkind v) opts, a)) \<Longrightarrow> never q (klist v opts)"
  "(\<And>a. \<not> q (CreateQ (wrap v x), a)) \<Longrightarrow> never q (kcreate v x)"
  "(\<And>a. \<not> q (CreateQ ob, a)) \<Longrightarrow> never q (kcreate_object v ob)"
  "(\<And>a. \<not> q (PatchQ (wrap v b) (wrap v x), a)) \<Longrightarrow> never q (kpatch v b x)"
  "(\<And>a. \<not> q (StatusPatchQ (wrap v b) (wrap v x), a)) \<Longrightarrow> never q (kpatch_status v b x)"
  "(\<And>a. \<not> q (DeleteQ (vkind v) k, a)) \<Longrightarrow> never q (kdelete v k)"
  "(\<And>a. \<not> q (DeleteAllOfQ (vkind v) ns, a)) \<Longrightarrow> never q (kdelete_all_of v ns)"
  unfolding kget_def kget_uncached_def klist_def kcreate_def kcreate_object_def kpatch_def
    kpatch_status_def kdelete_def kdelete_all_of_def
  by (rule never_answer, blast)+

lemma no_panic_calls [trace_intros]:
  "no_panic (kget v k)" "no_panic (kget_uncached v k)" "no_panic (klist v opts)"
  "no_panic (kcreate v x)" "no_panic (kcreate_object v ob)" "no_panic (kpatch v b x)"
  "no_panic (kpatch_status v b x)" "no_panic (kdelete v k)" "no_panic (kdelete_all_of v ns)"
  unfolding kget_def kget_uncached_def klist_def kcreate_def kcreate_object_def kpatch_def
    kpatch_status_def kdelete_def kdelete_all_of_def
  by (rule no_panic_answer)+

lemma never_ignore_not_found [trace_intros]: "never q m \<Longrightarrow> never q (ignore_not_found m)"
  unfolding ignore_not_found_def by (intro trace_intros) (auto split: sum.split intro: trace_intros)

lemma no_panic_ignore_not_found [trace_intros]: "no_panic m \<Longrightarrow> no_panic (ignore_not_found m)"
  unfolding ignore_not_found_def by (intro trace_intros) (auto split: sum.split intro: trace_intros)

lemma never_create_or_patch [trace_intros]:
  assumes "\<And>a. \<not> q (Get (vkind v) (obj_key (wrap v x)), a)"
    and "\<And>a. \<not> q (CreateQ (set_rversion '''' (wrap v (f x True))), a)"
    and "\<And>cur a. \<not> q (PatchQ (wrap v cur) (wrap v (f cur False)), a)"
  shows "never q (create_or_patch v x f)"
  unfolding create_or_patch_def
  by (intro trace_intros assms) (auto split: sum.split intro!: trace_intros assms)

lemma never_create_or_patch_e [trace_intros]:
  assumes "\<And>a. \<not> q (Get (vkind v) (obj_key (wrap v x)), a)"
    and "\<And>y c. never q (f y c)"
    and "\<And>y a. \<not> q (CreateQ (set_rversion [] (wrap v y)), a)"
    and "\<And>cur y a. \<not> q (PatchQ (wrap v cur) (wrap v y), a)"
  shows "never q (create_or_patch_e v x f)"
  unfolding create_or_patch_e_def
  by (intro trace_intros assms) (auto split: sum.split intro!: trace_intros assms)

lemma never_patch [trace_intros]:
  "(\<And>a. \<not> q (PatchQ (wrap v x) (wrap v (f x)), a)) \<Longrightarrow> never q (patch v x f)"
  unfolding patch_def by (intro trace_intros) auto

lemma never_patch_status_e [trace_intros]:
  assumes "\<And>a. \<not> q (Get (vkind v) (obj_key (wrap v x)), a)" "\<And>cur. never q (f cur)"
    and "\<And>cur y a. \<not> q (StatusPatchQ (wrap v cur) (wrap v y), a)"
  shows "never q (patch_status_e v x f)"
  unfolding patch_status_e_def by (intro trace_intros assms)

lemma never_patch_status [trace_intros]:
  assumes "\<And>a. \<not> q (Get (vkind v) (obj_key (wrap v x)), a)"
    and "\<And>cur a. \<not> q (StatusPatchQ (wrap v cur) (wrap v (f cur)), a)"
  shows "never q (patch_status v x f)"
  unfolding patch_status_def patch_status_e_def bnd_simps by (intro trace_intros assms)

lemma no_panic_create_or_patch [trace_intros]: "no_panic (create_or_patch v x f)"
  unfolding create_or_patch_def
  by (intro trace_intros) (auto split: sum.split intro!: trace_intros)

lemma no_panic_patch [trace_intros]: "no_panic (patch v x f)"
  unfolding patch_def by (intro trace_intros)

lemma no_panic_patch_status [trace_intros]: "no_panic (patch_status v x f)"
  unfolding patch_status_def patch_status_e_def bnd_simps by (intro trace_intros)

subsection \<open>What a successful call has done\<close>

fun failed :: "response \<Rightarrow> bool" where
  "failed (RErr _) = True"
| "failed _ = False"

lemma holds_answer:
  assumes "\<And>a x. get a = Some x \<Longrightarrow> \<not> failed a \<Longrightarrow> \<Phi> (Ok x) [(q, a)]"
    and "\<And>e a. \<Phi> (Err e) [(q, a)]"
  shows "holds (answer q get) \<Phi>"
  unfolding answer_def
proof (rule holds_bnd [where \<Psi> = "\<lambda>r es. \<exists>a. r = Ok a \<and> es = [(q, a)]"])
  show "holds (send q) (\<lambda>r es. \<exists>a. r = Ok a \<and> es = [(q, a)])"
    by (rule holds_send) simp
  fix a :: response and es assume P: "\<exists>b. Ok a = Ok b \<and> es = [(q, b)]"
  have "\<not> failed a \<Longrightarrow> holds (case get a of Some x \<Rightarrow> ret x | None \<Rightarrow> fail (Plain ''unexpected response''))
      (\<lambda>r es'. \<Phi> r (es @ es'))"
    using P assms by (cases "get a") auto
  then show "holds (case a of RErr e \<Rightarrow> fail e | _ \<Rightarrow> (case get a of Some x \<Rightarrow> ret x
      | None \<Rightarrow> fail (Plain ''unexpected response''))) (\<lambda>r es'. \<Phi> r (es @ es'))"
    using P assms(2) by (cases a) auto
qed auto

lemma emits_answer:
  "(\<And>a x. get a = Some x \<Longrightarrow> \<not> failed a \<Longrightarrow> p (q, a)) \<Longrightarrow> emits p (answer q get)"
  unfolding emits_def by (rule holds_answer) auto

lemma returns_answer: "(\<And>a x. get a = Some x \<Longrightarrow> R x) \<Longrightarrow> returns R (answer q get)"
  unfolding returns_def by (rule holds_answer) auto

fun got :: "'a view \<Rightarrow> ('a \<Rightarrow> bool) \<Rightarrow> event \<Rightarrow> bool" where
  \<comment> \<open>an object with property P came from the server\<close>
  "got v P (q, a) = (case the_obj v a of Some x \<Rightarrow> P x | None \<Rightarrow> False)"

lemma holds_kget:
  assumes "\<And>a x. got v (\<lambda>y. y = x) (Get (vkind v) k, a) \<Longrightarrow> \<Phi> (Ok x) [(Get (vkind v) k, a)]"
    and "\<And>e a. \<Phi> (Err e) [(Get (vkind v) k, a)]"
  shows "holds (kget v k) \<Phi>"
  unfolding kget_def by (rule holds_answer) (use assms in auto)

lemma never_fetch [trace_intros]:
  "never q m \<Longrightarrow> (\<And>x. never q (f x)) \<Longrightarrow> never q (fetch m f)"
  unfolding fetch_def by (intro trace_intros) (auto split: sum.split intro: trace_intros)

lemma no_panic_fetch [trace_intros]:
  "no_panic m \<Longrightarrow> (\<And>x. no_panic (f x)) \<Longrightarrow> no_panic (fetch m f)"
  unfolding fetch_def by (intro trace_intros) (auto split: sum.split intro: trace_intros)

lemma never_fetch_result [trace_intros]:
  "never q m \<Longrightarrow> (\<And>x. never q (f x)) \<Longrightarrow> never q (fetch_result m f)"
  unfolding fetch_result_def by (intro trace_intros) (auto split: sum.split intro: trace_intros)

lemma no_panic_fetch_result [trace_intros]:
  "no_panic m \<Longrightarrow> (\<And>x. no_panic (f x)) \<Longrightarrow> no_panic (fetch_result m f)"
  unfolding fetch_result_def by (intro trace_intros) (auto split: sum.split intro: trace_intros)

lemma guarded_read:
  fixes m :: "('s, 'a) M"
  assumes m: "holds m (\<lambda>r es. (\<forall>e \<in> set es. \<not> q e) \<and> (\<forall>x. r = Ok x \<longrightarrow> P x \<longrightarrow> (\<exists>e \<in> set es. p e)))"
    and no: "\<And>x. \<not> P x \<Longrightarrow> guarded p q (f x)"
  shows "guarded p q (bnd m f)"
  unfolding guarded_def
proof (rule holds_bnd [OF m])
  fix x es assume I: "(\<forall>e \<in> set es. \<not> q e) \<and> (\<forall>y. Ok x = Ok y \<longrightarrow> P y \<longrightarrow> (\<exists>e \<in> set es. p e))"
  show "holds (f x) (\<lambda>r es'. precedes p q (es @ es'))"
  proof (cases "P x")
    case False
    have "holds (f x) (\<lambda>_ es'. precedes p q es')" using no [OF False] by (simp add: guarded_def)
    then show ?thesis by (rule holds_mono) (use I in \<open>auto simp: precedes_append intro: precedes_never\<close>)
  qed (use I in \<open>auto simp: precedes_append holds_def intro: precedes_never\<close>)
qed (auto intro: precedes_never)

lemma guarded_fetch_result:
  assumes "guarded p q m" "\<And>x. guarded p q (f x)"
  shows "guarded p q (fetch_result m f)"
  unfolding fetch_result_def
  by (rule guarded_bnd [OF guarded_attempt [OF assms(1)]])
     (auto split: sum.split intro: assms(2) guarded_never trace_intros)

text \<open>
  A read that decides what follows: if everything after a value that was not seen with property P
  is harmless, then q-events come after the event that brought a value with P.
\<close>

lemma guarded_read_result:
  fixes m :: "('s, 'a) M"
  assumes m: "holds m (\<lambda>r es. (\<forall>e \<in> set es. \<not> q e) \<and> (\<forall>x. r = Ok x \<longrightarrow> P x \<longrightarrow> (\<exists>e \<in> set es. p e)))"
    and no: "\<And>x. \<not> P x \<Longrightarrow> guarded p q (f x)"
  shows "guarded p q (fetch_result m f)"
  unfolding fetch_result_def
proof (rule guarded_read [where P = "\<lambda>r. \<exists>x. r = Inr x \<and> P x"])
  show "holds (attempt m) (\<lambda>r es. (\<forall>e \<in> set es. \<not> q e) \<and>
      (\<forall>x. r = Ok x \<longrightarrow> (\<exists>y. x = Inr y \<and> P y) \<longrightarrow> (\<exists>e \<in> set es. p e)))"
    by (rule holds_attempt [OF m]) auto
qed (use no in \<open>auto split: sum.split simp: guarded_skip guarded_fail\<close>)

lemma guarded_fetch:
  assumes "guarded p q m" "\<And>x. guarded p q (f x)"
  shows "guarded p q (fetch m f)"
  unfolding fetch_def
  by (rule guarded_bnd [OF guarded_attempt [OF assms(1)]])
     (auto split: sum.split intro: assms(2) guarded_never trace_intros)

text \<open>
  A handler that fetches an object and goes on only if it has property P: what it does later is
  preceded by the event that brought an object with P.
\<close>

lemma guarded_fetch_got:
  assumes q: "\<And>a. \<not> q (Get (vkind v) k, a)"
    and no: "\<And>x. \<not> P x \<Longrightarrow> guarded (got v P) q (f x)"
  shows "guarded (got v P) q (fetch (kget v k) f)"
  unfolding fetch_def guarded_def
proof (rule holds_bnd)
  show "holds (attempt (kget v k)) (\<lambda>r es. (\<forall>e \<in> set es. \<not> q e) \<and>
      (\<forall>x. r = Ok (Inr x) \<longrightarrow> P x \<longrightarrow> (\<exists>e \<in> set es. got v P e)))" (is "holds _ ?\<Psi>")
    by (rule holds_attempt, rule holds_kget [where \<Phi> = "\<lambda>r es. (\<forall>e \<in> set es. \<not> q e) \<and>
      (\<forall>x. r = Ok x \<longrightarrow> P x \<longrightarrow> (\<exists>e \<in> set es. got v P e))"])
       (use q in \<open>auto split: option.splits\<close>)
  fix r es assume I: "?\<Psi> (Ok r) es"
  show "holds (case r of Inl e \<Rightarrow> if is_not_found e then ret () else fail e | Inr x \<Rightarrow> f x)
      (\<lambda>r es'. precedes (got v P) q (es @ es'))"
  proof (cases r)
    case (Inl e)
    then show ?thesis using I by (auto intro: precedes_never)
  next
    case (Inr x)
    show ?thesis
    proof (cases "P x")
      case True
      then show ?thesis using I Inr
        by (auto simp: precedes_append holds_def intro: precedes_never)
    next
      case False
      have "holds (f x) (\<lambda>r es'. precedes (got v P) q es')"
        using no [OF False] by (simp add: guarded_def)
      then show ?thesis using I Inr
        by (auto simp: precedes_append intro: precedes_never elim: holds_mono)
    qed
  qed
qed (auto intro: precedes_never)

fun wrote :: "kind \<Rightarrow> key \<Rightarrow> event \<Rightarrow> bool" where
  \<comment> \<open>a write the server accepted\<close>
  "wrote K k (CreateQ ob, a) = (kind_of ob = K \<and> obj_key ob = k \<and> \<not> failed a)"
| "wrote K k (PatchQ b ob, a) = (kind_of ob = K \<and> obj_key ob = k \<and> \<not> failed a)"
| "wrote K k _ = False"

fun is_write :: "request \<Rightarrow> bool" where
  "is_write (CreateQ _) = True"
| "is_write (PatchQ _ _) = True"
| "is_write (StatusPatchQ _ _) = True"
| "is_write (DeleteQ _ _) = True"
| "is_write (DeleteAllOfQ _ _) = True"
| "is_write _ = False"

subsection \<open>Frames: which kinds of objects code can write\<close>

fun write_kind :: "request \<Rightarrow> kind option" where
  "write_kind (CreateQ ob) = Some (kind_of ob)"
| "write_kind (PatchQ _ ob) = Some (kind_of ob)"
| "write_kind (StatusPatchQ _ ob) = Some (kind_of ob)"
| "write_kind (DeleteQ K _) = Some K"
| "write_kind (DeleteAllOfQ K _) = Some K"
| "write_kind _ = None"

definition outside :: "kind set \<Rightarrow> event \<Rightarrow> bool" where
  "outside S e = (\<exists>K. write_kind (fst e) = Some K \<and> K \<notin> S)"

abbreviation writes_only :: "kind set \<Rightarrow> ('s, 'a) M \<Rightarrow> bool" where
  "writes_only S m \<equiv> never (outside S) m"

lemma outside_simps [simp]:
  "outside S (CreateQ ob, a) \<longleftrightarrow> kind_of ob \<notin> S"
  "outside S (PatchQ b ob, a) \<longleftrightarrow> kind_of ob \<notin> S"
  "outside S (StatusPatchQ b ob, a) \<longleftrightarrow> kind_of ob \<notin> S"
  "outside S (DeleteQ K k, a) \<longleftrightarrow> K \<notin> S"
  "outside S (DeleteAllOfQ K ns, a) \<longleftrightarrow> K \<notin> S"
  "write_kind q = None \<Longrightarrow> \<not> outside S (q, a)"
  by (simp_all add: outside_def)

lemma kind_of_wrap [simp]:
  "kind_of (wrap v_service a1) = KService" "kind_of (wrap v_endpoints a2) = KEndpoints"
  "kind_of (wrap v_secret a3) = KSecret" "kind_of (wrap v_sa a4) = KServiceAccount"
  "kind_of (wrap v_crole a5) = KClusterRole" "kind_of (wrap v_rb a6) = KRoleBinding"
  "kind_of (wrap v_ns a7) = KNamespace" "kind_of (wrap v_cm a8) = KConfigMap"
  "kind_of (wrap v_ab a9) = KAppBinding" "kind_of (wrap v_cp b1) = KChartPreset"
  "kind_of (wrap v_ccp b2) = KClusterChartPreset" "kind_of (wrap v_prom b3) = KPrometheus"
  "kind_of (wrap v_sm b4) = KServiceMonitor" "kind_of (wrap v_am b5) = KAlertmanager"
  "kind_of (wrap v_amcfg b6) = KAlertmanagerConfig" "kind_of (wrap v_apisvc b7) = KAPIService"
  "kind_of (wrap v_gd b8) = KGrafanaDashboard" "kind_of (wrap v_ds b9) = KGrafanaDatasource"
  "kind_of (wrap v_pd c1) = KPersesDashboard"
  by (simp_all add: kinds)

lemma vkind_simps [simp]:
  "vkind v_service = KService" "vkind v_endpoints = KEndpoints" "vkind v_secret = KSecret"
  "vkind v_sa = KServiceAccount" "vkind v_crole = KClusterRole" "vkind v_rb = KRoleBinding"
  "vkind v_ns = KNamespace" "vkind v_cm = KConfigMap" "vkind v_ab = KAppBinding"
  "vkind v_cp = KChartPreset" "vkind v_ccp = KClusterChartPreset" "vkind v_prom = KPrometheus"
  "vkind v_sm = KServiceMonitor" "vkind v_am = KAlertmanager" "vkind v_amcfg = KAlertmanagerConfig"
  "vkind v_apisvc = KAPIService" "vkind v_gd = KGrafanaDashboard" "vkind v_ds = KGrafanaDatasource"
  "vkind v_pd = KPersesDashboard"
  by (simp_all add: kinds)

lemma writes_only_outside:
  "writes_only S m \<Longrightarrow> (\<And>e. q e \<Longrightarrow> \<exists>K. write_kind (fst e) = Some K \<and> K \<notin> S) \<Longrightarrow> never q m"
  by (erule never_weaken) (simp add: outside_def)

subsection \<open>A well-behaved API server\<close>

locale api_server =
  fixes X :: "request \<Rightarrow> 's \<Rightarrow> response \<times> 's"
    and stored :: "'s \<Rightarrow> kind \<Rightarrow> key \<Rightarrow> object option"
  assumes get_found: "stored s K k = Some ob \<Longrightarrow> X (Get K k) s = (RObj ob, s)"
    and get_missing: "stored s K k = None \<Longrightarrow> \<exists>m. X (Get K k) s = (RErr (ApiErr NotFound m), s)"
    and stored_sort: "stored s K k = Some ob \<Longrightarrow> kind_of ob = K \<and> obj_key ob = k"
    and create_new: "stored s (kind_of ob) (obj_key ob) = None \<Longrightarrow>
      \<exists>ob' s'. X (CreateQ ob) s = (RObj ob', s') \<and> desired ob' = desired ob \<and>
        stored s' (kind_of ob) (obj_key ob) = Some ob'"
    and patch_current: "stored s (kind_of ob) (obj_key ob) = Some base \<Longrightarrow>
      \<exists>ob' s'. X (PatchQ base ob) s = (RObj ob', s') \<and> desired ob' = desired ob \<and>
        stored s' (kind_of ob) (obj_key ob) = Some ob'"
begin

lemma kget_found:
  assumes "exec E = X" "typed_view v" "stored (w_ext w) (vkind v) k = Some (wrap v x)"
  shows "kget v k E w = (Ok x, [(Get (vkind v) k, RObj (wrap v x))], w)"
  using get_found [OF assms(3)] typed_view.unwrap_wrap [OF assms(2), of x] assms(1)
  by (simp add: kget_def answer_def bnd_def send_def the_obj_def ret_def)

lemma kget_missing:
  assumes "exec E = X" "stored (w_ext w) (vkind v) k = None"
  shows "\<exists>m es. kget v k E w = (Err (ApiErr NotFound m), es, w)"
  using get_missing [OF assms(2)] assms(1)
  by (auto simp: kget_def answer_def bnd_def send_def fail_def)

lemma kpatch_stores:
  assumes "exec E = X" "typed_view v" "obj_key (wrap v y) = obj_key (wrap v x)"
    and "stored (w_ext w) (vkind v) (obj_key (wrap v x)) = Some (wrap v x)"
  shows "\<exists>z es w'. kpatch v x y E w = (Ok z, es, w') \<and> desired (wrap v z) = desired (wrap v y) \<and>
     stored (w_ext w') (vkind v) (obj_key (wrap v x)) = Some (wrap v z)"
proof -
  have k: "kind_of (wrap v y) = vkind v" by (rule typed_view.kind_wrap [OF assms(2)])
  obtain ob s where X: "X (PatchQ (wrap v x) (wrap v y)) (w_ext w) = (RObj ob, s)"
    "desired ob = desired (wrap v y)" "stored s (vkind v) (obj_key (wrap v x)) = Some ob"
    using patch_current [of "w_ext w" "wrap v y" "wrap v x"] assms(3,4) k by auto
  have "kind_of ob = vkind v" using X(2) k by (metis kind_of_desired)
  then obtain z where z: "ob = wrap v z" using typed_view.kind_iff [OF assms(2)] by blast
  show ?thesis
    using X z assms(1) typed_view.unwrap_wrap [OF assms(2), of z]
    by (auto simp: kpatch_def answer_def bnd_def send_def the_obj_def ret_def)
qed

lemma kcreate_stores:
  assumes "exec E = X" "typed_view v" "kind_of ob = vkind v"
    and "stored (w_ext w) (vkind v) (obj_key ob) = None"
  shows "\<exists>z es w'. kcreate_object v ob E w = (Ok z, es, w') \<and> desired (wrap v z) = desired ob \<and>
     stored (w_ext w') (vkind v) (obj_key ob) = Some (wrap v z)"
proof -
  obtain ob' s where X: "X (CreateQ ob) (w_ext w) = (RObj ob', s)" "desired ob' = desired ob"
    "stored s (vkind v) (obj_key ob) = Some ob'"
    using create_new [of "w_ext w" ob] assms(3,4) by auto
  have "kind_of ob' = vkind v" using X(2) assms(3) by (metis kind_of_desired)
  then obtain z where z: "ob' = wrap v z" using typed_view.kind_iff [OF assms(2)] by blast
  show ?thesis
    using X z assms(1) typed_view.unwrap_wrap [OF assms(2), of z]
    by (auto simp: kcreate_object_def answer_def bnd_def send_def the_obj_def ret_def)
qed

text \<open>
  The contract of \<open>CreateOrPatch\<close>: whether or not the object was there, afterwards the server
  stores what the transform makes of the stored (or the given) object, as long as the transform
  keeps the name.
\<close>

lemma create_or_patch_stores:
  fixes w :: "'s world"
  assumes E: "exec E = X" and v: "typed_view v"
    and key: "\<And>y c. obj_key (wrap v y) = obj_key (wrap v x) \<Longrightarrow> obj_key (wrap v (f y c)) = obj_key (wrap v x)"
  defines "old \<equiv> stored (w_ext w) (vkind v) (obj_key (wrap v x))"
  shows "\<exists>vb z es w'. create_or_patch v x f E w = (Ok (vb, z), es, w') \<and>
     stored (w_ext w') (vkind v) (obj_key (wrap v x)) = Some (wrap v z) \<and>
     desired (wrap v z) = desired (wrap v (case old of None \<Rightarrow> f x True
       | Some ob \<Rightarrow> f (the (unwrap v ob)) False))"
proof (cases old)
  case None
  let ?ob = "set_rversion '''' (wrap v (f x True))"
  have k: "kind_of ?ob = vkind v" "obj_key ?ob = obj_key (wrap v x)"
    using typed_view.kind_wrap [OF v] key by auto
  obtain m es where g: "kget v (obj_key (wrap v x)) E w = (Err (ApiErr NotFound m), es, w)"
    using kget_missing [OF E, of w v "obj_key (wrap v x)"] None old_def by auto
  obtain z es' w' where c: "kcreate_object v ?ob E w = (Ok z, es', w')"
    "desired (wrap v z) = desired ?ob" "stored (w_ext w') (vkind v) (obj_key ?ob) = Some (wrap v z)"
    using kcreate_stores [OF E v k(1), of w] None k old_def by auto
  show ?thesis
    using g c k None by (simp add: create_or_patch_def bnd_def attempt_def ret_def)
next
  case (Some ob)
  then have "kind_of ob = vkind v" "obj_key ob = obj_key (wrap v x)"
    using stored_sort old_def by auto
  then obtain cur where cur: "ob = wrap v cur" using typed_view.kind_iff [OF v] by blast
  have un: "unwrap v (wrap v cur) = Some cur" by (rule typed_view.unwrap_wrap [OF v])
  have kc: "obj_key (wrap v cur) = obj_key (wrap v x)"
    using \<open>obj_key ob = _\<close> cur by simp
  have g: "kget v (obj_key (wrap v x)) E w = (Ok cur, [(Get (vkind v) (obj_key (wrap v x)), RObj (wrap v cur))], w)"
    by (rule kget_found [OF E v]) (use Some cur old_def in simp)
  obtain z es' w' where c: "kpatch v cur (f cur False) E w = (Ok z, es', w')"
    "desired (wrap v z) = desired (wrap v (f cur False))"
    "stored (w_ext w') (vkind v) (obj_key (wrap v cur)) = Some (wrap v z)"
    using kpatch_stores [OF E v, of "f cur False" cur w] Some cur kc key [OF kc] old_def by auto
  show ?thesis
    using g c kc Some cur un by (simp add: create_or_patch_def bnd_def attempt_def ret_def pures_def)
qed

end

text \<open>An in-memory server: objects by kind and key, a counter for resource versions.\<close>

record mem_store =
  ms_objs :: "((kind \<times> key) \<times> object) list"
  ms_tick :: int

definition ms_find :: "mem_store \<Rightarrow> kind \<Rightarrow> key \<Rightarrow> object option" where
  "ms_find s K k = (case map_of (ms_objs s) (K, k) of
     Some ob \<Rightarrow> if kind_of ob = K \<and> obj_key ob = k then Some ob else None | None \<Rightarrow> None)"

definition ms_put :: "object \<Rightarrow> mem_store \<Rightarrow> response \<times> mem_store" where
  "ms_put ob s = (let ob' = set_rversion (itoa (ms_tick s)) ob in
     (RObj ob', s\<lparr>ms_objs := AList.update (kind_of ob, obj_key ob) ob' (ms_objs s),
        ms_tick := ms_tick s + 1\<rparr>))"

fun mem_exec :: "request \<Rightarrow> mem_store \<Rightarrow> response \<times> mem_store" where
  "mem_exec (Get K k) s = (case ms_find s K k of Some ob \<Rightarrow> (RObj ob, s)
     | None \<Rightarrow> (RErr (ApiErr NotFound ''not found''), s))"
| "mem_exec (GetUncached K k) s = (case ms_find s K k of Some ob \<Rightarrow> (RObj ob, s)
     | None \<Rightarrow> (RErr (ApiErr NotFound ''not found''), s))"
| "mem_exec (CreateQ ob) s = (case ms_find s (kind_of ob) (obj_key ob) of
     None \<Rightarrow> ms_put ob s | Some _ \<Rightarrow> (RErr (ApiErr AlreadyExists ''already exists''), s))"
| "mem_exec (PatchQ base ob) s = (case ms_find s (kind_of ob) (obj_key ob) of
     None \<Rightarrow> (RErr (ApiErr NotFound ''not found''), s) | Some _ \<Rightarrow> ms_put ob s)"
| "mem_exec (StatusPatchQ base ob) s = (case ms_find s (kind_of ob) (obj_key ob) of
     None \<Rightarrow> (RErr (ApiErr NotFound ''not found''), s) | Some _ \<Rightarrow> ms_put ob s)"
| "mem_exec (DeleteQ K k) s = (case ms_find s K k of
     None \<Rightarrow> (RErr (ApiErr NotFound ''not found''), s)
   | Some _ \<Rightarrow> (RDone, s\<lparr>ms_objs := AList.delete (K, k) (ms_objs s)\<rparr>))"
| "mem_exec _ s = (RErr (ApiErr Unavailable ''no such service''), s)"

interpretation mem: api_server mem_exec ms_find
proof unfold_locales
  fix s K k ob
  show "ms_find s K k = Some ob \<Longrightarrow> mem_exec (Get K k) s = (RObj ob, s)" by simp
  show "ms_find s K k = None \<Longrightarrow> \<exists>m. mem_exec (Get K k) s = (RErr (ApiErr NotFound m), s)" by simp
  show "ms_find s K k = Some ob \<Longrightarrow> kind_of ob = K \<and> obj_key ob = k"
    by (auto simp: ms_find_def split: option.splits if_splits)
next
  fix s ob
  assume "ms_find s (kind_of ob) (obj_key ob) = None"
  then show "\<exists>ob' s'. mem_exec (CreateQ ob) s = (RObj ob', s') \<and> desired ob' = desired ob \<and>
        ms_find s' (kind_of ob) (obj_key ob) = Some ob'"
    by (auto simp: ms_put_def Let_def ms_find_def [of "_\<lparr>ms_objs := _, ms_tick := _\<rparr>"] update_conv')
next
  fix s ob base
  assume "ms_find s (kind_of ob) (obj_key ob) = Some base"
  then show "\<exists>ob' s'. mem_exec (PatchQ base ob) s = (RObj ob', s') \<and> desired ob' = desired ob \<and>
        ms_find s' (kind_of ob) (obj_key ob) = Some ob'"
    by (auto simp: ms_put_def Let_def ms_find_def [of "_\<lparr>ms_objs := _, ms_tick := _\<rparr>"] update_conv')
qed

end
