(* ===== verification/Meta_Util.thy ===== *)
theory Meta_Util imports Client begin

section \<open>Labels, selectors, conditions and clusters\<close>

text \<open>
  The helper functions of src/vendor/kmodules.xyz/client-go and of the API machinery that the
  controllers' decisions rest on: \<open>LabelsForLabelSelector\<close> and \<open>OverwriteKeys\<close> (which labels make
  a Prometheus select a monitor), \<open>LabelSelectorAsSelector\<close> and \<open>Matches\<close> (whether it does),
  \<open>SetCondition\<close>, and the cluster kind tests.  The central lemma is
  \<open>labels_for_selector_select\<close>: the labels computed for a selector satisfy it.
\<close>

subsection \<open>Labels for a selector\<close>

fun label_of_expr :: "smap \<Rightarrow> sel_expr \<Rightarrow> smap" where
  "label_of_expr ls x = (case ex_op x of
     OpIn \<Rightarrow> (case ex_values x of [] \<Rightarrow> ls | v # _ \<Rightarrow> sput (ex_key x) v ls)
   | OpNotIn \<Rightarrow> (case ex_values x of [] \<Rightarrow> ls
       | v # vs \<Rightarrow>
         if v = ''true'' \<and> vs = [] then sput (ex_key x) ''false'' ls
         else if v = ''false'' \<and> vs = [] then sput (ex_key x) ''true'' ls
         else sput (ex_key x) (''not-'' @ v) ls)
   | OpExists \<Rightarrow> sput (ex_key x) '''' ls
   | OpDoesNotExist \<Rightarrow> sdel (ex_key x) ls
   | OpUnknown _ \<Rightarrow> ls)"

definition labels_for_selector :: "label_selector option \<Rightarrow> smap \<times> bool" where
  "labels_for_selector sel = (case sel of
     None \<Rightarrow> ([], True)
   | Some s \<Rightarrow> (foldl label_of_expr (sputs [] (match_labels s)) (match_exprs s), match_exprs s = []))"

definition overwrite_keys :: "smap \<Rightarrow> smap \<Rightarrow> smap" where
  \<comment> \<open>\<open>OverwriteKeys(out, in)\<close>\<close>
  "overwrite_keys out ins = sputs out ins"

subsection \<open>Selectors\<close>

definition new_requirement :: "codec \<Rightarrow> string \<Rightarrow> sel_op \<Rightarrow> string list \<Rightarrow> gerr + requirement" where
  \<comment> \<open>\<open>labels.NewRequirement\<close>; \<open>Equals\<close> is \<open>In\<close> with one value\<close>
  "new_requirement C k op vals =
     (if label_key_ok C k
         \<and> (case op of OpIn \<Rightarrow> vals \<noteq> [] | OpNotIn \<Rightarrow> vals \<noteq> [] | OpExists \<Rightarrow> vals = []
            | OpDoesNotExist \<Rightarrow> vals = [] | OpUnknown _ \<Rightarrow> False)
         \<and> list_all (label_value_ok C) vals
      then Inr \<lparr>rq_key = k, rq_op = op, rq_values = vals\<rparr>
      else Inl (Plain (''invalid label requirement on '' @ k)))"

fun collect :: "('a \<Rightarrow> gerr + 'b) \<Rightarrow> 'a list \<Rightarrow> gerr + 'b list" where
  \<comment> \<open>a loop that returns the first error\<close>
  "collect f [] = Inr []"
| "collect f (x # xs) = (case f x of Inl e \<Rightarrow> Inl e | Inr y \<Rightarrow>
     (case collect f xs of Inl e \<Rightarrow> Inl e | Inr ys \<Rightarrow> Inr (y # ys)))"

definition expr_requirement :: "codec \<Rightarrow> sel_expr \<Rightarrow> gerr + requirement" where
  "expr_requirement C x = (case ex_op x of
     OpUnknown s \<Rightarrow> Inl (Plain (s @ '' is not a valid label selector operator''))
   | opr \<Rightarrow> new_requirement C (ex_key x) opr (ex_values x))"

definition selector_of :: "codec \<Rightarrow> label_selector option \<Rightarrow> gerr + selector" where
  \<comment> \<open>\<open>metav1.LabelSelectorAsSelector\<close>\<close>
  "selector_of C ps = (case ps of
     None \<Rightarrow> Inr SelNothing
   | Some s \<Rightarrow>
     (case collect (\<lambda>(k, v). new_requirement C k OpIn [v]) (match_labels s) of
        Inl e \<Rightarrow> Inl e
      | Inr rs1 \<Rightarrow> (case collect (expr_requirement C) (match_exprs s) of
          Inl e \<Rightarrow> Inl e
        | Inr rs2 \<Rightarrow> Inr (SelAll (rs1 @ rs2)))))"

definition req_matches :: "requirement \<Rightarrow> smap \<Rightarrow> bool" where
  "req_matches r ls = (case rq_op r of
     OpIn \<Rightarrow> shas ls (rq_key r) \<and> sget ls (rq_key r) \<in> set (rq_values r)
   | OpNotIn \<Rightarrow> shas ls (rq_key r) \<longrightarrow> sget ls (rq_key r) \<notin> set (rq_values r)
   | OpExists \<Rightarrow> shas ls (rq_key r)
   | OpDoesNotExist \<Rightarrow> \<not> shas ls (rq_key r)
   | OpUnknown _ \<Rightarrow> False)"

fun sel_matches :: "selector \<Rightarrow> smap \<Rightarrow> bool" where
  "sel_matches SelNothing ls = False"
| "sel_matches (SelAll rs) ls = list_all (\<lambda>r. req_matches r ls) rs"

subsection \<open>The labels computed for a selector satisfy it\<close>

lemma sget_sputs:
  "distinct (map fst ins) \<Longrightarrow>
   sget (sputs out ins) k = (case map_of ins k of Some v \<Rightarrow> v | None \<Rightarrow> sget out k)"
  by (simp add: sget_def map_of_sputs map_add_def split: option.splits)

lemma shas_sputs:
  "distinct (map fst ins) \<Longrightarrow> shas (sputs out ins) k \<longleftrightarrow> shas ins k \<or> shas out k"
  by (auto simp: shas_def map_of_sputs map_add_def split: option.splits)

fun expr_solvable :: "sel_expr \<Rightarrow> bool" where
  \<comment> \<open>the expressions for which a label can be computed at all\<close>
  "expr_solvable x = (case ex_op x of
     OpIn \<Rightarrow> True
   | OpNotIn \<Rightarrow> ''not-'' @ hd (ex_values x) \<notin> set (ex_values x)
   | OpExists \<Rightarrow> True
   | _ \<Rightarrow> False)"

definition expr_value :: "sel_expr \<Rightarrow> string" where
  "expr_value x = sget (label_of_expr [] x) (ex_key x)"

lemma label_of_expr_solvable:
  assumes "expr_solvable x" "expr_requirement C x = Inr r"
  shows "label_of_expr ls x = sput (ex_key x) (expr_value x) ls"
    and "shas ls' (ex_key x) \<Longrightarrow> sget ls' (ex_key x) = expr_value x \<Longrightarrow> req_matches r ls'"
proof -
  have r: "r = \<lparr>rq_key = ex_key x, rq_op = ex_op x, rq_values = ex_values x\<rparr>"
    "ex_op x = OpIn \<or> ex_op x = OpNotIn \<Longrightarrow> ex_values x \<noteq> []"
    using assms by (auto simp: expr_requirement_def new_requirement_def split: sel_op.splits if_splits)
  consider (In) "ex_op x = OpIn" | (NotIn) "ex_op x = OpNotIn" | (Ex) "ex_op x = OpExists"
    using assms(1) by (cases "ex_op x") auto
  note c = this
  show "label_of_expr ls x = sput (ex_key x) (expr_value x) ls"
    using c by cases (use r in \<open>auto simp: expr_value_def split: list.splits\<close>)
  assume "shas ls' (ex_key x)" "sget ls' (ex_key x) = expr_value x"
  with c show "req_matches r ls'"
    by cases (use r assms(1) in \<open>auto simp: expr_value_def req_matches_def split: list.splits if_splits\<close>)
qed

lemma foldl_label_of_expr:
  assumes "list_all expr_solvable xs" "collect (expr_requirement C) xs = Inr rs"
  shows "foldl label_of_expr ls xs = sputs ls (map (\<lambda>x. (ex_key x, expr_value x)) xs)"
  using assms
proof (induction xs arbitrary: ls rs)
  case (Cons x xs)
  then obtain r rs' where "expr_requirement C x = Inr r" "collect (expr_requirement C) xs = Inr rs'"
    by (auto split: sum.splits)
  then show ?case using Cons label_of_expr_solvable(1) [of x C r] by simp
qed simp

lemma collect_Inr: "collect f xs = Inr ys \<Longrightarrow> list_all2 (\<lambda>x y. f x = Inr y) xs ys"
  by (induction xs arbitrary: ys) (auto split: sum.splits)

lemma list_all2_pre: "list_all2 P xs ys \<Longrightarrow> y \<in> set ys \<Longrightarrow> \<exists>x \<in> set xs. P x y"
  by (induction xs ys rule: list_all2_induct) auto

lemma distinct_map_of_sputs:
  "distinct (map fst out) \<Longrightarrow> distinct (map fst (sputs out ins))"
  by (induction out ins rule: sputs.induct) (auto simp: sput_def distinct_update)

definition selector_keys :: "label_selector \<Rightarrow> string list" where
  "selector_keys s = map fst (match_labels s) @ map ex_key (match_exprs s)"

lemma sputs_append: "sputs out (xs @ ys) = sputs (sputs out xs) ys"
  by (induction out xs rule: sputs.induct) auto

lemma map_of_sputs_Nil: "distinct (map fst ins) \<Longrightarrow> map_of (sputs [] ins) = map_of ins"
  by (simp add: map_of_sputs)

lemma labels_for_selector_eq:
  assumes "distinct (selector_keys s)" "list_all expr_solvable (match_exprs s)"
    and "selector_of C (Some s) = Inr S"
  shows "map_of (fst (labels_for_selector (Some s))) =
     map_of (match_labels s @ map (\<lambda>x. (ex_key x, expr_value x)) (match_exprs s))"
proof -
  obtain rs where rs: "collect (expr_requirement C) (match_exprs s) = Inr rs"
    using assms(3) by (auto simp: selector_of_def split: sum.splits)
  let ?xs = "map (\<lambda>x. (ex_key x, expr_value x)) (match_exprs s)"
  have d: "distinct (map fst (match_labels s @ ?xs))"
    using assms(1) by (simp add: selector_keys_def comp_def)
  show ?thesis
    using map_of_sputs_Nil [OF d] foldl_label_of_expr [OF assms(2) rs]
    by (simp add: labels_for_selector_def sputs_append)
qed

text \<open>
  The labels for a selector, written over any labels at all, make the selector match.  The
  hypotheses: each key is constrained once, and no expression asks for the absence of a label.
\<close>

lemma labels_for_selector_select:
  assumes keys: "distinct (selector_keys s)" and solv: "list_all expr_solvable (match_exprs s)"
    and S: "selector_of C (Some s) = Inr S"
    and ls: "\<And>k v. map_of (fst (labels_for_selector (Some s))) k = Some v \<Longrightarrow> map_of ls k = Some v"
  shows "sel_matches S ls"
proof -
  obtain rs1 rs2 where rs: "S = SelAll (rs1 @ rs2)"
    "list_all2 (\<lambda>kv r. new_requirement C (fst kv) OpIn [snd kv] = Inr r) (match_labels s) rs1"
    "list_all2 (\<lambda>x r. expr_requirement C x = Inr r) (match_exprs s) rs2"
    using S by (auto simp: selector_of_def case_prod_unfold split: sum.splits dest!: collect_Inr)
  let ?all = "match_labels s @ map (\<lambda>x. (ex_key x, expr_value x)) (match_exprs s)"
  have d: "distinct (map fst ?all)" using keys by (simp add: selector_keys_def comp_def)
  have look: "map_of ls k = Some v" if "(k, v) \<in> set ?all" for k v
    using ls that labels_for_selector_eq [OF keys solv S] map_of_is_SomeI [OF d] by auto
  have "req_matches r ls" if "r \<in> set rs1" for r
  proof -
    obtain kv where "kv \<in> set (match_labels s)" "new_requirement C (fst kv) OpIn [snd kv] = Inr r"
      using list_all2_pre [OF rs(2) \<open>r \<in> set rs1\<close>] by blast
    then show ?thesis using look [of "fst kv" "snd kv"]
      by (auto simp: req_matches_def new_requirement_def sget_def shas_def split: if_splits)
  qed
  moreover have "req_matches r ls" if "r \<in> set rs2" for r
  proof -
    obtain x where x: "x \<in> set (match_exprs s)" "expr_requirement C x = Inr r"
      using list_all2_pre [OF rs(3) \<open>r \<in> set rs2\<close>] by blast
    then have "map_of ls (ex_key x) = Some (expr_value x)" by (intro look) auto
    then show ?thesis
      using label_of_expr_solvable(2) [OF _ x(2), of ls] solv x(1)
      by (auto simp: list_all_iff sget_def shas_def)
  qed
  ultimately show ?thesis using rs(1) by (auto simp: list_all_iff)
qed

lemma distinct_label_of_expr:
  "distinct (map fst ls) \<Longrightarrow> distinct (map fst (label_of_expr ls x))"
  by (cases "ex_op x"; cases "ex_values x") (simp_all add: sput_def sdel_def distinct_update distinct_delete)

lemma distinct_foldl_label_of_expr:
  "distinct (map fst ls) \<Longrightarrow> distinct (map fst (foldl label_of_expr ls xs))"
  by (induction xs arbitrary: ls) (simp_all add: distinct_label_of_expr del: label_of_expr.simps)

lemma distinct_keys_labels:
  "distinct (map fst (fst (labels_for_selector sel)))"
  by (cases sel) (simp_all add: labels_for_selector_def distinct_map_of_sputs distinct_foldl_label_of_expr)

lemma overwrite_keys_select:
  assumes "distinct (selector_keys s)" "list_all expr_solvable (match_exprs s)"
    and "selector_of C (Some s) = Inr S"
  shows "sel_matches S (overwrite_keys ls (fst (labels_for_selector (Some s))))"
  by (rule labels_for_selector_select [OF assms])
     (simp add: overwrite_keys_def map_of_sputs [OF distinct_keys_labels])

lemma overwrite_keys_idem:
  assumes "distinct (map fst ins)"
  shows "map_of (overwrite_keys (overwrite_keys out ins) ins) = map_of (overwrite_keys out ins)"
  using assms by (simp add: overwrite_keys_def map_of_sputs fun_eq_iff map_add_def split: option.splits)

lemma overwrite_keys_lookup:
  assumes "distinct (map fst ins)"
  shows "sget (overwrite_keys out ins) k = (case map_of ins k of Some v \<Rightarrow> v | None \<Rightarrow> sget out k)"
  using assms by (simp add: overwrite_keys_def sget_sputs)

subsection \<open>Owners\<close>

definition controller_of :: "string \<Rightarrow> string \<Rightarrow> objmeta \<Rightarrow> owner_ref" where
  \<comment> \<open>\<open>metav1.NewControllerRef(owner, gvk)\<close>\<close>
  "controller_of api kd m = \<lparr>or_api = api, or_kind = kd, or_name = om_name m, or_uid = om_uid m\<rparr>"

definition controller_ref :: "string \<Rightarrow> objmeta \<Rightarrow> owner_ref" where
  \<comment> \<open>for an owner of the Prometheus operator's API group\<close>
  "controller_ref = controller_of ''monitoring.coreos.com/v1''"

subsection \<open>Conditions\<close>

fun get_condition :: "condition list \<Rightarrow> string \<Rightarrow> (nat \<times> condition) option" where
  "get_condition [] ty = None"
| "get_condition (c # cs) ty = (if co_type c = ty then Some (0, c)
     else map_option (\<lambda>(i, d). (Suc i, d)) (get_condition cs ty))"

definition set_condition :: "condition list \<Rightarrow> condition \<Rightarrow> condition list" where
  "set_condition cs new =
     (let unset = co_observed new \<le> 0 in
      case get_condition cs (co_type new) of
        None \<Rightarrow> cs @ [new]
      | Some (i, cur) \<Rightarrow>
          if co_status cur = co_status new \<and> co_reason cur = co_reason new
             \<and> co_message cur = co_message new
             \<and> (unset \<or> co_observed cur = co_observed new)
          then cs
          else if unset \<or> co_observed new \<ge> co_observed cur then cs[i := new]
          else cs)"

lemma get_condition_Some:
  "get_condition cs ty = Some (i, c) \<Longrightarrow> i < length cs \<and> cs ! i = c \<and> co_type c = ty"
  by (induction cs arbitrary: i) (auto split: if_splits)

lemma get_condition_None: "get_condition cs ty = None \<longleftrightarrow> ty \<notin> co_type ` set cs"
  by (induction cs) auto

lemma set_condition_types:
  assumes "distinct (map co_type cs)"
  shows "distinct (map co_type (set_condition cs new))"
proof (cases "get_condition cs (co_type new)")
  case None
  then have "co_type new \<notin> co_type ` set cs" by (simp add: get_condition_None)
  then show ?thesis using assms None by (simp add: set_condition_def)
next
  case (Some p)
  obtain i c where p: "p = (i, c)" by (cases p)
  have "map co_type (cs[i := new]) = map co_type cs"
    using get_condition_Some [of cs "co_type new" i c] Some p by (metis list_update_id map_update)
  then show ?thesis using Some p assms by (simp add: set_condition_def Let_def)
qed

lemma get_condition_update:
  "get_condition cs (co_type new) = Some (i, c) \<Longrightarrow>
   get_condition (cs[i := new]) (co_type new) = Some (i, new)"
  by (induction cs arbitrary: i) (auto split: if_splits)

lemma get_condition_append:
  "get_condition cs (co_type new) = None \<Longrightarrow>
   get_condition (cs @ [new]) (co_type new) = Some (length cs, new)"
  by (induction cs) auto

lemma set_condition_current:
  assumes "co_observed new \<le> 0"
  shows "\<exists>i c. get_condition (set_condition cs new) (co_type new) = Some (i, c) \<and>
     co_status c = co_status new \<and> co_reason c = co_reason new \<and> co_message c = co_message new"
  using assms get_condition_update [of cs new] get_condition_append [of cs new]
  by (cases "get_condition cs (co_type new)") (auto simp: set_condition_def Let_def)

subsection \<open>The kind of cluster\<close>

definition is_rancher_managed :: "('s, bool) M" where
  "is_rancher_managed = bnd (send (RestMapping ''management.cattle.io'' ''Cluster'')) (\<lambda>a.
     ret (\<not> failed a))"

definition is_openshift_managed :: "('s, bool) M" where
  "is_openshift_managed = bnd (send (RestMapping ''project.openshift.io'' ''Project'')) (\<lambda>a.
     ret (\<not> failed a))"

definition rancher_ns :: string where "rancher_ns = ''cattle-monitoring-system''"
definition field_project_id :: string where "field_project_id = ''field.cattle.io/projectId''"
definition helm_project_id :: string where "helm_project_id = ''helm.cattle.io/projectId''"

definition get_project_id :: "string \<Rightarrow> ('s, string option) M" where
  \<comment> \<open>\<open>GetProjectId\<close>: None is \<open>found = false\<close>\<close>
  "get_project_id ns =
     bnd (kget v_ns ('''', ns)) (\<lambda>n.
     ret (map_of (om_labels (ns_meta n)) field_project_id))"

lemma never_cluster_tests [trace_intros]:
  "(\<And>g k a. \<not> q (RestMapping g k, a)) \<Longrightarrow> never q is_rancher_managed"
  "(\<And>g k a. \<not> q (RestMapping g k, a)) \<Longrightarrow> never q is_openshift_managed"
  "(\<And>a. \<not> q (Get (vkind v_ns) ('''', ns), a)) \<Longrightarrow> never q (get_project_id ns)"
  unfolding is_rancher_managed_def is_openshift_managed_def get_project_id_def
  by (intro trace_intros; simp)+

lemma no_panic_cluster_tests [trace_intros]:
  "no_panic is_rancher_managed" "no_panic is_openshift_managed" "no_panic (get_project_id ns)"
  unfolding is_rancher_managed_def is_openshift_managed_def get_project_id_def
  by (intro trace_intros)+

end
