(* ===== verification/Hub_Client.thy ===== *)
theory Hub_Client imports Meta_Util begin

section \<open>The hub's registration API (pkg/controllers/prometheus/client.go)\<close>

text \<open>
  A Prometheus is announced to the hub and withdrawn from it with four POST requests.  The HTTP
  exchange itself is a request of the environment; the construction of the request, the reading
  of the status code and of the body are the code's.
\<close>

record hub_client =
  hc_base :: string
  hc_token :: string
  hc_ca :: string
  hc_insecure :: bool   \<comment> \<open>the transport skips certificate verification\<close>

definition new_hub_client :: "codec \<Rightarrow> string \<Rightarrow> string \<Rightarrow> string \<Rightarrow> gerr + hub_client" where
  "new_hub_client C base tok ca =
     (if ca = '''' then
        (case url_parse C base of
           Inl m \<Rightarrow> Inl (Plain m)
         | Inr u \<Rightarrow> Inr \<lparr>hc_base = base, hc_token = tok, hc_ca = ca,
             hc_insecure = (host_is_ip C (u_host u) \<and> u_scheme u = ''https'')\<rparr>)
      else Inr \<lparr>hc_base = base, hc_token = tok, hc_ca = ca, hc_insecure = False\<rparr>)"

definition register_path :: string where "register_path = ''api/v1/trickster/register''"
definition unregister_path :: string where "unregister_path = ''api/v1/trickster/unregister''"
definition perses_register_path :: string where
  "perses_register_path = ''api/v1/trickster/perses/register''"
definition perses_unregister_path :: string where
  "perses_unregister_path = ''api/v1/trickster/perses/unregister''"

definition api_endpoint :: "codec \<Rightarrow> hub_client \<Rightarrow> string \<Rightarrow> gerr + string" where
  "api_endpoint C hc path = (case api_server_address C (hc_base hc) of
     Inl m \<Rightarrow> Inl (Plain m)
   | Inr u \<Rightarrow> Inr (url_string C (u\<lparr>u_path := path_join C (u_path u) path\<rparr>)))"

definition server_reason :: "int \<Rightarrow> bool \<Rightarrow> ereason" where
  \<comment> \<open>\<open>apierrors.NewGenericServerResponse\<close>: the reason for a status code and whether the verb is POST\<close>
  "server_reason code post =
     (if code = 409 then (if post then AlreadyExists else Conflict)
      else if code = 404 then NotFound
      else if code = 400 then BadRequest
      else if code = 401 then Unauthorized
      else if code = 403 then Forbidden
      else if code = 503 then Unavailable
      else if code \<ge> 500 \<and> code \<noteq> 504 then Internal
      else UnknownReason)"

definition auth_headers :: "string \<Rightarrow> smap" where
  "auth_headers tok = (''Content-Type'', ''application/json'') #
     (if tok \<noteq> '''' then [(''Authorization'', ''Bearer '' @ tok)] else [])"

definition hub_request :: "hub_client \<Rightarrow> string \<Rightarrow> string \<Rightarrow> http_req" where
  "hub_request hc u body = \<lparr>hq_method = ''POST'', hq_url = u, hq_headers = auth_headers (hc_token hc),
     hq_body = body, hq_ca = hc_ca hc, hq_insecure = hc_insecure hc\<rparr>"

definition the_http :: "response \<Rightarrow> (int \<times> string) option" where
  "the_http a = (case a of RHttp st body \<Rightarrow> Some (st, body) | _ \<Rightarrow> None)"

definition hub_post :: "hub_client \<Rightarrow> string \<Rightarrow> string \<Rightarrow> ('s, int \<times> string) M" where
  "hub_post hc path body =
     bnd pures (\<lambda>C.
     bnd (lift_sum (api_endpoint C hc path)) (\<lambda>u.
     answer (HttpQ (hub_request hc u body)) the_http))"

definition hub_register :: "hub_client \<Rightarrow> prom_context \<Rightarrow> prom_config \<Rightarrow> ('s, grafana_resp) M" where
  "hub_register hc ctx cfg =
     bnd pures (\<lambda>C.
     bnd (hub_post hc register_path (enc_register C ctx cfg)) (\<lambda>(st, body).
     if st \<noteq> 200 then fail (ApiErr (server_reason st True) body)
     else (case dec_grafana_resp C body of Inl m \<Rightarrow> fail (Plain m) | Inr ds \<Rightarrow> ret ds)))"

definition hub_register_perses ::
    "hub_client \<Rightarrow> prom_context \<Rightarrow> prom_config \<Rightarrow> ('s, perses_resp) M" where
  "hub_register_perses hc ctx cfg =
     bnd pures (\<lambda>C.
     bnd (hub_post hc perses_register_path (enc_register C ctx cfg)) (\<lambda>(st, body).
     if st \<noteq> 200 then fail (ApiErr (server_reason st True) body)
     else (case dec_perses_resp C body of Inl m \<Rightarrow> fail (Plain m) | Inr ds \<Rightarrow> ret ds)))"

definition hub_unregister :: "hub_client \<Rightarrow> prom_context \<Rightarrow> ('s, unit) M" where
  \<comment> \<open>the error is built with the verb DELETE although the request is a POST\<close>
  "hub_unregister hc ctx =
     bnd pures (\<lambda>C.
     bnd (hub_post hc unregister_path (enc_context C ctx)) (\<lambda>(st, body).
     if st \<noteq> 200 then fail (ApiErr (server_reason st False) body) else ret ()))"

definition hub_unregister_perses :: "hub_client \<Rightarrow> prom_context \<Rightarrow> ('s, unit) M" where
  "hub_unregister_perses hc ctx =
     bnd pures (\<lambda>C.
     bnd (hub_post hc perses_unregister_path (enc_context C ctx)) (\<lambda>(st, body).
     if st \<noteq> 200 then fail (ApiErr (server_reason st False) body) else ret ()))"

subsection \<open>What the calls send and when they succeed\<close>

definition hub_ok :: "hub_client \<Rightarrow> string \<Rightarrow> event \<Rightarrow> bool" where
  \<comment> \<open>the hub accepted a POST to a path, with the client's credentials\<close>
  "hub_ok hc path e = (\<exists>u body st reply. e = (HttpQ (hub_request hc u body), RHttp st reply) \<and> st = 200 \<and>
     (\<exists>C. api_endpoint C hc path = Inr u))"

lemma never_hub_post:
  assumes "\<And>u a. \<not> q (HttpQ (hub_request hc u body), a)"
  shows "never q (hub_post hc path body)"
  unfolding hub_post_def by (intro trace_intros assms)

lemma never_hub [trace_intros]:
  assumes "\<And>u b a. \<not> q (HttpQ (hub_request hc u b), a)"
  shows "never q (hub_register hc ctx cfg)" "never q (hub_register_perses hc ctx cfg)"
    "never q (hub_unregister hc ctx)" "never q (hub_unregister_perses hc ctx)"
  unfolding hub_register_def hub_register_perses_def hub_unregister_def hub_unregister_perses_def
  by (intro trace_intros never_hub_post assms; auto split: sum.split intro!: trace_intros)+

lemma holds_hub_post:
  "holds (hub_post hc path body) (\<lambda>r es. \<forall>st b. r = Ok (st, b) \<longrightarrow>
     (\<exists>u C. api_endpoint C hc path = Inr u \<and> (HttpQ (hub_request hc u body), RHttp st b) \<in> set es))"
  unfolding hub_post_def
proof (rule holds_bnd_any)
  fix C :: codec and es
  show "holds (bnd (lift_sum (api_endpoint C hc path)) (\<lambda>u. answer (HttpQ (hub_request hc u body)) the_http))
    (\<lambda>r es'. \<forall>st b. r = Ok (st, b) \<longrightarrow>
     (\<exists>u C. api_endpoint C hc path = Inr u \<and> (HttpQ (hub_request hc u body), RHttp st b) \<in> set (es @ es')))"
  proof (cases "api_endpoint C hc path")
    case (Inr u)
    show ?thesis
      unfolding Inr lift_sum_def sum.case bnd_simps
      by (rule holds_answer) (use Inr in \<open>auto simp: the_http_def split: response.splits\<close>)
  qed (simp add: lift_sum_def bnd_simps)
qed auto

lemma emits_after_post:
  assumes "\<And>st b. st = 200 \<or> emits p (f (st, b))"
    and "\<And>u C b. api_endpoint C hc path = Inr u \<Longrightarrow> p (HttpQ (hub_request hc u body), RHttp 200 b)"
  shows "emits p (bnd (hub_post hc path body) f)"
  unfolding emits_def
proof (rule holds_bnd [OF holds_hub_post])
  fix x es
  assume I: "\<forall>st b. Ok x = Ok (st, b) \<longrightarrow>
     (\<exists>u C. api_endpoint C hc path = Inr u \<and> (HttpQ (hub_request hc u body), RHttp st b) \<in> set es)"
  obtain st b where x: "x = (st, b)" by (cases x)
  show "holds (f x) (\<lambda>r es'. (\<exists>x. r = Ok x) \<longrightarrow> (\<exists>e \<in> set (es @ es'). p e))"
  proof (cases "st = 200")
    case True
    then obtain u C where "api_endpoint C hc path = Inr u" "(HttpQ (hub_request hc u body), RHttp 200 b) \<in> set es"
      using I x by blast
    then have "\<exists>e \<in> set es. p e" using assms(2) by blast
    then show ?thesis by (auto simp: holds_def)
  next
    case False
    then have "emits p (f x)" using assms(1) x by metis
    then show ?thesis unfolding emits_def by (rule holds_mono) auto
  qed
qed auto

lemma hub_okI:
  "api_endpoint C hc path = Inr u \<Longrightarrow> hub_ok hc path (HttpQ (hub_request hc u body), RHttp 200 b)"
  unfolding hub_ok_def by blast

text \<open>
  The contract of the hub calls: success means that the hub answered 200 to a POST to the
  operation's own endpoint.
\<close>

lemma emits_hub:
  "emits (hub_ok hc register_path) (hub_register hc ctx cfg)"
  "emits (hub_ok hc perses_register_path) (hub_register_perses hc ctx cfg)"
  "emits (hub_ok hc unregister_path) (hub_unregister hc ctx)"
  "emits (hub_ok hc perses_unregister_path) (hub_unregister_perses hc ctx)"
  unfolding hub_register_def hub_register_perses_def hub_unregister_def hub_unregister_perses_def
  by (intro emits_bnd_right emits_after_post; (erule hub_okI | auto))+

text \<open>
  C35: a registration call succeeds only after the hub answered 200 to a POST to the right
  endpoint, and everything the four calls send is a POST with the client's token, or without an
  Authorization header when the client has no token.
\<close>

definition authorised :: "hub_client \<Rightarrow> request \<Rightarrow> bool" where
  "authorised hc q = (case q of
     HttpQ r \<Rightarrow> hq_method r = ''POST'' \<and> hq_ca r = hc_ca hc \<and>
       map_of (hq_headers r) ''Authorization'' =
         (if hc_token hc = '''' then None else Some (''Bearer '' @ hc_token hc))
   | _ \<Rightarrow> False)"


end
