(* ===== verification/Grafana_Client.thy ===== *)
theory Grafana_Client imports Hub_Client "HOL-Library.Word" begin

section \<open>Reaching Grafana and Perses (pkg/grafana, pkg/perses)\<close>

text \<open>
  An AppBinding says where a Grafana or Perses instance is and which secret opens it.  This theory
  models how it is found (by reference or as the one marked default), how address and credentials
  are read from it, the two calls of the Perses client, and the cached client of
  \<open>ClientBuilder\<close> as a state machine.  The calls of the Grafana library are requests of the
  environment.
\<close>

subsection \<open>Finding the AppBinding\<close>

definition default_grafana_key :: string where
  "default_grafana_key = ''monitoring.appscode.com/is-default-grafana''"
definition default_perses_key :: string where
  "default_perses_key = ''monitoring.appscode.com/is-default-perses''"

definition with_namespace :: "string \<Rightarrow> key option \<Rightarrow> key option" where
  \<comment> \<open>\<open>ref.WithNamespace(ns)\<close>, also on the nil reference\<close>
  "with_namespace ns r = map_option (\<lambda>k. if fst k \<noteq> '''' then k else (ns, snd k)) r"

definition find_binding :: "string \<Rightarrow> string \<Rightarrow> key option \<Rightarrow> ('s, app_binding) M" where
  \<comment> \<open>the common body of \<open>GetGrafana\<close> and \<open>GetPerses\<close>: the index and the name in the messages\<close>
  "find_binding field what r = (case r of
     Some k \<Rightarrow> bnd (attempt (kget v_ab k)) (\<lambda>x. case x of
         Inl e \<Rightarrow> fail (Wrap (''failed to fetch AppBinding '' @ key_string k) e)
       | Inr ab \<Rightarrow> ret ab)
   | None \<Rightarrow> bnd (klist v_ab (all_opts\<lparr>lo_fields := [(field, ''true'')]\<rparr>)) (\<lambda>bs. case bs of
         [] \<Rightarrow> fail (ApiErr NotFound (''AppBinding.appcatalog.appscode.com \"no default '' @ what @
           '' appbinding found.\" not found''))
       | [ab] \<Rightarrow> ret ab
       | _ \<Rightarrow> fail (ApiErr BadRequest (''multiple '' @ what @ '' appbindings '' @
           join '','' (map (key_string \<circ> meta_key \<circ> ab_meta) bs) @ '' are marked default''))))"

definition get_grafana :: "key option \<Rightarrow> ('s, app_binding) M" where
  "get_grafana r = find_binding default_grafana_key ''Grafana'' r"

definition get_perses :: "key option \<Rightarrow> ('s, app_binding) M" where
  "get_perses r = find_binding default_perses_key ''Perses'' r"

definition app_url :: "codec \<Rightarrow> app_binding \<Rightarrow> gerr + string" where
  \<comment> \<open>\<open>AppBinding.URL\<close>\<close>
  "app_url C ab = (case cc_url (ab_client ab) of
     Some u \<Rightarrow> Inr u
   | None \<Rightarrow> (case cc_service (ab_client ab) of
       Some s \<Rightarrow>
         let ns = (if sr_namespace s \<noteq> '''' then sr_namespace s else om_namespace (ab_meta ab)) in
         Inr (url_string C \<lparr>u_scheme = sr_scheme s,
           u_host = sr_name s @ ''.'' @ ns @ ''.svc:'' @ itoa (sr_port s), u_path = sr_path s, u_query = sr_query s\<rparr>)
     | None \<Rightarrow> Inl (Plain ''connection url is missing'')))"

subsection \<open>Address and credentials\<close>

record app_config =
  \<comment> \<open>\<open>Config\<close> of both packages\<close>
  gf_addr :: string
  gf_auth :: auth_config
  gf_ca :: string

definition secret_auth :: "secret option \<Rightarrow> auth_config" where
  "secret_auth s = (case s of
     None \<Rightarrow> NoAuth
   | Some s \<Rightarrow>
       if shas (sc_data s) ''token'' then Bearer (sget (sc_data s) ''token'')
       else Basic (sget (sc_data s) ''username'') (sget (sc_data s) ''password''))"

definition app_config_of :: "codec \<Rightarrow> app_binding \<Rightarrow> secret option \<Rightarrow> gerr + app_config" where
  "app_config_of C ab s = (case app_url C ab of
     Inl e \<Rightarrow> Inl e
   | Inr addr \<Rightarrow> Inr \<lparr>gf_addr = addr, gf_auth = secret_auth s, gf_ca = cc_ca (ab_client ab)\<rparr>)"

definition binding_secret :: "app_binding \<Rightarrow> ('s, secret option) M" where
  "binding_secret ab = (case ab_secret ab of
     Some n \<Rightarrow> if n \<noteq> '''' then bnd (kget v_secret (om_namespace (ab_meta ab), n)) (\<lambda>s. ret (Some s)) else ret None
   | None \<Rightarrow> ret None)"

definition skips_verification :: "codec \<Rightarrow> url \<Rightarrow> bool" where
  \<comment> \<open>certificates are not verified when the host is an IP address\<close>
  "skips_verification C u = (host_is_ip C (u_host u) \<and> u_scheme u = ''https'')"

definition connect_grafana :: "codec \<Rightarrow> app_config \<Rightarrow> gerr + gconn" where
  "connect_grafana C cfg = (case url_parse C (gf_addr cfg) of
     Inl m \<Rightarrow> Inl (Plain m)
   | Inr u \<Rightarrow> Inr \<lparr>gn_addr = url_string C u, gn_auth = gf_auth cfg, gn_ca = gf_ca cfg,
       gn_insecure = skips_verification C u\<rparr>)"

definition grafana_client_for :: "app_binding \<Rightarrow> ('s, gconn) M" where
  \<comment> \<open>\<open>newGrafanaClient\<close>\<close>
  "grafana_client_for ab =
     bnd (binding_secret ab) (\<lambda>s.
     bnd pures (\<lambda>C.
     bnd (lift_sum (app_config_of C ab s)) (\<lambda>cfg.
     lift_sum (connect_grafana C cfg))))"

definition new_grafana_client :: "key option \<Rightarrow> ('s, gconn) M" where
  "new_grafana_client r = bnd (get_grafana r) grafana_client_for"

definition grafana_call :: "gconn \<Rightarrow> gcall \<Rightarrow> ('s, gresp option \<times> gerr option) M" where
  \<comment> \<open>a call of the Grafana library: both of its results\<close>
  "grafana_call gc c = bnd (send (GrafanaQ gc c)) (\<lambda>a. ret (case a of
     RGrafana r e \<Rightarrow> (r, e)
   | RErr e \<Rightarrow> (None, Some e)
   | _ \<Rightarrow> (None, Some (Plain ''unexpected response''))))"

subsection \<open>The Perses client\<close>

record perses_client =
  pe_base :: string
  pe_token :: string
  pe_ca :: string
  pe_insecure :: bool

definition connect_perses :: "codec \<Rightarrow> app_config \<Rightarrow> gerr + perses_client" where
  "connect_perses C cfg =
     (let tok = (case gf_auth cfg of Bearer t \<Rightarrow> t | _ \<Rightarrow> '''') in
      if gf_ca cfg = '''' then
        (case url_parse C (gf_addr cfg) of
           Inl m \<Rightarrow> Inl (Plain m)
         | Inr u \<Rightarrow> Inr \<lparr>pe_base = gf_addr cfg, pe_token = tok, pe_ca = '''', pe_insecure = skips_verification C u\<rparr>)
      else Inr \<lparr>pe_base = gf_addr cfg, pe_token = tok, pe_ca = gf_ca cfg, pe_insecure = False\<rparr>)"

definition perses_app_config :: "codec \<Rightarrow> app_binding \<Rightarrow> secret option \<Rightarrow> gerr + app_config" where
  \<comment> \<open>the Perses package has its own \<open>GetGrafanaConfig\<close>\<close>
  "perses_app_config C ab s = (case app_url C ab of
     Inl e \<Rightarrow> Inl e
   | Inr addr \<Rightarrow>
       (let auth = (case s of
              None \<Rightarrow> NoAuth
            | Some sec \<Rightarrow>
                if shas (sc_data sec) ''token'' then Bearer (sget (sc_data sec) ''token'')
                else Basic (sget (sc_data sec) ''username'') (sget (sc_data sec) ''password''));
            ca = (if cc_ca (ab_client ab) \<noteq> '''' then cc_ca (ab_client ab) else '''')
        in Inr \<lparr>gf_addr = addr, gf_auth = auth, gf_ca = ca\<rparr>))"

lemma perses_app_config [simp]: "perses_app_config C ab s = app_config_of C ab s"
  \<comment> \<open>both packages read one binding the same way\<close>
  by (auto simp: perses_app_config_def app_config_of_def secret_auth_def Let_def split: sum.split option.split)

definition perses_client_for :: "app_binding \<Rightarrow> ('s, perses_client) M" where
  "perses_client_for ab =
     bnd (binding_secret ab) (\<lambda>s.
     bnd pures (\<lambda>C.
     bnd (lift_sum (perses_app_config C ab s)) (\<lambda>cfg.
     lift_sum (connect_perses C cfg))))"

definition new_perses_client :: "key option \<Rightarrow> ('s, perses_client) M" where
  "new_perses_client r = bnd (get_perses r) perses_client_for"

definition perses_endpoint :: "codec \<Rightarrow> perses_client \<Rightarrow> string \<Rightarrow> gerr + string" where
  "perses_endpoint C pc p = (case api_server_address C (pe_base pc) of
     Inl m \<Rightarrow> Inl (Plain m)
   | Inr u \<Rightarrow> Inr (url_string C (u\<lparr>u_path := path_join C (u_path u) p\<rparr>)))"

definition dashboards_path :: "string \<Rightarrow> string \<Rightarrow> string" where
  "dashboards_path prj folder = ''api/v1/projects/'' @ prj @ ''/folders/'' @ folder @ ''/dashboards''"

definition perses_request :: "perses_client \<Rightarrow> string \<Rightarrow> string \<Rightarrow> string \<Rightarrow> http_req" where
  "perses_request pc meth u body = \<lparr>hq_method = meth, hq_url = u, hq_headers = auth_headers (pe_token pc),
     hq_body = body, hq_ca = pe_ca pc, hq_insecure = pe_insecure pc\<rparr>"

definition response_text :: "string \<Rightarrow> string" where
  \<comment> \<open>\<open>readResponseBody\<close>\<close>
  "response_text body = (let m = trim_space (take 65536 body) in
     if m = '''' then ''<empty response body>'' else m)"

definition perses_call :: "perses_client \<Rightarrow> string \<Rightarrow> string \<Rightarrow> string \<Rightarrow> ('s, int \<times> string) M" where
  "perses_call pc meth p body =
     bnd pures (\<lambda>C.
     bnd (lift_sum (perses_endpoint C pc p)) (\<lambda>u.
     answer (HttpQ (perses_request pc meth u body)) the_http))"

definition perses_set :: "perses_client \<Rightarrow> perses_board \<Rightarrow> string \<Rightarrow> string \<Rightarrow> ('s, unit) M" where
  \<comment> \<open>\<open>SetDashboard\<close>: 409 counts as success; the message leaves out the text of the status code\<close>
  "perses_set pc b prj folder =
     bnd pures (\<lambda>C.
     bnd (perses_call pc ''POST'' (dashboards_path prj folder) (enc_perses C b)) (\<lambda>(st, body).
     if st div 100 \<noteq> 2 \<and> st \<noteq> 409 then
       fail (Plain (''failed to create perses dashboard '' @ pb_name b @ '': perses server returned '' @
         itoa st @ '': '' @ response_text body))
     else ret ()))"

definition perses_delete :: "perses_client \<Rightarrow> pdash_ref \<Rightarrow> ('s, unit) M" where
  \<comment> \<open>\<open>DeleteDashboardByName\<close>: 404 counts as success\<close>
  "perses_delete pc d =
     bnd (perses_call pc ''DELETE'' (dashboards_path (pr_project d) (pr_folder d) @ ''/'' @ pr_name d) '''')
       (\<lambda>(st, body).
     if st div 100 \<noteq> 2 \<and> st \<noteq> 404 then
       fail (Plain (''failed to delete perses dashboard '' @ pr_name d @ '': perses server returned '' @
         itoa st @ '': '' @ response_text body))
     else ret ())"

subsection \<open>The client builder\<close>

text \<open>
  \<open>ClientBuilder\<close> caches the client for the configuration of the default AppBinding, or else for
  the one given by flags.  Configurations are compared as pointers, so each one read from an
  AppBinding gets a number.
\<close>

datatype cfg_ptr = FlagsPtr | AppPtr nat

record builder =
  bu_flags :: "app_config option"
  bu_existing :: "64 word"
  bu_app :: "(nat \<times> app_config) option"
  bu_last :: "(cfg_ptr \<times> app_config) option"
  bu_client :: "gconn option"
  bu_allocated :: nat

definition new_builder :: "app_config option \<Rightarrow> builder" where
  "new_builder flags = \<lparr>bu_flags = flags, bu_existing = 0, bu_app = None, bu_last = None, bu_client = None,
     bu_allocated = 0\<rparr>"

definition builder_unset :: "builder \<Rightarrow> builder" where
  "builder_unset B = B\<lparr>bu_app := None, bu_existing := 0\<rparr>"

definition builder_build :: "app_binding \<Rightarrow> ('s, app_config) M" where
  \<comment> \<open>\<open>build\<close>: the name of the secret is read before the nil check\<close>
  "builder_build ab = (case ab_secret ab of
     None \<Rightarrow> panic ''invalid memory address or nil pointer dereference''
   | Some n \<Rightarrow> bnd (binding_secret ab) (\<lambda>s.
       bnd pures (\<lambda>C.
       lift_sum (app_config_of C ab s))))"

definition builder_accept :: "(app_config \<Rightarrow> 64 word) \<Rightarrow> builder \<Rightarrow> app_config \<Rightarrow> builder" where
  \<comment> \<open>the end of \<open>Reconcile\<close>, with the digest of a configuration as parameter\<close>
  "builder_accept h B cfg =
     (let B1 = B\<lparr>bu_allocated := Suc (bu_allocated B)\<rparr> in
      if bu_existing B \<noteq> h cfg then B1\<lparr>bu_app := Some (bu_allocated B, cfg), bu_existing := h cfg\<rparr> else B1)"

definition builder_reconcile ::
    "(app_config \<Rightarrow> 64 word) \<Rightarrow> builder \<Rightarrow> key \<Rightarrow> ('s, builder \<times> gerr option) M" where
  "builder_reconcile h B k =
     bnd (attempt (kget v_ab k)) (\<lambda>r. case r of
       Inl e \<Rightarrow> ret (builder_unset B, if is_not_found e then None else Some e)
     | Inr ab \<Rightarrow>
         if om_deleting (ab_meta ab) then ret (builder_unset B, None)
         else bnd (attempt (builder_build ab)) (\<lambda>c. case c of
           Inl e \<Rightarrow> ret (builder_unset B, Some e)
         | Inr cfg \<Rightarrow> ret (builder_accept h B cfg, None)))"

definition builder_current :: "builder \<Rightarrow> (cfg_ptr \<times> app_config) option" where
  "builder_current B = (case bu_app B of
     Some (n, cfg) \<Rightarrow> Some (AppPtr n, cfg)
   | None \<Rightarrow> (case bu_flags B of
       Some cfg \<Rightarrow> if gf_addr cfg \<noteq> '''' then Some (FlagsPtr, cfg) else None
     | None \<Rightarrow> None))"

definition get_grafana_client :: "builder \<Rightarrow> ('s, builder \<times> gconn option) M" where
  \<comment> \<open>\<open>GetGrafanaClient\<close>: address and credentials are those of the last configuration \<open>r.cfg\<close>\<close>
  "get_grafana_client B = (case builder_current B of
     None \<Rightarrow> ret (B, None)
   | Some (p, cfg) \<Rightarrow>
       if map_option fst (bu_last B) = Some p then ret (B, bu_client B)
       else (case bu_last B of
         None \<Rightarrow> panic ''invalid memory address or nil pointer dereference''
       | Some (_, old) \<Rightarrow>
           bnd pures (\<lambda>C.
           bnd (lift_sum (connect_grafana C (old\<lparr>gf_ca := gf_ca cfg\<rparr>))) (\<lambda>gc.
           ret (B\<lparr>bu_last := Some (p, cfg), bu_client := Some gc\<rparr>, Some gc)))))"

definition secret_bindings :: "objmeta \<Rightarrow> ('s, key list) M" where
  \<comment> \<open>\<open>authHandler\<close>: the default AppBindings that use a secret\<close>
  "secret_bindings m =
     bnd (attempt (klist v_ab (all_opts\<lparr>lo_fields := [(default_grafana_key, ''true'')]\<rparr>))) (\<lambda>r. ret (case r of
       Inl _ \<Rightarrow> []
     | Inr bs \<Rightarrow> map (meta_key \<circ> ab_meta) (filter (\<lambda>ab. om_namespace (ab_meta ab) = om_namespace m
         \<and> (ab_secret ab = Some (om_name m) \<or> ab_tls_secret ab = Some (om_name m))) bs)))"

definition builder_predicate :: "objmeta \<Rightarrow> bool" where
  "builder_predicate m = (sget (om_annotations m) default_grafana_key = ''true'')"

subsection \<open>Lemmas\<close>

lemma never_find_binding [trace_intros]:
  assumes "\<And>k a. \<not> q (Get KAppBinding k, a)" "\<And>opts a. \<not> q (ListQ KAppBinding opts, a)"
  shows "never q (find_binding field what r)"
  unfolding find_binding_def
  by (auto split: option.split sum.split list.split intro!: trace_intros simp: assms)

lemma never_get_bindings [trace_intros]:
  assumes "\<And>k a. \<not> q (Get KAppBinding k, a)" "\<And>opts a. \<not> q (ListQ KAppBinding opts, a)"
  shows "never q (get_grafana r)" "never q (get_perses r)"
  unfolding get_grafana_def get_perses_def by (intro trace_intros assms)+

lemma never_clients [trace_intros]:
  assumes "\<And>k a. \<not> q (Get KAppBinding k, a)" "\<And>opts a. \<not> q (ListQ KAppBinding opts, a)"
    "\<And>k a. \<not> q (Get KSecret k, a)"
  shows "never q (new_grafana_client r)" "never q (new_perses_client r)"
  unfolding new_grafana_client_def new_perses_client_def grafana_client_for_def perses_client_for_def
    binding_secret_def
  by (auto split: option.split intro!: trace_intros simp: assms)

lemma never_grafana_call [trace_intros]:
  "(\<And>a. \<not> q (GrafanaQ gc c, a)) \<Longrightarrow> never q (grafana_call gc c)"
  unfolding grafana_call_def by (intro trace_intros)

lemma never_perses [trace_intros]:
  assumes "\<And>r a. \<not> q (HttpQ r, a)"
  shows "never q (perses_set pc b prj folder)" "never q (perses_delete pc d)"
  unfolding perses_set_def perses_delete_def perses_call_def
  by (auto intro!: trace_intros simp: assms)

subsection \<open>Properties\<close>

inductive builder_steps :: "'s env \<Rightarrow> builder \<Rightarrow> builder \<Rightarrow> bool" for E where
  refl: "builder_steps E B B"
| reconcile: "builder_steps E B B1 \<Longrightarrow> builder_reconcile h B1 k E w = (Ok (B2, e), es, w') \<Longrightarrow> builder_steps E B B2"
| client: "builder_steps E B B1 \<Longrightarrow> get_grafana_client B1 E w = (Ok (B2, gc), es, w') \<Longrightarrow> builder_steps E B B2"

lemma builder_reconcile_last: "returns (\<lambda>(B2, _). bu_last B2 = bu_last B) (builder_reconcile h B k)"
  unfolding builder_reconcile_def
  by (auto simp: builder_unset_def builder_accept_def Let_def split: sum.split
      intro!: returns_bnd returns_ret)

lemma builder_steps_last: "builder_steps E B B' \<Longrightarrow> bu_last B = None \<Longrightarrow> bu_last B' = None"
proof (induction rule: builder_steps.induct)
  case (reconcile B B1 h k w B2 e es w')
  then show ?case
    using holdsD [OF builder_reconcile_last [unfolded returns_def], of h B1 k E w] by auto
next
  case (client B B1 w B2 gc es w')
  then show ?case
    by (auto simp: get_grafana_client_def ret_def panic_def split: option.splits if_splits prod.splits)
qed

text \<open>
  C37: \<open>ClientBuilder\<close> never hands out a client.  Whatever AppBindings it has seen and however often
  it was asked before, a builder with a configuration panics when asked for a client, because it
  reads the address from the configuration of the previous client, which does not exist; a builder
  without a configuration returns nil.
\<close>

theorem builder_never_connects:
  assumes "builder_steps E (new_builder flags) B"
  shows "(case builder_current B of
      None \<Rightarrow> get_grafana_client B E w = (Ok (B, None), [], w)
    | Some c \<Rightarrow> \<exists>p. get_grafana_client B E w = (Panic p, [], w))"
  using builder_steps_last [OF assms]
  by (auto simp: new_builder_def get_grafana_client_def ret_def panic_def split: option.split)

definition local_flags :: app_config where
  "local_flags = \<lparr>gf_addr = ''http://localhost:3000'', gf_auth = NoAuth, gf_ca = ''''\<rparr>"

lemma builder_never_connects_witness:
  "\<exists>p. get_grafana_client (new_builder (Some local_flags)) script_env (start []) = (Panic p, [], start [])"
  using builder_never_connects [OF builder_steps.refl, of "Some local_flags" script_env "start []"]
  by (simp add: builder_current_def new_builder_def local_flags_def)

definition perses_answered :: "perses_client \<Rightarrow> string \<Rightarrow> (int \<Rightarrow> bool) \<Rightarrow> event \<Rightarrow> bool" where
  \<comment> \<open>Perses answered a request of a method with a status code in a set\<close>
  "perses_answered pc meth S e = (\<exists>u body st b. e = (HttpQ (perses_request pc meth u body), RHttp st b) \<and> S st)"

lemma holds_perses_call:
  "holds (perses_call pc meth p body) (\<lambda>r es. \<forall>st b. r = Ok (st, b) \<longrightarrow>
     (\<exists>u. (HttpQ (perses_request pc meth u body), RHttp st b) \<in> set es))"
  unfolding perses_call_def
proof (rule holds_bnd_any)
  fix C :: codec and es
  show "holds (bnd (lift_sum (perses_endpoint C pc p)) (\<lambda>u. answer (HttpQ (perses_request pc meth u body)) the_http))
    (\<lambda>r es'. \<forall>st b. r = Ok (st, b) \<longrightarrow> (\<exists>u. (HttpQ (perses_request pc meth u body), RHttp st b) \<in> set (es @ es')))"
  proof (cases "perses_endpoint C pc p")
    case (Inr u)
    show ?thesis
      unfolding Inr lift_sum_def sum.case bnd_simps
      by (rule holds_answer) (auto simp: the_http_def split: response.splits)
  qed (simp add: lift_sum_def bnd_simps)
qed auto

lemma emits_perses_call:
  assumes "\<And>st b. \<not> S st \<Longrightarrow> f (st, b) = fail (e st b)"
  shows "emits (perses_answered pc meth S) (bnd (perses_call pc meth p body) f)"
  unfolding emits_def
proof (rule holds_bnd [OF holds_perses_call])
  fix x es
  assume I: "\<forall>st b. Ok x = Ok (st, b) \<longrightarrow> (\<exists>u. (HttpQ (perses_request pc meth u body), RHttp st b) \<in> set es)"
  obtain st b where x: "x = (st, b)" by (cases x)
  show "holds (f x) (\<lambda>r es'. (\<exists>x. r = Ok x) \<longrightarrow> (\<exists>e \<in> set (es @ es'). perses_answered pc meth S e))"
  proof (cases "S st")
    case True
    then have "\<exists>e \<in> set es. perses_answered pc meth S e"
      using I x unfolding perses_answered_def by blast
    then show ?thesis by (auto simp: holds_def)
  qed (use assms x in auto)
qed auto

lemma emits_perses_set:
  "emits (perses_answered pc ''POST'' (\<lambda>st. st div 100 = 2 \<or> st = 409)) (perses_set pc b prj folder)"
  unfolding perses_set_def
  by (intro emits_bnd_right emits_perses_call) auto

lemma emits_perses_delete:
  "emits (perses_answered pc ''DELETE'' (\<lambda>st. st div 100 = 2 \<or> st = 404)) (perses_delete pc d)"
  unfolding perses_delete_def
  by (intro emits_bnd_right emits_perses_call) auto

end
