(* ===== verification/Dashboard_Json.thy ===== *)
theory Dashboard_Json imports Effects begin

section \<open>Editing dashboard models (pkg/controllers/openviz)\<close>

text \<open>
  The functions that put identifiers and datasources into a dashboard's JSON before it is sent.
  Grafana models are edited as untyped JSON (\<open>map[string]any\<close>, here the \<open>AObj\<close> values of
  \<open>any\<close>), Perses models as typed values.  Go edits the maps in place; every function here returns the
  edited value.
\<close>

subsection \<open>Grafana models\<close>

definition jget :: "string \<Rightarrow> (string \<times> any) list \<Rightarrow> any option" where
  "jget k flds = map_of flds k"

definition jput :: "string \<Rightarrow> any \<Rightarrow> (string \<times> any) list \<Rightarrow> (string \<times> any) list" where
  "jput k v flds = AList.update k v flds"

lemma jget_jput [simp]: "jget k (jput k' v flds) = (if k = k' then Some v else jget k flds)"
  by (simp add: jget_def jput_def update_conv')

lemma jput_same: "jget k flds = Some v \<Longrightarrow> jput k v flds = flds"
  unfolding jget_def jput_def by (induction flds) auto

definition dashboard_fields :: "codec \<Rightarrow> string \<Rightarrow> gerr + (string \<times> any) list option" where
  \<comment> \<open>\<open>json.Unmarshal\<close> into a map: None is the nil map that a JSON null leaves behind\<close>
  "dashboard_fields C model = (case json_dec C model of
     Inl m \<Rightarrow> Inl (Plain m)
   | Inr (AObj flds) \<Rightarrow> Inr (Some flds)
   | Inr ANull \<Rightarrow> Inr None
   | Inr _ \<Rightarrow> Inl (Plain ''json: cannot unmarshal into Go value of type map[string]interface {}''))"

definition add_dashboard_id :: "string \<Rightarrow> int \<Rightarrow> string \<Rightarrow> ('s, string) M" where
  \<comment> \<open>assigning to an entry of the nil map panics\<close>
  "add_dashboard_id model i uid =
     bnd pures (\<lambda>C.
     bnd (lift_sum (dashboard_fields C model)) (\<lambda>f. case f of
       None \<Rightarrow> panic ''assignment to entry in nil map''
     | Some flds \<Rightarrow> ret (json_enc C (AObj (jput ''uid'' (AStr uid) (jput ''id'' (ANum (itoa i)) flds))))))"

lemma size_jget:
  "jget k flds = Some (AArr qs) \<Longrightarrow> size_list size qs < size_list size (AObj flds # ps)"
  unfolding jget_def
proof (induction flds)
  case (Cons kv flds)
  then show ?case by (cases kv) (auto split: if_splits)
qed simp

function (sequential) updated_panels :: "string \<Rightarrow> any list \<Rightarrow> any list" where
  \<comment> \<open>\<open>getUpdatedPanels\<close>: an element that is no object is dropped\<close>
  "updated_panels ds [] = []"
| "updated_panels ds (AObj flds # ps) =
     (let f1 = jput ''datasource'' (AStr ds) flds in
      AObj (case jget ''panels'' flds of
        Some (AArr qs) \<Rightarrow> if jget ''collapsed'' flds = Some (ABool True)
           then jput ''panels'' (AArr (updated_panels ds qs)) f1 else f1
      | _ \<Rightarrow> f1)) # updated_panels ds ps"
| "updated_panels ds (_ # ps) = updated_panels ds ps"
  by pat_completeness auto

termination
proof (relation "measure (\<lambda>(ds, ps). size_list size ps)")
  fix ds :: string and ps flds f1 x qs
  assume "jget ''panels'' flds = Some x" "x = AArr qs"
  then show "((ds, qs), ds, AObj flds # ps) \<in> measure (\<lambda>(ds, ps). size_list size ps)"
    using size_jget by simp
qed auto

definition updated_var :: "string \<Rightarrow> any \<Rightarrow> any option" where
  \<comment> \<open>one template variable: datasource variables and malformed entries go away\<close>
  "updated_var ds v = (case v of
     AObj flds \<Rightarrow> (case jget ''type'' flds of
       Some (AStr ty) \<Rightarrow>
         (if ty \<noteq> ''datasource'' then Some (AObj (jput ''datasource'' (AStr ds) flds)) else None)
     | _ \<Rightarrow> None)
   | _ \<Rightarrow> None)"

definition updated_vars :: "string \<Rightarrow> any list \<Rightarrow> any list" where
  "updated_vars ds vs = List.map_filter (updated_var ds) vs"

definition with_datasource :: "string \<Rightarrow> (string \<times> any) list \<Rightarrow> (string \<times> any) list option" where
  \<comment> \<open>the edit of \<open>replaceDatasource\<close>; None leaves the model as it is.  An empty list of variables
     is Go's nil slice and becomes a JSON null\<close>
  "with_datasource ds flds = (case jget ''panels'' flds of
     Some (AArr ps) \<Rightarrow>
       (let f1 = jput ''panels'' (AArr (updated_panels ds ps)) flds in
        Some (case jget ''templating'' flds of
          Some (AObj tpl) \<Rightarrow> (case jget ''list'' tpl of
            Some (AArr vs) \<Rightarrow>
              (let vs' = updated_vars ds vs in
               jput ''templating'' (AObj (jput ''list'' (if vs' = [] then ANull else AArr vs') tpl)) f1)
          | _ \<Rightarrow> f1)
        | _ \<Rightarrow> f1))
   | _ \<Rightarrow> None)"

definition replace_datasource :: "codec \<Rightarrow> string \<Rightarrow> string \<Rightarrow> gerr + string" where
  "replace_datasource C model ds = (case dashboard_fields C model of
     Inl e \<Rightarrow> Inl e
   | Inr None \<Rightarrow> Inr model
   | Inr (Some flds) \<Rightarrow> (case with_datasource ds flds of
       None \<Rightarrow> Inr model
     | Some flds' \<Rightarrow> Inr (json_enc C (AObj flds'))))"

subsection \<open>Perses models\<close>

definition prometheus_source :: "string \<Rightarrow> any" where
  "prometheus_source ds = AObj [(''kind'', AStr ''PrometheusDatasource''), (''name'', AStr ds)]"

definition plugin_default :: "any \<Rightarrow> perses_plugin \<Rightarrow> perses_plugin" where
  \<comment> \<open>give the plugin's specification a datasource unless it has one\<close>
  "plugin_default src p = (case pl_spec p of
     AObj flds \<Rightarrow> if jget ''datasource'' flds = None then p\<lparr>pl_spec := AObj (jput ''datasource'' src flds)\<rparr> else p
   | _ \<Rightarrow> p)"

definition updated_list_spec :: "string \<Rightarrow> list_spec \<Rightarrow> list_spec" where
  "updated_list_spec ds s =
     (if ls_name s = ''datasource'' then s\<lparr>ls_default := Some (SingleValue ds)\<rparr>
      else if pl_kind (ls_plugin s) \<noteq> ''PrometheusLabelValuesVariable''
         \<and> pl_kind (ls_plugin s) \<noteq> ''PrometheusPromQLVariable'' then s
      else s\<lparr>ls_plugin := plugin_default (prometheus_source ds) (ls_plugin s)\<rparr>)"

fun updated_perses_vars :: "string \<Rightarrow> perses_var list \<Rightarrow> gerr + perses_var list" where
  "updated_perses_vars ds [] = Inr []"
| "updated_perses_vars ds (v # vs) =
     (if va_kind v \<noteq> ''ListVariable'' then map_sum id ((#) v) (updated_perses_vars ds vs)
      else (case va_spec v of
        OtherVar n \<Rightarrow> Inl (Plain (''variable '' @ n @ '' is not ListVariableSpec''))
      | ListVar s \<Rightarrow> map_sum id ((#) (v\<lparr>va_spec := ListVar (updated_list_spec ds s)\<rparr>)) (updated_perses_vars ds vs)))"

definition updated_query :: "perses_query \<Rightarrow> perses_query" where
  "updated_query q =
     (if qu_kind q \<noteq> ''TimeSeriesQuery'' \<or> pl_kind (qu_plugin q) \<noteq> ''PrometheusTimeSeriesQuery'' then q
      else q\<lparr>qu_plugin := plugin_default (AStr ''$datasource'') (qu_plugin q)\<rparr>)"

definition updated_perses_panel :: "perses_panel \<Rightarrow> perses_panel" where
  "updated_perses_panel p = p\<lparr>pn_queries := map updated_query (pn_queries p)\<rparr>"

definition update_datasource_variable :: "string \<Rightarrow> perses_board \<Rightarrow> ('s, perses_board) M" where
  \<comment> \<open>\<open>updateDatasourceVariable\<close>; a panel is a pointer, and a null one panics\<close>
  "update_datasource_variable ds b =
     bnd (lift_sum (updated_perses_vars ds (pb_vars b))) (\<lambda>vs.
     if list_ex (\<lambda>(k, p). p = None) (pb_panels b)
     then panic ''invalid memory address or nil pointer dereference''
     else ret (b\<lparr>pb_vars := vs,
       pb_panels := map (\<lambda>(k, p). (k, map_option updated_perses_panel p)) (pb_panels b)\<rparr>))"

subsection \<open>Lemmas\<close>

inductive sourced :: "string \<Rightarrow> any \<Rightarrow> bool" for ds where
  \<comment> \<open>a panel, with the panels of a collapsed row, that reads from a datasource\<close>
  "jget ''datasource'' flds = Some (AStr ds) \<Longrightarrow>
   (\<And>qs q. jget ''collapsed'' flds = Some (ABool True) \<Longrightarrow> jget ''panels'' flds = Some (AArr qs) \<Longrightarrow>
      q \<in> set qs \<Longrightarrow> sourced ds q) \<Longrightarrow>
   sourced ds (AObj flds)"

inductive_cases sourced_cases: "sourced ds p"

lemma sourced_updated_panels: "p \<in> set (updated_panels ds ps) \<Longrightarrow> sourced ds p"
proof (induction ds ps arbitrary: p rule: updated_panels.induct)
  case (2 ds flds ps)
  then show ?case
    by (auto simp: Let_def split: option.splits any.splits if_splits intro!: sourced.intros)
qed simp_all

lemma updated_panels_sourced:
  "(\<And>p. p \<in> set ps \<Longrightarrow> sourced ds p) \<Longrightarrow> updated_panels ds ps = ps"
proof (induction ds ps rule: updated_panels.induct)
  case (2 ds flds ps)
  have "sourced ds (AObj flds)" using "2.prems" by simp
  then have p: "jget ''datasource'' flds = Some (AStr ds)"
    "\<And>qs q. jget ''collapsed'' flds = Some (ABool True) \<Longrightarrow> jget ''panels'' flds = Some (AArr qs) \<Longrightarrow>
      q \<in> set qs \<Longrightarrow> sourced ds q"
    by (auto elim: sourced.cases)
  have "updated_panels ds ps = ps" using "2.IH" "2.prems" by simp
  moreover have "updated_panels ds qs = qs"
    if "jget ''panels'' flds = Some (AArr qs)" "jget ''collapsed'' flds = Some (ABool True)" for qs
    using "2.IH" that p(2) by blast
  ultimately show ?case
    using p by (auto simp: Let_def jput_same split: option.split any.split)
qed (auto elim: sourced.cases)

lemma updated_panels_idem: "updated_panels ds (updated_panels ds ps) = updated_panels ds ps"
  by (rule updated_panels_sourced) (rule sourced_updated_panels)

definition served_var :: "string \<Rightarrow> any \<Rightarrow> bool" where
  \<comment> \<open>a template variable, not of type datasource, that reads from a datasource\<close>
  "served_var ds v = (\<exists>flds ty. v = AObj flds \<and> jget ''type'' flds = Some (AStr ty) \<and> ty \<noteq> ''datasource'' \<and>
     jget ''datasource'' flds = Some (AStr ds))"

lemma served_updated_var: "updated_var ds v = Some v' \<Longrightarrow> served_var ds v'"
  by (auto simp: served_var_def updated_var_def split: any.splits option.splits if_splits)

lemma updated_var_served: "served_var ds v \<Longrightarrow> updated_var ds v = Some v"
  by (auto simp: served_var_def updated_var_def jput_same)

lemma served_updated_vars: "v \<in> set (updated_vars ds vs) \<Longrightarrow> served_var ds v"
  unfolding updated_vars_def by (induction vs) (auto simp: served_updated_var split: option.splits)

lemma updated_vars_served: "(\<And>v. v \<in> set vs \<Longrightarrow> served_var ds v) \<Longrightarrow> updated_vars ds vs = vs"
  by (induction vs) (simp_all add: updated_vars_def updated_var_served)

lemma updated_vars_idem: "updated_vars ds (updated_vars ds vs) = updated_vars ds vs"
  by (rule updated_vars_served) (rule served_updated_vars)

lemma jput_jput [simp]: "jput k v (jput k v' flds) = jput k v flds"
  unfolding jput_def by (induction flds) auto

lemma jput_commute: "jget k (jput k' v' flds) = Some v \<Longrightarrow> k \<noteq> k' \<Longrightarrow> jput k v (jput k' v' flds) = jput k' v' flds"
  by (rule jput_same)


definition small_model :: "(string \<times> any) list" where
  "small_model = [(''title'', AStr ''pods''),
     (''panels'', AArr [AObj [(''collapsed'', ABool True), (''panels'', AArr [AObj [(''id'', ANum ''2'')]])]]),
     (''templating'', AObj [(''list'', AArr [AObj [(''type'', AStr ''datasource'')]])])]"


lemma plugin_default_idem [simp]: "plugin_default src (plugin_default src p) = plugin_default src p"
  by (cases p) (auto simp: plugin_default_def split: any.splits)

lemma plugin_default_kind [simp]: "pl_kind (plugin_default src p) = pl_kind p"
  by (auto simp: plugin_default_def split: any.splits)

lemma updated_list_spec_idem [simp]: "updated_list_spec ds (updated_list_spec ds s) = updated_list_spec ds s"
  by (auto simp: updated_list_spec_def)

lemma updated_query_idem [simp]: "updated_query (updated_query q) = updated_query q"
  by (auto simp: updated_query_def)

lemma updated_perses_panel_idem [simp]: "updated_perses_panel (updated_perses_panel p) = updated_perses_panel p"
  by (auto simp: updated_perses_panel_def comp_def)

lemma updated_perses_vars_idem:
  "updated_perses_vars ds vs = Inr vs' \<Longrightarrow> updated_perses_vars ds vs' = Inr vs'"
proof (induction vs arbitrary: vs')
  case (Cons v vs)
  then show ?case
    by (cases "updated_perses_vars ds vs") (auto split: if_splits var_spec.splits)
qed simp

definition explicit_source :: "perses_plugin \<Rightarrow> bool" where
  \<comment> \<open>the author of the dashboard chose a datasource\<close>
  "explicit_source p = (\<exists>flds. pl_spec p = AObj flds \<and> jget ''datasource'' flds \<noteq> None)"

lemma plugin_default_explicit: "explicit_source p \<Longrightarrow> plugin_default src p = p"
  by (auto simp: explicit_source_def plugin_default_def)

definition keeps_var :: "perses_var \<Rightarrow> perses_var \<Rightarrow> bool" where
  \<comment> \<open>the edit leaves a variable alone unless it is the datasource variable or lacks a datasource\<close>
  "keeps_var v v' = (case va_spec v of
     ListVar s \<Rightarrow> ls_name s \<noteq> ''datasource'' \<and> explicit_source (ls_plugin s) \<longrightarrow> v' = v
   | OtherVar _ \<Rightarrow> v' = v)"

lemma keeps_var_refl: "keeps_var v v"
  by (auto simp: keeps_var_def split: var_spec.split)

lemma updated_list_spec_explicit:
  "ls_name s \<noteq> ''datasource'' \<Longrightarrow> explicit_source (ls_plugin s) \<Longrightarrow> updated_list_spec ds s = s"
  by (simp add: updated_list_spec_def plugin_default_explicit)

lemma keeps_updated: "va_spec v = ListVar s \<Longrightarrow> keeps_var v (v\<lparr>va_spec := ListVar (updated_list_spec ds s)\<rparr>)"
  by (cases v) (auto simp: keeps_var_def updated_list_spec_explicit)

lemma updated_perses_vars_keep:
  "updated_perses_vars ds vs = Inr vs' \<Longrightarrow> list_all2 keeps_var vs vs'"
proof (induction vs arbitrary: vs')
  case (Cons v vs)
  then show ?case
    by (cases "updated_perses_vars ds vs") (auto simp: keeps_var_refl keeps_updated split: if_splits var_spec.splits)
qed simp

text \<open>
  Preparing a Perses dashboard never overrides a datasource its author chose for a variable,
  never touches a variable that is not a list, and preparing the result again changes nothing.
\<close>

theorem perses_update_stable:
  assumes "update_datasource_variable ds b E w = (Ok b', es, w')"
  shows "update_datasource_variable ds b' E w = (Ok b', [], w) \<and> list_all2 keeps_var (pb_vars b) (pb_vars b') \<and>
     map fst (pb_panels b') = map fst (pb_panels b) \<and> es = [] \<and> w' = w"
proof -
  obtain vs where vs: "updated_perses_vars ds (pb_vars b) = Inr vs" "\<not> list_ex (\<lambda>(k, p). p = None) (pb_panels b)"
    "b' = b\<lparr>pb_vars := vs, pb_panels := map (\<lambda>(k, p). (k, map_option updated_perses_panel p)) (pb_panels b)\<rparr>"
    "es = []" "w' = w"
    using assms
    by (auto simp: update_datasource_variable_def bnd_def lift_sum_def ret_def fail_def panic_def
        split: sum.splits if_splits)
  have ex: "\<not> list_ex (\<lambda>(k, p). p = None) (pb_panels b')"
    using vs(2,3) by (auto simp: list_ex_iff)
  have idem: "map (\<lambda>(k, p). (k, map_option updated_perses_panel p)) (pb_panels b') = pb_panels b'"
    using vs(3) by (auto simp: option.map_comp comp_def)
  have "updated_perses_vars ds (pb_vars b') = Inr (pb_vars b')"
    using updated_perses_vars_idem [OF vs(1)] vs(3) by simp
  then have "update_datasource_variable ds b' E w = (Ok b', [], w)"
    using ex idem by (simp add: update_datasource_variable_def bnd_def lift_sum_def ret_def)
  moreover have "map fst (pb_panels b') = map fst (pb_panels b)" using vs(3) by auto
  ultimately show ?thesis using updated_perses_vars_keep [OF vs(1)] vs(3,4,5) by simp
qed

definition pods_var :: perses_var where
  "pods_var = \<lparr>va_kind = ''ListVariable'', va_spec = ListVar \<lparr>ls_name = ''pod'', ls_default = None,
     ls_plugin = \<lparr>pl_kind = ''PrometheusPromQLVariable'', pl_spec = AObj [(''expr'', AStr ''up'')]\<rparr>, ls_rest = ''''\<rparr>\<rparr>"

definition pods_board :: perses_board where
  "pods_board = \<lparr>pb_name = ''pods'', pb_project = '''', pb_project_id = 0, pb_folder = '''', pb_folder_id = 0,
     pb_display = None, pb_vars = [pods_var], pb_panels = [], pb_rest = ''''\<rparr>"

lemma perses_update_stable_witness:
  "\<exists>b'. update_datasource_variable ''prom'' b' script_env (start []) = (Ok b', [], start []) \<and> pb_vars b' \<noteq> []"
proof -
  obtain b' where b: "update_datasource_variable ''prom'' pods_board script_env (start []) = (Ok b', [], start [])"
    by (simp add: update_datasource_variable_def bnd_def lift_sum_def ret_def pods_board_def pods_var_def)
  show ?thesis using perses_update_stable [OF b] by (auto simp: pods_board_def)
qed

end
