(* ===== verification/Grafana_Dashboard_Ctl.thy ===== *)
theory Grafana_Dashboard_Ctl imports Grafana_Client Dashboard_Json Meta_Util begin

section \<open>Grafana dashboards (pkg/controllers/openviz/grafanadashboard_controller.go)\<close>

text \<open>
  For each GrafanaDashboard object the controller sends the model to the Grafana an AppBinding
  points at, and records in the status what Grafana answered together with a digest of the
  AppBinding's settings, the state.  The digests are cached in a package variable, shared with the
  Perses controller.
\<close>

definition gdash_finalizer :: string where
  "gdash_finalizer = ''grafanadashboard.openviz.dev/finalizer''"

subsection \<open>The state of an AppBinding and its cache\<close>

definition cached_state :: "app_binding \<Rightarrow> (codec \<Rightarrow> gerr + string) \<Rightarrow> ('s, gerr + string) M" where
  \<comment> \<open>the common frame of \<open>GrafanaState\<close> and \<open>PersesState\<close>: look the key up, else compute and store\<close>
  "cached_state ab compute =
     (let k = (om_uid (ab_meta ab), om_generation (ab_meta ab)) in
      bnd (get_world w_states) (\<lambda>c. case map_of c k of
        Some r \<Rightarrow> ret r
      | None \<Rightarrow>
          bnd pures (\<lambda>C.
          bnd (put_world (\<lambda>w. w\<lparr>w_states := (k, compute C) # w_states w\<rparr>)) (\<lambda>_.
          ret (compute C)))))"

definition grafana_params :: "codec \<Rightarrow> app_binding \<Rightarrow> string + grafana_config" where
  \<comment> \<open>the AppBinding's parameters; none leave the zero value\<close>
  "grafana_params C ab = (case ab_params ab of
     None \<Rightarrow> Inr \<lparr>gc_datasource = '''', gc_folder_id = None\<rparr>
   | Some raw \<Rightarrow> dec_grafana_cfg C raw)"

definition folder_of :: "grafana_config \<Rightarrow> int" where
  "folder_of c = (case gc_folder_id c of None \<Rightarrow> 0 | Some i \<Rightarrow> i)"

definition grafana_digest :: "app_binding \<Rightarrow> codec \<Rightarrow> gerr + string" where
  "grafana_digest ab C = (case grafana_params C ab of
     Inl m \<Rightarrow> Inl (Plain m)
   | Inr cfg \<Rightarrow> (case app_url C ab of
       Inl e \<Rightarrow> Inl e
     | Inr u \<Rightarrow> Inr (sha_b64 C (u @ '','' @ gc_datasource cfg @ '','' @ itoa (folder_of cfg)))))"

definition grafana_state :: "app_binding \<Rightarrow> ('s, gerr + string) M" where
  "grafana_state ab = cached_state ab (grafana_digest ab)"

definition is_state_changed :: "grafana_dashboard \<Rightarrow> app_binding \<Rightarrow> ('s, bool) M" where
  "is_state_changed db ab = (case gs_dashboard (gd_status db) of
     None \<Rightarrow> ret False
   | Some d \<Rightarrow> (case gr_state d of
       None \<Rightarrow> ret False
     | Some old \<Rightarrow> bnd (grafana_state ab) (\<lambda>r. ret (case r of Inl _ \<Rightarrow> False | Inr cur \<Rightarrow> cur \<noteq> old))))"

subsection \<open>Failures\<close>

definition failed_condition :: "string \<Rightarrow> condition" where
  "failed_condition reason = \<lparr>co_type = ''Failed'', co_status = ''True'', co_reason = reason, co_message = reason,
     co_observed = 0\<rparr>"

definition ready_condition :: "string \<Rightarrow> condition" where
  "ready_condition reason = \<lparr>co_type = ''Ready'', co_status = ''True'', co_reason = reason, co_message = reason,
     co_observed = 0\<rparr>"

definition failed_dashboard :: "string \<Rightarrow> bool \<Rightarrow> grafana_dashboard \<Rightarrow> grafana_dashboard" where
  "failed_dashboard reason upd d = d\<lparr>gd_status := (gd_status d)\<lparr>
     gs_phase := Failed, gs_reason := reason,
     gs_observed := (if upd then om_generation (gd_meta d) else gs_observed (gd_status d)),
     gs_conditions := set_condition (gs_conditions (gd_status d)) (failed_condition reason)\<rparr>\<rparr>"

definition failure_event :: "kind \<Rightarrow> string \<Rightarrow> objmeta \<Rightarrow> string \<Rightarrow> ('s, unit) M" where
  \<comment> \<open>\<open>recordFailureEvent\<close>: fire and forget\<close>
  "failure_event kd what m reason =
     seq (send (EventQ kd (meta_key m) reason (''Failed to complete operation for '' @ what @ '': \"'' @ om_name m @
       ''\", Reason: \"'' @ reason @ ''\"'')))
     (ret ())"

definition handle_set_error :: "requeue \<Rightarrow> grafana_dashboard \<Rightarrow> gerr \<Rightarrow> bool \<Rightarrow> ('s, requeue) M" where
  "handle_set_error after obj e upd =
     seq (failure_event KGrafanaDashboard ''GrafanaDashboard'' (gd_meta obj) (err_msg e))
     (seq (patch_status v_gd obj (failed_dashboard (err_msg e) upd))
     (ret after))"

subsection \<open>Setting the dashboard\<close>

definition need :: "'a option \<Rightarrow> ('s, 'a) M" where
  \<comment> \<open>dereferencing a pointer\<close>
  "need x = (case x of None \<Rightarrow> panic ''invalid memory address or nil pointer dereference'' | Some y \<Rightarrow> ret y)"

definition identified_model :: "grafana_dashboard \<Rightarrow> string \<Rightarrow> ('s, string option) M" where
  \<comment> \<open>the model with the identifiers of the dashboard it replaces, if it replaces one\<close>
  "identified_model obj state = (case (gd_model obj, gs_dashboard (gd_status obj)) of
     (Some raw, Some d) \<Rightarrow>
       if gr_state d = None \<or> gr_state d = Some state then
         bnd (need (gr_id d)) (\<lambda>i.
         bnd (need (gr_uid d)) (\<lambda>uid.
         bnd (add_dashboard_id raw i uid) (\<lambda>m. ret (Some m))))
       else ret (Some raw)
   | (m, _) \<Rightarrow> ret m)"

definition templatized_model :: "grafana_dashboard \<Rightarrow> app_binding \<Rightarrow> grafana_config \<Rightarrow> string option
     \<Rightarrow> ('s, string option) M" where
  "templatized_model obj ab cfg model =
     (if map_option snd (gd_templatize obj) = Some True then
        if ab_params ab = None then
          fail (Plain (''failed to templatize dashboard, reason: datasource parameter is not provided in app binding '' @
            key_string (meta_key (ab_meta ab))))
        else
          bnd (need model) (\<lambda>raw.
          bnd pures (\<lambda>C.
          bnd (lift_sum (replace_datasource C raw (gc_datasource cfg))) (\<lambda>m. ret (Some m))))
      else ret model)"

definition prepare_dashboard ::
    "grafana_dashboard \<Rightarrow> ('s, string \<times> string option \<times> int \<times> gconn) M" where
  \<comment> \<open>\<open>setDashboard\<close> up to the call of Grafana: state, model, folder, client\<close>
  "prepare_dashboard obj =
     (let ref = with_namespace (om_namespace (gd_meta obj)) (gd_ref obj) in
      bnd (get_grafana ref) (\<lambda>ab.
      bnd (bnd (grafana_state ab) lift_sum) (\<lambda>state.
      bnd (identified_model obj state) (\<lambda>m1.
      bnd pures (\<lambda>C.
      bnd (lift_sum (case grafana_params C ab of
          Inl m \<Rightarrow> Inl (Plain (''failed to unmarshal app binding parameters, reason: '' @ m))
        | Inr cfg \<Rightarrow> Inr cfg)) (\<lambda>cfg.
      bnd (templatized_model obj ab cfg m1) (\<lambda>m2.
      bnd (new_grafana_client ref) (\<lambda>gc.
      ret (state, m2, folder_of cfg, gc)))))))))"

definition current_dashboard ::
    "string \<Rightarrow> gresp option \<Rightarrow> int option \<Rightarrow> grafana_dashboard \<Rightarrow> ('s, grafana_dashboard) M" where
  \<comment> \<open>the transform of the last \<open>PatchStatus\<close>, which dereferences what Grafana returned\<close>
  "current_dashboard state resp org d =
     bnd (need resp) (\<lambda>r.
     bnd (need (gq_id r)) (\<lambda>i.
     bnd (need org) (\<lambda>o_id.
     bnd (need (gq_version r)) (\<lambda>v.
     ret (d\<lparr>gd_status := (gd_status d)\<lparr>
       gs_dashboard := Some \<lparr>gr_id = Some i, gr_uid = gq_uid r, gr_org_id = Some o_id, gr_slug = gq_slug r,
         gr_url = gq_url r, gr_version = Some v, gr_state = Some state\<rparr>,
       gs_phase := Current, gs_observed := om_generation (gd_meta d),
       gs_conditions := set_condition (gs_conditions (gd_status d))
         (ready_condition ''Dashboard is successfully created''),
       gs_reason := ''Dashboard is successfully created''\<rparr>\<rparr>)))))"

definition publish_dashboard ::
    "requeue \<Rightarrow> grafana_dashboard \<Rightarrow> string \<times> string option \<times> int \<times> gconn \<Rightarrow> ('s, requeue) M" where
  "publish_dashboard after obj p = (case p of (state, model, folder, gc) \<Rightarrow>
     bnd (grafana_call gc (SetDashboard model folder True)) (\<lambda>(resp, err). case err of
       Some e \<Rightarrow> handle_set_error after obj e (map_option gq_status resp = Some 400)
     | None \<Rightarrow>
         bnd (attempt (answer (GrafanaQ gc GetCurrentOrg) (\<lambda>a. case a of ROrg i \<Rightarrow> Some i | _ \<Rightarrow> None))) (\<lambda>r. case r of
           Inl e \<Rightarrow> handle_set_error after obj e False
         | Inr org \<Rightarrow> seq (patch_status_e v_gd obj (current_dashboard state resp org)) (ret 0))))"

definition set_dashboard :: "requeue \<Rightarrow> grafana_dashboard \<Rightarrow> ('s, requeue) M" where
  "set_dashboard after obj = bnd (attempt (prepare_dashboard obj)) (\<lambda>r. case r of
     Inl e \<Rightarrow> handle_set_error after obj e False
   | Inr p \<Rightarrow> publish_dashboard after obj p)"

subsection \<open>Deleting the dashboard\<close>

definition delete_external :: "grafana_dashboard \<Rightarrow> ('s, unit) M" where
  \<comment> \<open>\<open>deleteExternalDashboard\<close>: a missing AppBinding, secret or dashboard is fine\<close>
  "delete_external obj = (case gs_dashboard (gd_status obj) of
     None \<Rightarrow> ret ()
   | Some d \<Rightarrow> (case gr_uid d of
       None \<Rightarrow> ret ()
     | Some uid \<Rightarrow>
         bnd (attempt (new_grafana_client (with_namespace (om_namespace (gd_meta obj)) (gd_ref obj)))) (\<lambda>r. case r of
           Inl e \<Rightarrow> if is_not_found e then ret () else fail e
         | Inr gc \<Rightarrow>
             bnd (grafana_call gc (DeleteDashboardByUID uid)) (\<lambda>(resp, err). case err of
               None \<Rightarrow> ret ()
             | Some e \<Rightarrow> if map_option gq_status resp = Some 404 then ret () else fail e))))"

definition terminating_dashboard :: "grafana_dashboard \<Rightarrow> grafana_dashboard" where
  "terminating_dashboard d = d\<lparr>gd_status := (gd_status d)\<lparr>gs_phase := Terminating,
     gs_reason := ''Resource has been going to be deleted''\<rparr>\<rparr>"

definition unfinalized_dashboard :: "grafana_dashboard \<Rightarrow> grafana_dashboard" where
  "unfinalized_dashboard d = d\<lparr>gd_meta := remove_finalizer gdash_finalizer (gd_meta d)\<rparr>"

definition delete_dashboard :: "grafana_dashboard \<Rightarrow> ('s, requeue) M" where
  \<comment> \<open>the branch of \<open>Reconcile\<close> for an object that is being deleted; the finalizer is removed with a
     plain patch, which cannot create the object again\<close>
  "delete_dashboard obj =
     bnd (if gs_phase (gd_status obj) \<noteq> Terminating then patch_status v_gd obj terminating_dashboard
          else ret obj) (\<lambda>obj1.
     seq (delete_external obj1)
     (seq (ignore_not_found (seq (kpatch v_gd obj1 (unfinalized_dashboard obj1)) (ret ())))
     (ret 0)))"

subsection \<open>Reconcile\<close>

definition finalized_dashboard :: "grafana_dashboard \<Rightarrow> grafana_dashboard" where
  "finalized_dashboard d = d\<lparr>gd_meta := add_finalizer gdash_finalizer (gd_meta d)\<rparr>"

definition processing_dashboard :: "grafana_dashboard \<Rightarrow> grafana_dashboard" where
  "processing_dashboard d = d\<lparr>gd_status := (gd_status d)\<lparr>gs_phase := Processing\<rparr>\<rparr>"

definition sync_dashboard :: "requeue \<Rightarrow> grafana_dashboard \<Rightarrow> ('s, requeue) M" where
  "sync_dashboard after obj =
     bnd (if gdash_finalizer \<in> set (om_finalizers (gd_meta obj)) then ret obj
          else bnd (create_or_patch v_gd obj (\<lambda>ob _. finalized_dashboard ob)) (\<lambda>(_, new). ret new)) (\<lambda>obj1.
     bnd (if gs_phase (gd_status obj1) \<noteq> Processing \<and> gs_phase (gd_status obj1) \<noteq> Failed
          then patch_status v_gd obj1 processing_dashboard else ret obj1) (\<lambda>obj2.
     set_dashboard after obj2))"

definition dashboard_reconcile :: "requeue \<Rightarrow> key \<Rightarrow> ('s, requeue) M" where
  \<comment> \<open>\<open>GrafanaDashboardReconciler.Reconcile\<close>, with the configured \<open>RequeueAfterDuration\<close>\<close>
  "dashboard_reconcile after k =
     fetch_result (kget v_gd k) (\<lambda>obj.
     if om_deleting (gd_meta obj) then delete_dashboard obj else sync_dashboard after obj)"

subsection \<open>Event sources\<close>

definition dashboard_predicate :: "grafana_dashboard \<Rightarrow> ('s, bool) M" where
  "dashboard_predicate db =
     (if om_deleting (gd_meta db) then ret True
      else if gs_observed (gd_status db) \<noteq> om_generation (gd_meta db) then ret True
      else bnd (attempt (get_grafana (with_namespace (om_namespace (gd_meta db)) (gd_ref db)))) (\<lambda>r. case r of
        Inl _ \<Rightarrow> ret False
      | Inr ab \<Rightarrow> is_state_changed db ab))"

fun dashboards_of_binding :: "app_binding \<Rightarrow> grafana_dashboard list \<Rightarrow> ('s, key list option) M" where
  \<comment> \<open>the loop of \<open>appHandler\<close>: None is its \<open>return nil\<close> on an AppBinding that cannot be found\<close>
  "dashboards_of_binding a [] = ret (Some [])"
| "dashboards_of_binding a (db # dbs) =
     bnd (attempt (get_grafana (with_namespace (om_namespace (gd_meta db)) (gd_ref db)))) (\<lambda>r. case r of
       Inl _ \<Rightarrow> ret None
     | Inr ab \<Rightarrow>
         bnd (if meta_key (ab_meta ab) = meta_key (ab_meta a)
              then if gs_phase (gd_status db) = Failed then ret True else is_state_changed db a
              else ret False) (\<lambda>hit.
         bnd (dashboards_of_binding a dbs) (\<lambda>rest.
         ret (map_option (\<lambda>ks. (if hit then [meta_key (gd_meta db)] else []) @ ks) rest))))"

definition dashboards_for_binding :: "app_binding \<Rightarrow> ('s, key list) M" where
  "dashboards_for_binding a =
     bnd (attempt (klist v_gd all_opts)) (\<lambda>r. case r of
       Inl _ \<Rightarrow> ret []
     | Inr dbs \<Rightarrow> bnd (dashboards_of_binding a dbs) (\<lambda>ks. ret (case ks of None \<Rightarrow> [] | Some ks \<Rightarrow> ks)))"

subsection \<open>Why a lookup found nothing\<close>

fun not_there :: "event \<Rightarrow> bool" where
  \<comment> \<open>the API server has no such object, or no default AppBinding\<close>
  "not_there (Get K k, a) = (\<exists>x. a = RErr x \<and> is_not_found x)"
| "not_there (ListQ K opts, a) = (a = RObjs [] \<or> (\<exists>x. a = RErr x \<and> is_not_found x))"
| "not_there _ = False"

definition explains :: "('s, 'a) M \<Rightarrow> bool" where
  \<comment> \<open>a not-found error is the API server's\<close>
  "explains m = holds m (\<lambda>r es. \<forall>e. r = Err e \<longrightarrow> is_not_found e \<longrightarrow> (\<exists>v \<in> set es. not_there v))"

named_theorems explains_intros "rules of \<open>explains\<close>"

lemma explains_ret [explains_intros]: "explains (ret x)" and explains_panic [explains_intros]: "explains (panic p)"
  and explains_pures [explains_intros]: "explains pures"
  by (simp_all add: explains_def holds_pures)

lemma explains_fail [explains_intros]: "\<not> is_not_found e \<Longrightarrow> explains (fail e)"
  by (simp add: explains_def)

lemma explains_bnd [explains_intros]:
  assumes m: "explains m" and f: "\<And>x. explains (f x)"
  shows "explains (bnd m f)"
  unfolding explains_def
proof (rule holds_bnd [OF m [unfolded explains_def]])
  fix x es
  show "holds (f x) (\<lambda>r es'. \<forall>e. r = Err e \<longrightarrow> is_not_found e \<longrightarrow> (\<exists>v \<in> set (es @ es'). not_there v))"
    by (rule holds_mono [OF f [unfolded explains_def]]) auto
qed auto

lemma explains_lift_sum [explains_intros]:
  "(\<And>e. s = Inl e \<Longrightarrow> \<not> is_not_found e) \<Longrightarrow> explains (lift_sum s)"
  by (cases s) (auto simp: lift_sum_def intro: explains_intros)

lemma explains_answer [explains_intros]:
  "(\<And>x. is_not_found x \<Longrightarrow> not_there (q, RErr x)) \<Longrightarrow> explains (answer q get)"
  unfolding answer_def explains_def
  by (rule holds_bnd [where \<Psi> = "\<lambda>r es. \<exists>a. r = Ok a \<and> es = [(q, a)]"])
     (auto split: response.split option.split intro: holds_send)

lemma explains_kget [explains_intros]: "explains (kget v k)"
  unfolding kget_def by (rule explains_answer) simp

lemma those_Some_Nil: "those xs = Some [] \<longleftrightarrow> xs = []"
  by (cases xs) (auto split: option.splits)

lemma explains_find_binding [explains_intros]: "explains (find_binding field what r)"
proof (cases r)
  case None
  show ?thesis
    unfolding None find_binding_def option.case klist_def explains_def
  proof (rule holds_bnd [where \<Psi> = "\<lambda>r es. (\<forall>e. r = Err e \<longrightarrow> is_not_found e \<longrightarrow> (\<exists>v \<in> set es. not_there v)) \<and>
      (r = Ok [] \<longrightarrow> (\<exists>v \<in> set es. not_there v))"])
    show "holds (answer (ListQ (vkind v_ab) (all_opts\<lparr>lo_fields := [(field, ''true'')]\<rparr>)) (the_list v_ab))
      (\<lambda>r es. (\<forall>e. r = Err e \<longrightarrow> is_not_found e \<longrightarrow> (\<exists>v \<in> set es. not_there v)) \<and>
         (r = Ok [] \<longrightarrow> (\<exists>v \<in> set es. not_there v)))"
      unfolding answer_def
      by (rule holds_bnd [where \<Psi> = "\<lambda>r es. \<exists>a. r = Ok a \<and>
            es = [(ListQ (vkind v_ab) (all_opts\<lparr>lo_fields := [(field, ''true'')]\<rparr>), a)]"])
         (auto simp: the_list_def those_Some_Nil split: response.split option.split intro: holds_send)
  qed (auto split: list.split)
next
  case (Some k)
  have a: "holds (attempt (kget v_ab k)) (\<lambda>r es. (\<forall>e. r = Ok (Inl e) \<longrightarrow> is_not_found e \<longrightarrow> (\<exists>v \<in> set es. not_there v)) \<and>
      (\<forall>e. r \<noteq> Err e))"
    by (rule holds_attempt [OF explains_kget [unfolded explains_def]]) auto
  show ?thesis
    unfolding Some find_binding_def option.case explains_def
    by (rule holds_bnd [OF a]) (auto split: sum.split)
qed

lemma app_url_found: "app_url C ab = Inl e \<Longrightarrow> \<not> is_not_found e"
  by (auto simp: app_url_def Let_def split: option.splits)

lemma explains_new_grafana_client [explains_intros]: "explains (new_grafana_client r)"
  unfolding new_grafana_client_def grafana_client_for_def get_grafana_def binding_secret_def
  by (auto simp: app_config_of_def connect_grafana_def app_url_found split: option.split sum.splits
      intro!: explains_intros)

subsection \<open>Properties\<close>

fun drops_dashboard_finalizer :: "event \<Rightarrow> bool" where
  "drops_dashboard_finalizer (PatchQ (OGrafanaDashboard b) (OGrafanaDashboard n), _) =
     (gdash_finalizer \<in> set (om_finalizers (gd_meta b)) \<and> gdash_finalizer \<notin> set (om_finalizers (gd_meta n)))"
| "drops_dashboard_finalizer _ = False"

definition has_uid :: "grafana_dashboard \<Rightarrow> bool" where
  \<comment> \<open>the status says that Grafana has this dashboard\<close>
  "has_uid d = (\<exists>r. gs_dashboard (gd_status d) = Some r \<and> gr_uid r \<noteq> None)"

definition withdrawn :: "event \<Rightarrow> bool" where
  \<comment> \<open>Grafana deleted the dashboard or has none, or there is no Grafana to ask, or the API server says
     that the dashboard was never put there\<close>
  "withdrawn e = (not_there e \<or>
     (\<exists>gc uid r x. e = (GrafanaQ gc (DeleteDashboardByUID uid), RGrafana r x) \<and>
        (x = None \<or> map_option gq_status r = Some 404)) \<or>
     (\<exists>d. the_obj v_gd (snd e) = Some d \<and> \<not> has_uid d))"

lemma holds_client_or_missing:
  "holds (attempt (new_grafana_client r)) (\<lambda>x es. \<forall>e. x = Ok (Inl e) \<longrightarrow> is_not_found e \<longrightarrow> (\<exists>v \<in> set es. not_there v))"
  by (rule holds_attempt [OF explains_new_grafana_client [unfolded explains_def]]) auto

lemma emits_withdrawn:
  assumes "has_uid obj"
  shows "emits withdrawn (delete_external obj)"
proof -
  obtain d uid where d: "gs_dashboard (gd_status obj) = Some d" "gr_uid d = Some uid"
    using assms by (auto simp: has_uid_def)
  have call: "emits withdrawn (bnd (grafana_call gc (DeleteDashboardByUID uid)) (\<lambda>(resp, err). case err of
      None \<Rightarrow> ret () | Some e \<Rightarrow> if map_option gq_status resp = Some 404 then ret () else fail e))" for gc
    unfolding emits_def grafana_call_def bnd_assoc
    by (rule holds_bnd [where \<Psi> = "\<lambda>r es. \<exists>a. r = Ok a \<and> es = [(GrafanaQ gc (DeleteDashboardByUID uid), a)]"])
       (auto simp: run_simps withdrawn_def split: response.split option.split intro: holds_send)
  show ?thesis
    unfolding delete_external_def d option.case emits_def
  proof (rule holds_bnd [OF holds_client_or_missing])
    fix x :: "gerr + gconn" and es
    assume I: "\<forall>e. Ok x = Ok (Inl e) \<longrightarrow> is_not_found e \<longrightarrow> (\<exists>v \<in> set es. not_there v)"
    show "holds (case x of Inl e \<Rightarrow> if is_not_found e then ret () else fail e
       | Inr gc \<Rightarrow> bnd (grafana_call gc (DeleteDashboardByUID uid)) (\<lambda>(resp, err). case err of
           None \<Rightarrow> ret () | Some e \<Rightarrow> if map_option gq_status resp = Some 404 then ret () else fail e))
       (\<lambda>r es'. (\<exists>x. r = Ok x) \<longrightarrow> (\<exists>e \<in> set (es @ es'). withdrawn e))"
    proof (cases x)
      case (Inl e)
      then show ?thesis using I by (auto simp: withdrawn_def)
    next
      case (Inr gc)
      show ?thesis
        unfolding Inr sum.case
        by (rule holds_mono [OF call [of gc, unfolded emits_def]]) auto
    qed
  qed auto
qed

lemma never_drops_status:
  "never drops_dashboard_finalizer (patch_status v_gd obj f)"
  "never drops_dashboard_finalizer (patch_status_e v_gd obj g)" if "\<And>x. never drops_dashboard_finalizer (g x)"
  using that by (intro trace_intros; simp)+

lemma never_drops_external: "never drops_dashboard_finalizer (delete_external obj)"
  unfolding delete_external_def
  by (auto split: option.split sum.split intro!: trace_intros)

lemma holds_patch_status_got:
  "holds (patch_status v_gd obj f) (\<lambda>r es. (\<forall>e \<in> set es. \<not> drops_dashboard_finalizer e) \<and>
     (\<forall>x. r = Ok x \<longrightarrow> \<not> has_uid x \<longrightarrow> (\<exists>e \<in> set es. withdrawn e)))"
  unfolding patch_status_def patch_status_e_def bnd_simps kpatch_status_def
  by (rule holds_bnd [OF never_calls(1) [unfolded never_def]])
     (auto simp: withdrawn_def intro!: holds_answer)

lemma guarded_delete_dashboard:
  assumes "has_uid obj"
  shows "guarded withdrawn drops_dashboard_finalizer (delete_dashboard obj)"
proof -
  have rest: "guarded withdrawn drops_dashboard_finalizer (seq (delete_external o1)
      (seq (ignore_not_found (seq (kpatch v_gd o1 (unfinalized_dashboard o1)) (ret ()))) (ret (0 :: int))))"
    if "has_uid o1" for o1
    by (rule guarded_after [OF guarded_never [OF never_drops_external] emits_withdrawn [OF that]])
  have "holds (if gs_phase (gd_status obj) \<noteq> Terminating then patch_status v_gd obj terminating_dashboard
      else ret obj) (\<lambda>r es. (\<forall>e \<in> set es. \<not> drops_dashboard_finalizer e) \<and>
        (\<forall>x. r = Ok x \<longrightarrow> \<not> has_uid x \<longrightarrow> (\<exists>e \<in> set es. withdrawn e)))"
    using assms by (auto intro: holds_patch_status_got)
  then show ?thesis
    unfolding delete_dashboard_def by (rule guarded_read) (simp add: rest)
qed

lemma never_drops_sync_dashboard: "never drops_dashboard_finalizer (sync_dashboard after obj)"
proof -
  have e: "never drops_dashboard_finalizer (handle_set_error after o1 e upd)" for o1 e upd
    unfolding handle_set_error_def failure_event_def by (intro trace_intros) simp_all
  have c: "never drops_dashboard_finalizer (current_dashboard st r i x)" for st r i x
    unfolding current_dashboard_def need_def by (auto split: option.split intro!: trace_intros)
  have p: "never drops_dashboard_finalizer (prepare_dashboard o1)" for o1
    unfolding prepare_dashboard_def Let_def grafana_state_def cached_state_def identified_model_def
      templatized_model_def add_dashboard_id_def need_def
    by (auto split: option.split intro!: trace_intros)
  have s: "never drops_dashboard_finalizer (set_dashboard after o1)" for o1
    unfolding set_dashboard_def publish_dashboard_def
    by (auto split: sum.split option.split intro!: trace_intros e c p)
  have f: "never drops_dashboard_finalizer (create_or_patch v_gd obj (\<lambda>ob _. finalized_dashboard ob))"
    by (intro trace_intros) (simp_all add: v_gd_def finalized_dashboard_def)
  show ?thesis
    unfolding sync_dashboard_def by (auto intro!: trace_intros f s)
qed

lemma holds_kget_uid:
  "holds (kget v_gd k) (\<lambda>r es. (\<forall>e \<in> set es. \<not> drops_dashboard_finalizer e) \<and>
     (\<forall>x. r = Ok x \<longrightarrow> \<not> has_uid x \<longrightarrow> (\<exists>e \<in> set es. withdrawn e)))"
  unfolding kget_def by (rule holds_answer) (auto simp: withdrawn_def)

text \<open>
  C5: the finalizer is taken off a Grafana dashboard that Grafana knows only after Grafana deleted
  it or answered that it does not exist, or after the API server answered that there is no such
  AppBinding or credentials to reach Grafana with.
\<close>

theorem dashboard_finalizer_last:
  "guarded withdrawn drops_dashboard_finalizer (dashboard_reconcile after k)"
  unfolding dashboard_reconcile_def
  by (rule guarded_read_result [OF holds_kget_uid])
     (simp add: guarded_delete_dashboard guarded_never [OF never_drops_sync_dashboard])

fun marks_current :: "event \<Rightarrow> bool" where
  "marks_current (StatusPatchQ _ (OGrafanaDashboard n), _) = (gs_phase (gd_status n) = Current)"
| "marks_current _ = False"

definition model_accepted :: "event \<Rightarrow> bool" where
  \<comment> \<open>Grafana took the model without an error\<close>
  "model_accepted e = (\<exists>gc m f r. e = (GrafanaQ gc (SetDashboard m f True), RGrafana r None))"

lemma holds_set_call:
  assumes "\<And>a. \<not> q (GrafanaQ gc (SetDashboard m f True), a)"
  shows "holds (grafana_call gc (SetDashboard m f True)) (\<lambda>r es. (\<forall>e \<in> set es. \<not> q e) \<and>
     (\<forall>x. r = Ok x \<longrightarrow> snd x = None \<longrightarrow> (\<exists>e \<in> set es. model_accepted e)))"
  unfolding grafana_call_def
  by (rule holds_bnd [where \<Psi> = "\<lambda>r es. \<exists>a. r = Ok a \<and> es = [(GrafanaQ gc (SetDashboard m f True), a)]"])
     (auto simp: model_accepted_def assms split: response.splits intro: holds_send)

lemma never_current_before:
  "never marks_current (handle_set_error after obj e upd)"
  "never marks_current (prepare_dashboard obj)"
  "never marks_current (delete_dashboard obj)"
proof -
  show "never marks_current (handle_set_error after obj e upd)"
    unfolding handle_set_error_def failure_event_def
    by (intro trace_intros) (simp_all add: v_gd_def failed_dashboard_def)
  show "never marks_current (prepare_dashboard obj)"
    unfolding prepare_dashboard_def Let_def grafana_state_def cached_state_def identified_model_def
      templatized_model_def add_dashboard_id_def need_def
    by (auto split: option.split intro!: trace_intros)
  show "never marks_current (delete_dashboard obj)"
    unfolding delete_dashboard_def delete_external_def
    by (auto simp: v_gd_def terminating_dashboard_def split: option.split sum.split intro!: trace_intros)
qed

lemma guarded_publish: "guarded model_accepted marks_current (publish_dashboard after obj p)"
proof -
  obtain state model folder gc where p: "p = (state, model, folder, gc)" by (cases p)
  show ?thesis
    unfolding publish_dashboard_def p prod.case
    by (rule guarded_read [OF holds_set_call [of marks_current]])
       (auto simp: guarded_never [OF never_current_before(1)] split: option.split)
qed

text \<open>
  C18: a Grafana dashboard is marked as current only after Grafana took the model in this very run.
\<close>

theorem current_means_accepted:
  "guarded model_accepted marks_current (dashboard_reconcile after k)"
proof -
  have s: "guarded model_accepted marks_current (set_dashboard after obj)" for obj
    unfolding set_dashboard_def
    by (intro guarded_bnd guarded_attempt guarded_never [OF never_current_before(2)])
       (auto simp: guarded_publish guarded_never [OF never_current_before(1)] split: sum.split)
  have pre: "never marks_current (create_or_patch v_gd obj (\<lambda>ob _. finalized_dashboard ob))"
    "never marks_current (patch_status v_gd obj processing_dashboard)"
    "never marks_current (kget v_gd k)" for obj k
    by (intro trace_intros; simp add: v_gd_def processing_dashboard_def)+
  show ?thesis
    unfolding dashboard_reconcile_def sync_dashboard_def case_prod_unfold
    by (intro guarded_fetch_result guarded_if guarded_bnd guarded_skip s pre [THEN guarded_never]
        guarded_never [OF never_current_before(3)])
qed

definition distinct_conditions :: "grafana_dashboard \<Rightarrow> bool" where
  "distinct_conditions d = distinct (map co_type (gs_conditions (gd_status d)))"

fun breaks_conditions :: "event \<Rightarrow> bool" where
  \<comment> \<open>a status patch that makes two conditions of one type\<close>
  "breaks_conditions (StatusPatchQ (OGrafanaDashboard b) (OGrafanaDashboard n), _) =
     (distinct_conditions b \<and> \<not> distinct_conditions n)"
| "breaks_conditions _ = False"

lemma never_patch_status_returns:
  assumes "\<And>a. \<not> q (Get (vkind v) (obj_key (wrap v x)), a)" "\<And>cur. never q (f cur)"
    and "\<And>cur. returns (\<lambda>y. \<forall>a. \<not> q (StatusPatchQ (wrap v cur) (wrap v y), a)) (f cur)"
  shows "never q (patch_status_e v x f)"
  unfolding patch_status_e_def
  by (intro never_bnd never_calls assms never_bnd_returns [OF assms(3)]) auto

lemma returns_current:
  "returns (\<lambda>y. distinct_conditions cur \<longrightarrow> distinct_conditions y) (current_dashboard state resp org cur)"
  unfolding current_dashboard_def
  by (intro returns_bnd returns_ret) (simp add: distinct_conditions_def set_condition_types)

text \<open>
  C39: no write of the controller makes a Grafana dashboard's status carry two conditions of one
  type: if the status the write is based on has at most one of each, so has the new one.
\<close>

theorem conditions_stay_distinct:
  "never breaks_conditions (dashboard_reconcile after k)"
proof -
  have e: "never breaks_conditions (handle_set_error after obj e upd)" for obj e upd
    unfolding handle_set_error_def failure_event_def
    by (intro trace_intros)
       (simp_all add: v_gd_def failed_dashboard_def distinct_conditions_def set_condition_types)
  have c: "never breaks_conditions (patch_status_e v_gd obj (current_dashboard st r i))" for obj st r i
  proof (rule never_patch_status_returns)
    show "returns (\<lambda>y. \<forall>a. \<not> breaks_conditions (StatusPatchQ (wrap v_gd cur) (wrap v_gd y), a))
        (current_dashboard st r i cur)" for cur
      by (rule returns_mono [OF returns_current]) (simp add: v_gd_def)
    show "never breaks_conditions (current_dashboard st r i cur)" for cur
      unfolding current_dashboard_def need_def by (auto split: option.split intro!: trace_intros)
  qed simp
  have p: "never breaks_conditions (prepare_dashboard obj)" for obj
    unfolding prepare_dashboard_def Let_def grafana_state_def cached_state_def identified_model_def
      templatized_model_def add_dashboard_id_def need_def
    by (auto split: option.split intro!: trace_intros)
  have s: "never breaks_conditions (set_dashboard after obj)" for obj
    unfolding set_dashboard_def publish_dashboard_def
    by (auto split: sum.split option.split intro!: trace_intros e c p)
  have d: "never breaks_conditions (delete_dashboard obj)" for obj
    unfolding delete_dashboard_def delete_external_def
    by (auto simp: v_gd_def terminating_dashboard_def distinct_conditions_def split: option.split sum.split
        intro!: trace_intros)
  have y: "never breaks_conditions (sync_dashboard after obj)" for obj
    unfolding sync_dashboard_def
    by (auto simp: v_gd_def processing_dashboard_def distinct_conditions_def intro!: trace_intros s)
  show ?thesis
    unfolding dashboard_reconcile_def by (auto intro!: trace_intros d y)
qed

text \<open>
  A dashboard whose AppBinding cannot be found keeps the change of any other AppBinding from
  reaching any dashboard: the handler that should enqueue the dashboards of the changed AppBinding
  enqueues none.
\<close>

theorem unresolved_dashboard_hides_others:
  assumes d: "d \<in> set dbs"
    and lost: "\<And>w. \<exists>e es w'. get_grafana (with_namespace (om_namespace (gd_meta d)) (gd_ref d)) E w = (Err e, es, w')"
    and run: "dashboards_of_binding a dbs E w = (Ok ks, es, w')"
  shows "ks = None"
  using d run
proof (induction dbs arbitrary: ks w es w')
  case (Cons db dbs)
  show ?case
  proof (cases "d = db")
    case True
    obtain e es1 w1 where "get_grafana (with_namespace (om_namespace (gd_meta db)) (gd_ref db)) E w = (Err e, es1, w1)"
      using lost True by blast
    then show ?thesis using Cons.prems by (auto simp: bnd_def attempt_def ret_def)
  next
    case False
    then have IH: "dashboards_of_binding a dbs E w1 = (Ok ks1, es1, w2) \<Longrightarrow> ks1 = None" for w1 ks1 es1 w2
      using Cons by auto
    show ?thesis
      using Cons.prems(2)
      by (auto simp: bnd_def attempt_def ret_def split: prod.splits outcome.splits sum.splits dest!: IH)
  qed
qed simp

definition empty_env :: "unit env" where
  \<comment> \<open>a cluster that has nothing\<close>
  "empty_env = \<lparr>exec = (\<lambda>_ s. (RErr (ApiErr NotFound ''not found''), s)), codecs = plain_codec\<rparr>"

definition lone_dashboard :: grafana_dashboard where
  "lone_dashboard = \<lparr>gd_meta = new_meta ''demo'' ''pods'', gd_ref = Some ('''', ''grafana''), gd_model = Some ''{}'',
     gd_overwrite = True, gd_templatize = None, gd_status = \<lparr>gs_observed = 0, gs_phase = Failed, gs_reason = '''',
       gs_dashboard = None, gs_conditions = []\<rparr>\<rparr>"

definition main_grafana :: app_binding where
  "main_grafana = \<lparr>ab_meta = new_meta ''monitoring'' ''grafana'', ab_type = '''', ab_app_ref = None,
     ab_client = \<lparr>cc_url = Some ''http://grafana.monitoring.svc'', cc_service = None, cc_insecure = False, cc_ca = '''',
       cc_server_name = ''''\<rparr>,
     ab_secret = None, ab_tls_secret = None, ab_params = Some ''{}''\<rparr>"

lemma unresolved_dashboard_hides_others_witness:
  "\<exists>es. dashboards_of_binding main_grafana [lone_dashboard] empty_env (start ()) = (Ok None, es, start ())"
proof -
  have lost: "\<exists>e es w'. get_grafana (with_namespace (om_namespace (gd_meta lone_dashboard)) (gd_ref lone_dashboard))
      empty_env w = (Err e, es, w')" for w
    by (simp add: get_grafana_def find_binding_def with_namespace_def lone_dashboard_def new_meta_def kget_def
        answer_def send_def empty_env_def bnd_def attempt_def fail_def)
  have run: "\<exists>ks es. dashboards_of_binding main_grafana [lone_dashboard] empty_env (start ()) = (Ok ks, es, start ())"
    by (simp add: get_grafana_def find_binding_def with_namespace_def lone_dashboard_def new_meta_def kget_def
        answer_def send_def empty_env_def bnd_def attempt_def fail_def ret_def start_def)
  then obtain ks es where r: "dashboards_of_binding main_grafana [lone_dashboard] empty_env (start ()) = (Ok ks, es, start ())"
    by blast
  have "ks = None"
    by (rule unresolved_dashboard_hides_others [OF _ lost r]) simp
  then show ?thesis using r by blast
qed

end
