(* ===== verification/Grafana_Datasource_Ctl.thy ===== *)
theory Grafana_Datasource_Ctl imports Grafana_Dashboard_Ctl begin

section \<open>The Grafana datasource controller (pkg/controllers/openviz)\<close>

text \<open>
  \<open>GrafanaDatasourceReconciler\<close> keeps a datasource of Grafana in step with its object.  Its handler
  marks the generation as observed before it calls Grafana, and skips objects whose generation is
  observed.
\<close>

definition gds_finalizer :: string where
  "gds_finalizer = ''grafanadatasource.openviz.dev/finalizer''"

definition go_uint :: "int \<Rightarrow> int" where
  \<comment> \<open>the conversion \<open>uint(x)\<close> of an \<open>int64\<close>\<close>
  "go_uint i = i mod 2 ^ 64"

definition datasource_of :: "grafana_datasource \<Rightarrow> datasource" where
  "datasource_of d = \<lparr>dt_id = 0, dt_org_id = go_uint (ds_org_id d), dt_name = ds_name d, dt_type = ds_type d,
     dt_access = ds_access d, dt_url = ds_url d, dt_is_default = ds_is_default d\<rparr>"

definition not_updated :: gerr where
  "not_updated = Plain ''failed to update GrafanaDatasource phase to \"Current\"''"

definition mark_datasource :: "grafana_datasource \<Rightarrow> (grafana_datasource \<Rightarrow> grafana_datasource) \<Rightarrow> ('s, unit) M" where
  \<comment> \<open>the status patch that ends \<open>createDatasource\<close> and \<open>updateDatasource\<close>\<close>
  "mark_datasource ds f = bnd (attempt (patch_status v_ds ds f)) (\<lambda>r. case r of
     Inl e \<Rightarrow> fail not_updated
   | Inr _ \<Rightarrow> ret ())"

definition created_datasource :: "gresp \<Rightarrow> grafana_datasource \<Rightarrow> grafana_datasource" where
  \<comment> \<open>\<open>pointer.Int\<close> reads a missing id as 0\<close>
  "created_datasource r d = d\<lparr>ds_status := (ds_status d)\<lparr>ds_phase := Current,
     ds_reason := ''Successfully created Grafana Datasource'', ds_observed := om_generation (ds_meta d),
     ds_id := Some (case gq_id r of None \<Rightarrow> 0 | Some i \<Rightarrow> i)\<rparr>\<rparr>"

definition updated_datasource :: "int \<Rightarrow> grafana_datasource \<Rightarrow> grafana_datasource" where
  \<comment> \<open>observed is the generation of the object the handler holds\<close>
  "updated_datasource gen d = d\<lparr>ds_status := (ds_status d)\<lparr>ds_phase := Current,
     ds_reason := ''Successfully updated GrafanaDatasource'', ds_observed := gen\<rparr>\<rparr>"

definition create_datasource :: "gconn \<Rightarrow> grafana_datasource \<Rightarrow> datasource \<Rightarrow> ('s, unit) M" where
  "create_datasource gc ds src =
     bnd (grafana_call gc (CreateDatasource src)) (\<lambda>(resp, err). case err of
       Some e \<Rightarrow> fail (Plain (''failed to create datasource, reason: '' @ err_msg e))
     | None \<Rightarrow> bnd (need resp) (\<lambda>r. mark_datasource ds (created_datasource r)))"

definition update_datasource :: "gconn \<Rightarrow> grafana_datasource \<Rightarrow> datasource \<Rightarrow> ('s, unit) M" where
  "update_datasource gc ds src =
     bnd (grafana_call gc (UpdateDatasource src)) (\<lambda>(resp, err). case err of
       Some e \<Rightarrow> fail (Plain (''failed to update remote datasource, reason: '' @ err_msg e))
     | None \<Rightarrow> bnd (need resp) (\<lambda>r. mark_datasource ds (updated_datasource (om_generation (ds_meta ds)))))"

definition prefixed :: "string \<Rightarrow> ('s, 'a) M \<Rightarrow> ('s, 'a) M" where
  \<comment> \<open>\<open>fmt.Errorf("... %v", err)\<close>: the cause survives as text only\<close>
  "prefixed p m = bnd (attempt m) (\<lambda>r. case r of Inl e \<Rightarrow> fail (Plain (p @ err_msg e)) | Inr x \<Rightarrow> ret x)"

definition create_or_update :: "grafana_datasource \<Rightarrow> ('s, unit) M" where
  \<comment> \<open>\<open>createOrUpdateDatasource\<close>\<close>
  "create_or_update ds =
     bnd (new_grafana_client (with_namespace (om_namespace (ds_meta ds)) (ds_ref ds))) (\<lambda>gc.
     case ds_id (ds_status ds) of
       Some i \<Rightarrow> prefixed ''failed to update Datasource, reason: ''
         (update_datasource gc ds ((datasource_of ds)\<lparr>dt_id := go_uint i\<rparr>))
     | None \<Rightarrow> prefixed ''failed to create Datasource, reason: '' (create_datasource gc ds (datasource_of ds)))"

definition delete_external_datasource :: "grafana_datasource \<Rightarrow> ('s, unit) M" where
  "delete_external_datasource ds = (case ds_id (ds_status ds) of
     None \<Rightarrow> ret ()
   | Some i \<Rightarrow>
       bnd (new_grafana_client (with_namespace (om_namespace (ds_meta ds)) (ds_ref ds))) (\<lambda>gc.
       bnd (grafana_call gc (DeleteDatasource i)) (\<lambda>(_, err). case err of
         Some e \<Rightarrow> fail e
       | None \<Rightarrow> ret ())))"

definition failed_datasource :: "string \<Rightarrow> grafana_datasource \<Rightarrow> grafana_datasource" where
  "failed_datasource reason d = d\<lparr>ds_status := (ds_status d)\<lparr>ds_phase := Failed, ds_reason := reason,
     ds_conditions := set_condition (ds_conditions (ds_status d)) (failed_condition reason)\<rparr>\<rparr>"

definition handle_failure :: "grafana_datasource \<Rightarrow> string \<Rightarrow> ('s, unit) M" where
  \<comment> \<open>\<open>handleFailureEvent\<close>: a failing status patch becomes an event\<close>
  "handle_failure ds reason =
     seq (failure_event KGrafanaDatasource ''GrafanaDatasource'' (ds_meta ds) reason)
     (bnd (attempt (patch_status v_ds ds (failed_datasource reason))) (\<lambda>r. case r of
        Inl e \<Rightarrow> seq (send (EventQ KGrafanaDatasource (meta_key (ds_meta ds)) ''failed to update status'' (err_msg e)))
          (ret ())
      | Inr _ \<Rightarrow> ret ()))"

definition terminating_datasource :: "grafana_datasource \<Rightarrow> grafana_datasource" where
  "terminating_datasource d = d\<lparr>ds_status := (ds_status d)\<lparr>ds_phase := Terminating\<rparr>\<rparr>"

definition observed_datasource :: "grafana_datasource \<Rightarrow> grafana_datasource" where
  "observed_datasource d = d\<lparr>ds_status := (ds_status d)\<lparr>ds_phase := Processing, ds_conditions := [],
     ds_observed := om_generation (ds_meta d)\<rparr>\<rparr>"

definition finalized_datasource :: "grafana_datasource \<Rightarrow> grafana_datasource" where
  "finalized_datasource d = d\<lparr>ds_meta := add_finalizer gds_finalizer (ds_meta d)\<rparr>"

definition unfinalized_datasource :: "grafana_datasource \<Rightarrow> grafana_datasource" where
  "unfinalized_datasource d = d\<lparr>ds_meta := remove_finalizer gds_finalizer (ds_meta d)\<rparr>"

definition delete_datasource :: "grafana_datasource \<Rightarrow> ('s, unit) M" where
  \<comment> \<open>the deletion branch of \<open>Reconcile\<close>\<close>
  "delete_datasource ds =
     (if gds_finalizer \<notin> set (om_finalizers (ds_meta ds)) then ret () else
      bnd (patch_status v_ds ds terminating_datasource) (\<lambda>ds1.
      seq (delete_external_datasource ds1)
      (seq (create_or_patch v_ds ds1 (\<lambda>d _. unfinalized_datasource d)) (ret ()))))"

definition already_reconciled :: "grafana_datasource \<Rightarrow> bool" where
  \<comment> \<open>\<open>meta_util.MustAlreadyReconciled\<close>\<close>
  "already_reconciled ds = (ds_observed (ds_status ds) = om_generation (ds_meta ds))"

definition sync_datasource :: "grafana_datasource \<Rightarrow> ('s, unit) M" where
  "sync_datasource ds =
     (if gds_finalizer \<notin> set (om_finalizers (ds_meta ds))
      then seq (create_or_patch v_ds ds (\<lambda>d _. finalized_datasource d)) (ret ())
      else if already_reconciled ds then ret ()
      else bnd (patch_status v_ds ds observed_datasource) (\<lambda>ds1.
        bnd (attempt (create_or_update ds1)) (\<lambda>r. case r of
          Inl e \<Rightarrow> seq (handle_failure ds1 (err_msg e)) (fail e)
        | Inr _ \<Rightarrow> ret ())))"

definition datasource_reconcile :: "key \<Rightarrow> ('s, unit) M" where
  \<comment> \<open>\<open>GrafanaDatasourceReconciler.Reconcile\<close>\<close>
  "datasource_reconcile k = fetch (kget v_ds k) (\<lambda>ds.
     if om_deleting (ds_meta ds) then delete_datasource ds else sync_datasource ds)"

subsection \<open>What each part can send\<close>

lemma never_prefixed [trace_intros]: "never q m \<Longrightarrow> never q (prefixed p m)"
  unfolding prefixed_def by (auto split: sum.split intro!: trace_intros)

lemma never_mark_datasource [trace_intros]:
  assumes "\<And>k a. \<not> q (Get KGrafanaDatasource k, a)" "\<And>b n a. \<not> q (StatusPatchQ (OGrafanaDatasource b) (OGrafanaDatasource n), a)"
  shows "never q (mark_datasource ds f)"
  unfolding mark_datasource_def
  by (auto simp: v_ds_def assms split: sum.split intro!: trace_intros)

lemma never_need [trace_intros]: "never q (need x)"
  unfolding need_def by (auto split: option.split intro: trace_intros)

lemma never_failure_event [trace_intros]:
  "(\<And>k r m a. \<not> q (EventQ kd k r m, a)) \<Longrightarrow> never q (failure_event kd what mt reason)"
  unfolding failure_event_def by (intro trace_intros)

text \<open>Outside its status patches and finalizer writes the controller only reads and calls Grafana.\<close>

lemma never_datasource_parts:
  assumes g: "\<And>k a. \<not> q (Get KAppBinding k, a)" "\<And>opts a. \<not> q (ListQ KAppBinding opts, a)"
    "\<And>k a. \<not> q (Get KSecret k, a)" "\<And>k a. \<not> q (Get KGrafanaDatasource k, a)"
    and s: "\<And>b n a. \<not> q (StatusPatchQ (OGrafanaDatasource b) (OGrafanaDatasource n), a)"
    and e: "\<And>k r m a. \<not> q (EventQ KGrafanaDatasource k r m, a)"
  shows "(\<And>gc c a. \<not> q (GrafanaQ gc c, a)) \<Longrightarrow> never q (create_or_update ds)"
    and "(\<And>gc i a. \<not> q (GrafanaQ gc (DeleteDatasource i), a)) \<Longrightarrow> never q (delete_external_datasource ds)"
    and "never q (handle_failure ds reason)"
proof -
  show "never q (create_or_update ds)" if "\<And>gc c a. \<not> q (GrafanaQ gc c, a)"
    unfolding create_or_update_def create_datasource_def update_datasource_def
    by (auto simp: that g s split: option.split intro!: trace_intros)
  show "never q (delete_external_datasource ds)" if "\<And>gc i a. \<not> q (GrafanaQ gc (DeleteDatasource i), a)"
    unfolding delete_external_datasource_def
    by (auto simp: that g split: option.split intro!: trace_intros)
  show "never q (handle_failure ds reason)"
    unfolding handle_failure_def
    by (auto simp: v_ds_def g s e split: sum.split intro!: trace_intros)
qed

subsection \<open>Properties\<close>

fun observes_datasource :: "event \<Rightarrow> bool" where
  \<comment> \<open>the API server accepted a status that has the object's generation as observed\<close>
  "observes_datasource (StatusPatchQ b (OGrafanaDatasource n), a) = (already_reconciled n \<and> \<not> failed a)"
| "observes_datasource _ = False"

fun calls_datasource :: "event \<Rightarrow> bool" where
  "calls_datasource (GrafanaQ gc (CreateDatasource d), a) = True"
| "calls_datasource (GrafanaQ gc (UpdateDatasource d), a) = True"
| "calls_datasource _ = False"

definition settled_datasource :: "grafana_datasource \<Rightarrow> bool" where
  "settled_datasource ds = (\<not> om_deleting (ds_meta ds) \<and> gds_finalizer \<in> set (om_finalizers (ds_meta ds)) \<and>
     already_reconciled ds)"

lemma emits_observed: "emits observes_datasource (patch_status v_ds ds observed_datasource)"
  unfolding patch_status_def patch_status_e_def bnd_simps kpatch_status_def
  by (intro emits_bnd_right emits_answer)
     (simp add: v_ds_def observed_datasource_def already_reconciled_def)

lemma never_calls_datasource:
  "never calls_datasource (patch_status v_ds ds f)"
  "never calls_datasource (delete_datasource ds)"
  "never calls_datasource (create_or_patch v_ds ds g)"
proof -
  show "never calls_datasource (patch_status v_ds ds f)" "never calls_datasource (create_or_patch v_ds ds g)"
    for ds f g by (intro trace_intros; simp add: v_ds_def)+
  then show "never calls_datasource (delete_datasource ds)"
    unfolding delete_datasource_def by (auto intro!: trace_intros never_datasource_parts)
qed

lemma guarded_sync_datasource: "guarded observes_datasource calls_datasource (sync_datasource ds)"
proof -
  have mark: "guarded observes_datasource calls_datasource (bnd (patch_status v_ds ds observed_datasource) f)" for f
    by (rule guarded_after [OF guarded_never [OF never_calls_datasource(1)] emits_observed])
  show ?thesis
    unfolding sync_datasource_def
    by (intro guarded_if mark guarded_skip guarded_never never_bnd never_calls_datasource trace_intros)
qed

text \<open>
  C20: a datasource is tried at most once per generation.  Before the controller asks Grafana to
  create or update one, the API server has recorded the generation as observed; and a run over an
  object whose generation is observed does nothing but read it, whether Grafana took the
  datasource or refused it.
\<close>

theorem datasource_tried_once:
  "guarded observes_datasource calls_datasource (datasource_reconcile k) \<and>
   (kget v_ds k E w = (Ok ds, es, w') \<longrightarrow> settled_datasource ds \<longrightarrow>
      datasource_reconcile k E w = (Ok (), es, w'))"
proof (intro conjI impI)
  show "guarded observes_datasource calls_datasource (datasource_reconcile k)"
    unfolding datasource_reconcile_def
    by (intro guarded_fetch guarded_if guarded_sync_datasource guarded_never never_calls_datasource
        never_calls) (simp add: v_ds_def)
  assume "kget v_ds k E w = (Ok ds, es, w')" "settled_datasource ds"
  then show "datasource_reconcile k E w = (Ok (), es, w')"
    by (simp add: datasource_reconcile_def fetch_def bnd_def attempt_def settled_datasource_def
        sync_datasource_def ret_def)
qed

definition refused_datasource :: grafana_datasource where
  "refused_datasource = \<lparr>ds_meta = (new_meta ''demo'' ''prom'')\<lparr>om_generation := 2, om_finalizers := [gds_finalizer]\<rparr>,
     ds_ref = None, ds_org_id = 1, ds_name = ''prom'', ds_type = ''prometheus'', ds_access = ''proxy'', ds_url = '''',
     ds_is_default = False, ds_status = \<lparr>ds_observed = 2, ds_id = None, ds_phase = Failed, ds_reason = ''refused'',
       ds_conditions = []\<rparr>\<rparr>"

lemma datasource_tried_once_witness:
  "datasource_reconcile (''demo'', ''prom'') script_env (start [RObj (OGrafanaDatasource refused_datasource)]) =
     (Ok (), [(Get KGrafanaDatasource (''demo'', ''prom''), RObj (OGrafanaDatasource refused_datasource))], start [])"
  by (rule datasource_tried_once [THEN conjunct2, rule_format, where ds = refused_datasource])
     (simp_all add: kget_def answer_def send_def script_env_def start_def bnd_def ret_def v_ds_def the_obj_def
       settled_datasource_def refused_datasource_def already_reconciled_def new_meta_def)

fun drops_datasource_finalizer :: "event \<Rightarrow> bool" where
  "drops_datasource_finalizer (PatchQ (OGrafanaDatasource b) (OGrafanaDatasource n), _) =
     (gds_finalizer \<in> set (om_finalizers (ds_meta b)) \<and> gds_finalizer \<notin> set (om_finalizers (ds_meta n)))"
| "drops_datasource_finalizer _ = False"

definition datasource_gone :: "event \<Rightarrow> bool" where
  \<comment> \<open>Grafana deleted the datasource without an error, or the API server says it never had one\<close>
  "datasource_gone e = ((\<exists>gc i r. e = (GrafanaQ gc (DeleteDatasource i), RGrafana r None)) \<or>
     (\<exists>d. the_obj v_ds (snd e) = Some d \<and> ds_id (ds_status d) = None))"

lemma emits_datasource_gone:
  assumes "ds_id (ds_status ds) \<noteq> None"
  shows "emits datasource_gone (delete_external_datasource ds)"
proof -
  obtain i where i: "ds_id (ds_status ds) = Some i" using assms by blast
  have "emits datasource_gone (bnd (grafana_call gc (DeleteDatasource i)) (\<lambda>(_, err). case err of
      Some e \<Rightarrow> fail e | None \<Rightarrow> ret ()))" for gc
    unfolding emits_def grafana_call_def bnd_assoc
    by (rule holds_bnd [where \<Psi> = "\<lambda>r es. \<exists>a. r = Ok a \<and> es = [(GrafanaQ gc (DeleteDatasource i), a)]"])
       (auto simp: run_simps datasource_gone_def split: response.split option.split intro: holds_send)
  then show ?thesis
    unfolding delete_external_datasource_def i option.case by (rule emits_bnd_right)
qed

lemma holds_patched_datasource:
  "holds (patch_status v_ds ds f) (\<lambda>r es. (\<forall>e \<in> set es. \<not> drops_datasource_finalizer e) \<and>
     (\<forall>x. r = Ok x \<longrightarrow> ds_id (ds_status x) = None \<longrightarrow> (\<exists>e \<in> set es. datasource_gone e)))"
  unfolding patch_status_def patch_status_e_def bnd_simps kpatch_status_def
  by (rule holds_bnd [OF never_calls(1) [unfolded never_def]])
     (auto simp: datasource_gone_def intro!: holds_answer)


text \<open>
  The finalizer is removed with \<open>CreateOrPatch\<close>: when the object is gone by then, the controller
  creates it again and reports success.
\<close>

lemma deleted_datasource_recreated:
  assumes "om_deleting (ds_meta ds)" "gds_finalizer \<in> set (om_finalizers (ds_meta ds))" "ds_id (ds_status ds) = None"
  shows "\<exists>es. datasource_reconcile (meta_key (ds_meta ds)) script_env (start [RObj (OGrafanaDatasource ds),
      RObj (OGrafanaDatasource ds), RObj (OGrafanaDatasource (terminating_datasource ds)),
      RErr (ApiErr NotFound ''not found''), RObj (OGrafanaDatasource ds)]) =
      (Ok (), es @ [(CreateQ (set_rversion '''' (OGrafanaDatasource (unfinalized_datasource
         (terminating_datasource ds)))), RObj (OGrafanaDatasource ds))], start [])"
  using assms
  by (auto simp: datasource_reconcile_def delete_datasource_def delete_external_datasource_def fetch_def bnd_def
      attempt_def kget_def answer_def send_def script_env_def start_def ret_def v_ds_def the_obj_def
      patch_status_def patch_status_e_def kpatch_status_def create_or_patch_def kcreate_object_def
      terminating_datasource_def fail_def)

end
