(* ===== verification/Perses_Dashboard_Ctl.thy ===== *)
theory Perses_Dashboard_Ctl imports Grafana_Dashboard_Ctl begin

section \<open>The Perses dashboard controller (pkg/controllers/openviz)\<close>

text \<open>
  \<open>PersesDashboardReconciler\<close> mirrors the Grafana one.  The handler, its state digest (in the cache
  that the Grafana controller uses too), the deletion of the dashboard in Perses and the handler for
  changed AppBindings, which skips dashboards it cannot resolve.
\<close>

definition pdash_finalizer :: string where
  "pdash_finalizer = ''persesdashboard.openviz.dev/finalizer''"

definition perses_params :: "codec \<Rightarrow> app_binding \<Rightarrow> string + perses_config" where
  "perses_params C ab = (case ab_params ab of
     None \<Rightarrow> Inr \<lparr>pc_datasource = '''', pc_folder_name = '''', pc_folder_id = 0, pc_project_name = '''', pc_project_id = 0\<rparr>
   | Some raw \<Rightarrow> dec_perses_cfg C raw)"

definition perses_digest :: "app_binding \<Rightarrow> codec \<Rightarrow> gerr + string" where
  "perses_digest ab C = (case perses_params C ab of
     Inl m \<Rightarrow> Inl (Plain m)
   | Inr cfg \<Rightarrow> (case app_url C ab of
       Inl e \<Rightarrow> Inl e
     | Inr u \<Rightarrow> Inr (sha_b64 C (join '','' [u, pc_datasource cfg, pc_project_name cfg, itoa (pc_project_id cfg),
         pc_folder_name cfg, itoa (pc_folder_id cfg)]))))"

definition perses_state :: "app_binding \<Rightarrow> ('s, gerr + string) M" where
  "perses_state ab = cached_state ab (perses_digest ab)"

definition is_perses_state_changed :: "perses_dashboard \<Rightarrow> app_binding \<Rightarrow> ('s, bool) M" where
  "is_perses_state_changed db ab = (case ps_dashboard (pd_status db) of
     None \<Rightarrow> ret False
   | Some d \<Rightarrow> (case pr_state d of
       None \<Rightarrow> ret False
     | Some old \<Rightarrow> bnd (perses_state ab) (\<lambda>r. ret (case r of Inl _ \<Rightarrow> False | Inr cur \<Rightarrow> cur \<noteq> old))))"

definition perses_ref_of :: "perses_dashboard \<Rightarrow> key option" where
  "perses_ref_of d = with_namespace (om_namespace (pd_meta d)) (pd_ref d)"

subsection \<open>Setting the dashboard\<close>

definition failed_perses :: "string \<Rightarrow> perses_dashboard \<Rightarrow> perses_dashboard" where
  "failed_perses reason d = d\<lparr>pd_status := (pd_status d)\<lparr>ps_phase := Failed, ps_reason := reason,
     ps_conditions := set_condition (ps_conditions (pd_status d)) (failed_condition reason)\<rparr>\<rparr>"

definition handle_perses_error :: "requeue \<Rightarrow> perses_dashboard \<Rightarrow> gerr \<Rightarrow> ('s, requeue) M" where
  "handle_perses_error after obj e =
     seq (failure_event KPersesDashboard ''PeresDashboard'' (pd_meta obj) (err_msg e))
     (seq (patch_status v_pd obj (failed_perses (err_msg e)))
     (ret after))"

definition placed_board :: "perses_config \<Rightarrow> perses_board \<Rightarrow> perses_board" where
  "placed_board cfg b = b\<lparr>pb_project := pc_project_name cfg, pb_project_id := pc_project_id cfg,
     pb_folder := pc_folder_name cfg, pb_folder_id := pc_folder_id cfg\<rparr>"

definition perses_model :: "codec \<Rightarrow> perses_dashboard \<Rightarrow> gerr + perses_board" where
  "perses_model C obj = (case pd_model obj of
     None \<Rightarrow> Inl (Plain ''dashboard model is empty'')
   | Some raw \<Rightarrow> (case dec_perses C raw of Inl m \<Rightarrow> Inl (Plain m) | Inr b \<Rightarrow> Inr b))"

definition prepare_perses :: "perses_dashboard \<Rightarrow> ('s, string \<times> perses_config \<times> perses_client \<times> perses_board) M" where
  \<comment> \<open>\<open>setDashboard\<close> up to the call of Perses\<close>
  "prepare_perses obj =
     bnd (get_perses (perses_ref_of obj)) (\<lambda>ab.
     bnd (bnd (perses_state ab) lift_sum) (\<lambda>state.
     bnd pures (\<lambda>C.
     bnd (lift_sum (case perses_params C ab of
         Inl m \<Rightarrow> Inl (Plain (''failed to unmarshal app binding parameters, reason: '' @ m))
       | Inr cfg \<Rightarrow> Inr cfg)) (\<lambda>cfg.
     bnd (new_perses_client (perses_ref_of obj)) (\<lambda>pc.
     bnd (lift_sum (perses_model C obj)) (\<lambda>b.
     bnd (update_datasource_variable (pc_datasource cfg) (placed_board cfg b)) (\<lambda>b'.
     ret (state, cfg, pc, b'))))))))"

definition current_perses :: "string \<Rightarrow> perses_config \<Rightarrow> string \<Rightarrow> perses_dashboard \<Rightarrow> perses_dashboard" where
  "current_perses state cfg name d = d\<lparr>pd_status := (pd_status d)\<lparr>
     ps_dashboard := Some \<lparr>pr_name = name, pr_project = pc_project_name cfg, pr_folder = pc_folder_name cfg,
       pr_state = Some state\<rparr>,
     ps_phase := Current, ps_observed := om_generation (pd_meta d),
     ps_conditions := set_condition (ps_conditions (pd_status d)) (ready_condition ''Dashboard is successfully created''),
     ps_reason := ''Dashboard is successfully created''\<rparr>\<rparr>"

definition set_perses :: "requeue \<Rightarrow> perses_dashboard \<Rightarrow> ('s, requeue) M" where
  \<comment> \<open>\<open>setDashboard\<close>\<close>
  "set_perses after obj = bnd (attempt (prepare_perses obj)) (\<lambda>r. case r of
     Inl e \<Rightarrow> handle_perses_error after obj e
   | Inr (state, cfg, pc, b) \<Rightarrow>
       bnd (attempt (perses_set pc b (pc_project_name cfg) (pc_folder_name cfg))) (\<lambda>s. case s of
         Inl e \<Rightarrow> handle_perses_error after obj e
       | Inr _ \<Rightarrow> seq (patch_status v_pd obj (current_perses state cfg (pb_name b))) (ret 0)))"

subsection \<open>Deleting the dashboard\<close>

definition delete_external_perses :: "perses_dashboard \<Rightarrow> ('s, unit) M" where
  "delete_external_perses obj = (case ps_dashboard (pd_status obj) of
     None \<Rightarrow> ret ()
   | Some d \<Rightarrow> if pr_name d = '''' then ret () else
       bnd (attempt (new_perses_client (perses_ref_of obj))) (\<lambda>r. case r of
         Inl e \<Rightarrow> if is_not_found e then ret () else fail e
       | Inr pc \<Rightarrow> perses_delete pc d))"

definition terminating_perses :: "perses_dashboard \<Rightarrow> perses_dashboard" where
  "terminating_perses d = d\<lparr>pd_status := (pd_status d)\<lparr>ps_phase := Terminating,
     ps_reason := ''Resource has been going to be deleted''\<rparr>\<rparr>"

definition unfinalized_perses :: "perses_dashboard \<Rightarrow> perses_dashboard" where
  "unfinalized_perses d = d\<lparr>pd_meta := remove_finalizer pdash_finalizer (pd_meta d)\<rparr>"

definition delete_perses :: "perses_dashboard \<Rightarrow> ('s, requeue) M" where
  "delete_perses obj =
     bnd (if ps_phase (pd_status obj) \<noteq> Terminating then patch_status v_pd obj terminating_perses
          else ret obj) (\<lambda>obj1.
     seq (delete_external_perses obj1)
     (seq (ignore_not_found (seq (kpatch v_pd obj1 (unfinalized_perses obj1)) (ret ())))
     (ret 0)))"

subsection \<open>Reconcile and its triggers\<close>

definition finalized_perses :: "perses_dashboard \<Rightarrow> perses_dashboard" where
  "finalized_perses d = d\<lparr>pd_meta := add_finalizer pdash_finalizer (pd_meta d)\<rparr>"

definition processing_perses :: "perses_dashboard \<Rightarrow> perses_dashboard" where
  "processing_perses d = d\<lparr>pd_status := (pd_status d)\<lparr>ps_phase := Processing\<rparr>\<rparr>"

definition sync_perses :: "requeue \<Rightarrow> perses_dashboard \<Rightarrow> ('s, requeue) M" where
  "sync_perses after obj =
     bnd (if pdash_finalizer \<in> set (om_finalizers (pd_meta obj)) then ret obj
          else bnd (create_or_patch v_pd obj (\<lambda>ob _. finalized_perses ob)) (\<lambda>(_, new). ret new)) (\<lambda>obj1.
     bnd (if ps_phase (pd_status obj1) \<noteq> Processing \<and> ps_phase (pd_status obj1) \<noteq> Failed
          then patch_status v_pd obj1 processing_perses else ret obj1) (\<lambda>obj2.
     set_perses after obj2))"

definition perses_reconcile :: "requeue \<Rightarrow> key \<Rightarrow> ('s, requeue) M" where
  \<comment> \<open>\<open>PersesDashboardReconciler.Reconcile\<close>\<close>
  "perses_reconcile after k =
     fetch_result (kget v_pd k) (\<lambda>obj.
     if om_deleting (pd_meta obj) then delete_perses obj else sync_perses after obj)"

definition perses_predicate :: "perses_dashboard \<Rightarrow> ('s, bool) M" where
  "perses_predicate db =
     (if om_deleting (pd_meta db) then ret True
      else if ps_observed (pd_status db) \<noteq> om_generation (pd_meta db) then ret True
      else bnd (attempt (get_perses (perses_ref_of db))) (\<lambda>r. case r of
        Inl _ \<Rightarrow> ret False
      | Inr ab \<Rightarrow> is_perses_state_changed db ab))"

definition concerns :: "app_binding \<Rightarrow> perses_dashboard \<Rightarrow> ('s, bool) M" where
  \<comment> \<open>the body of the loop of \<open>appHandler\<close>\<close>
  "concerns a db =
     bnd (attempt (get_perses (perses_ref_of db))) (\<lambda>r. case r of
       Inl _ \<Rightarrow> ret False
     | Inr ab \<Rightarrow>
         if meta_key (ab_meta ab) = meta_key (ab_meta a)
         then if ps_phase (pd_status db) = Failed then ret True else is_perses_state_changed db a
         else ret False)"

fun perses_of_binding :: "app_binding \<Rightarrow> perses_dashboard list \<Rightarrow> ('s, key list) M" where
  "perses_of_binding a [] = ret []"
| "perses_of_binding a (db # dbs) =
     bnd (concerns a db) (\<lambda>hit.
     bnd (perses_of_binding a dbs) (\<lambda>ks.
     ret ((if hit then [meta_key (pd_meta db)] else []) @ ks)))"

definition perses_for_binding :: "app_binding \<Rightarrow> ('s, key list) M" where
  "perses_for_binding a =
     bnd (attempt (klist v_pd all_opts)) (\<lambda>r. case r of
       Inl _ \<Rightarrow> ret []
     | Inr dbs \<Rightarrow> perses_of_binding a dbs)"

subsection \<open>What each part can send\<close>

lemma never_perses_state [trace_intros]: "never q (perses_state ab)"
  unfolding perses_state_def cached_state_def by (auto simp: Let_def split: option.split intro!: trace_intros)

lemma never_update_variable [trace_intros]: "never q (update_datasource_variable ds b)"
  unfolding update_datasource_variable_def by (auto intro!: trace_intros)

lemma never_perses_parts:
  assumes g: "\<And>k a. \<not> q (Get KAppBinding k, a)" "\<And>opts a. \<not> q (ListQ KAppBinding opts, a)"
    "\<And>k a. \<not> q (Get KSecret k, a)" "\<And>k a. \<not> q (Get KPersesDashboard k, a)"
  shows "never q (prepare_perses obj)"
    and "(\<And>r a. \<not> q (HttpQ r, a)) \<Longrightarrow> never q (delete_external_perses obj)"
    and "(\<And>k r m a. \<not> q (EventQ KPersesDashboard k r m, a)) \<Longrightarrow>
      (\<And>b a. \<not> q (StatusPatchQ (OPersesDashboard b) (OPersesDashboard (failed_perses (err_msg e) b)), a)) \<Longrightarrow>
      never q (handle_perses_error after obj e)"
    and "(\<And>b a. \<not> q (StatusPatchQ (OPersesDashboard b) (OPersesDashboard (f b)), a)) \<Longrightarrow>
      never q (patch_status v_pd obj f)"
proof -
  show "never q (prepare_perses obj)"
    unfolding prepare_perses_def by (auto simp: g intro!: trace_intros)
  show "never q (delete_external_perses obj)" if "\<And>r a. \<not> q (HttpQ r, a)"
    unfolding delete_external_perses_def
    by (auto simp: that g split: option.split sum.split intro!: trace_intros)
  show p: "never q (patch_status v_pd obj f)"
    if "\<And>b a. \<not> q (StatusPatchQ (OPersesDashboard b) (OPersesDashboard (f b)), a)" for obj f
    by (intro trace_intros) (simp_all add: v_pd_def g that)
  show "never q (handle_perses_error after obj e)"
    if "\<And>k r m a. \<not> q (EventQ KPersesDashboard k r m, a)"
      "\<And>b a. \<not> q (StatusPatchQ (OPersesDashboard b) (OPersesDashboard (failed_perses (err_msg e) b)), a)"
    unfolding handle_perses_error_def failure_event_def
    by (intro never_bnd never_send never_ret p that)
qed

lemma never_set_perses:
  assumes g: "\<And>k a. \<not> q (Get KAppBinding k, a)" "\<And>opts a. \<not> q (ListQ KAppBinding opts, a)"
    "\<And>k a. \<not> q (Get KSecret k, a)" "\<And>k a. \<not> q (Get KPersesDashboard k, a)"
    and "\<And>r a. \<not> q (HttpQ r, a)" "\<And>k r m a. \<not> q (EventQ KPersesDashboard k r m, a)"
    and "\<And>b n a. \<not> q (StatusPatchQ (OPersesDashboard b) (OPersesDashboard n), a)"
  shows "never q (set_perses after obj)"
  unfolding set_perses_def
  by (auto simp: assms split: sum.split intro!: never_bnd never_attempt never_ret never_perses_parts never_perses)

lemma explains_new_perses_client [explains_intros]: "explains (new_perses_client r)"
  unfolding new_perses_client_def perses_client_for_def get_perses_def binding_secret_def
  by (auto simp: app_config_of_def connect_perses_def app_url_found Let_def split: option.split sum.splits if_splits
      intro!: explains_intros)

subsection \<open>Properties\<close>

fun drops_perses_finalizer :: "event \<Rightarrow> bool" where
  "drops_perses_finalizer (PatchQ (OPersesDashboard b) (OPersesDashboard n), _) =
     (pdash_finalizer \<in> set (om_finalizers (pd_meta b)) \<and> pdash_finalizer \<notin> set (om_finalizers (pd_meta n)))"
| "drops_perses_finalizer _ = False"

definition named_in_perses :: "perses_dashboard \<Rightarrow> bool" where
  \<comment> \<open>the status says that Perses has this dashboard\<close>
  "named_in_perses d = (\<exists>r. ps_dashboard (pd_status d) = Some r \<and> pr_name r \<noteq> '''')"

definition perses_withdrawn :: "event \<Rightarrow> bool" where
  \<comment> \<open>Perses deleted the dashboard or has none, there is no Perses to ask, or the API server says that
     the dashboard was never put there\<close>
  "perses_withdrawn e = (not_there e \<or>
     (\<exists>pc. perses_answered pc ''DELETE'' (\<lambda>st. st div 100 = 2 \<or> st = 404) e) \<or>
     (\<exists>d. the_obj v_pd (snd e) = Some d \<and> \<not> named_in_perses d))"

lemma emits_perses_withdrawn:
  assumes "named_in_perses obj"
  shows "emits perses_withdrawn (delete_external_perses obj)"
proof -
  obtain d where d: "ps_dashboard (pd_status obj) = Some d" "pr_name d \<noteq> ''''"
    using assms by (auto simp: named_in_perses_def)
  have client: "holds (attempt (new_perses_client r)) (\<lambda>x es. \<forall>e. x = Ok (Inl e) \<longrightarrow> is_not_found e \<longrightarrow>
      (\<exists>v \<in> set es. not_there v))" for r
    by (rule holds_attempt [OF explains_new_perses_client [unfolded explains_def]]) auto
  show ?thesis
    unfolding delete_external_perses_def d option.case emits_def
  proof (simp only: d if_False, rule holds_bnd [OF client])
    fix x :: "gerr + perses_client" and es
    assume I: "\<forall>e. Ok x = Ok (Inl e) \<longrightarrow> is_not_found e \<longrightarrow> (\<exists>v \<in> set es. not_there v)"
    show "holds (case x of Inl e \<Rightarrow> if is_not_found e then ret () else fail e | Inr pc \<Rightarrow> perses_delete pc d)
       (\<lambda>r es'. (\<exists>x. r = Ok x) \<longrightarrow> (\<exists>e \<in> set (es @ es'). perses_withdrawn e))"
    proof (cases x)
      case (Inl e)
      then show ?thesis using I by (auto simp: perses_withdrawn_def)
    next
      case (Inr pc)
      have "emits perses_withdrawn (perses_delete pc d)"
        using emits_perses_delete [of pc d] unfolding emits_def
        by (rule holds_mono) (auto simp: perses_withdrawn_def)
      then show ?thesis
        unfolding Inr sum.case emits_def by (rule holds_mono) auto
    qed
  qed auto
qed

lemma holds_perses_read:
  "holds (kget v_pd k) (\<lambda>r es. (\<forall>e \<in> set es. \<not> drops_perses_finalizer e) \<and>
     (\<forall>x. r = Ok x \<longrightarrow> \<not> named_in_perses x \<longrightarrow> (\<exists>e \<in> set es. perses_withdrawn e)))"
  "holds (patch_status v_pd obj f) (\<lambda>r es. (\<forall>e \<in> set es. \<not> drops_perses_finalizer e) \<and>
     (\<forall>x. r = Ok x \<longrightarrow> \<not> named_in_perses x \<longrightarrow> (\<exists>e \<in> set es. perses_withdrawn e)))"
proof -
  show "holds (kget v_pd k) (\<lambda>r es. (\<forall>e \<in> set es. \<not> drops_perses_finalizer e) \<and>
     (\<forall>x. r = Ok x \<longrightarrow> \<not> named_in_perses x \<longrightarrow> (\<exists>e \<in> set es. perses_withdrawn e)))"
    unfolding kget_def by (rule holds_answer) (auto simp: perses_withdrawn_def)
  show "holds (patch_status v_pd obj f) (\<lambda>r es. (\<forall>e \<in> set es. \<not> drops_perses_finalizer e) \<and>
     (\<forall>x. r = Ok x \<longrightarrow> \<not> named_in_perses x \<longrightarrow> (\<exists>e \<in> set es. perses_withdrawn e)))"
    unfolding patch_status_def patch_status_e_def bnd_simps kpatch_status_def
    by (rule holds_bnd [OF never_calls(1) [unfolded never_def]])
       (auto simp: perses_withdrawn_def intro!: holds_answer)
qed

text \<open>
  C6: the finalizer is taken off a Perses dashboard that Perses knows only after Perses answered the
  request to delete it with 2xx or 404, or the API server answered that there is no such AppBinding
  or secret to reach Perses with.
\<close>

theorem perses_finalizer_last:
  "guarded perses_withdrawn drops_perses_finalizer (perses_reconcile after k)"
proof -
  have x: "never drops_perses_finalizer (delete_external_perses obj)" for obj
    by (rule never_perses_parts) simp_all
  have rest: "guarded perses_withdrawn drops_perses_finalizer (seq (delete_external_perses o1)
      (seq (ignore_not_found (seq (kpatch v_pd o1 (unfinalized_perses o1)) (ret ()))) (ret (0 :: int))))"
    if "named_in_perses o1" for o1
    by (rule guarded_after [OF guarded_never [OF x] emits_perses_withdrawn [OF that]])
  have d: "guarded perses_withdrawn drops_perses_finalizer (delete_perses obj)" if "named_in_perses obj" for obj
  proof -
    have "holds (if ps_phase (pd_status obj) \<noteq> Terminating then patch_status v_pd obj terminating_perses
        else ret obj) (\<lambda>r es. (\<forall>e \<in> set es. \<not> drops_perses_finalizer e) \<and>
          (\<forall>x. r = Ok x \<longrightarrow> \<not> named_in_perses x \<longrightarrow> (\<exists>e \<in> set es. perses_withdrawn e)))"
      using that by (auto intro: holds_perses_read)
    then show ?thesis
      unfolding delete_perses_def by (rule guarded_read) (simp add: rest)
  qed
  have s: "never drops_perses_finalizer (sync_perses after obj)" for obj
  proof -
    have "never drops_perses_finalizer (create_or_patch v_pd obj (\<lambda>ob _. finalized_perses ob))"
      by (intro trace_intros) (simp_all add: v_pd_def finalized_perses_def)
    then show ?thesis
      unfolding sync_perses_def
      by (auto intro!: never_bnd never_ret never_set_perses never_perses_parts)
  qed
  show ?thesis
    unfolding perses_reconcile_def
    by (rule guarded_read_result [OF holds_perses_read(1)]) (simp add: d guarded_never [OF s])
qed

fun marks_perses_current :: "event \<Rightarrow> bool" where
  "marks_perses_current (StatusPatchQ _ (OPersesDashboard n), _) = (ps_phase (pd_status n) = Current)"
| "marks_perses_current _ = False"

definition perses_took :: "event \<Rightarrow> bool" where
  \<comment> \<open>Perses answered a POST with 2xx, or with 409: it has a dashboard of that name already\<close>
  "perses_took e = (\<exists>pc. perses_answered pc ''POST'' (\<lambda>st. st div 100 = 2 \<or> st = 409) e)"

text \<open>
  A Perses dashboard is marked as current only after Perses answered the request to create it
  with 2xx or 409 in this very run.
\<close>

theorem perses_current_means_answered:
  "guarded perses_took marks_perses_current (perses_reconcile after k)"
proof -
  have set: "emits perses_took (perses_set pc b prj folder)" for pc b prj folder
    using emits_perses_set [of pc b prj folder] unfolding emits_def
    by (rule holds_mono) (auto simp: perses_took_def)
  have e: "never marks_perses_current (handle_perses_error after obj e)" for obj e
    by (rule never_perses_parts) (simp_all add: failed_perses_def)
  have call: "guarded perses_took marks_perses_current (bnd (attempt (perses_set pc b prj folder)) (\<lambda>s. case s of
      Inl e \<Rightarrow> handle_perses_error after obj e
    | Inr _ \<Rightarrow> seq (patch_status v_pd obj f) (ret 0)))" for pc b prj folder obj f
  proof (rule guarded_read [where P = "\<lambda>s. \<exists>u. s = Inr u"])
    show "holds (attempt (perses_set pc b prj folder)) (\<lambda>r es. (\<forall>e \<in> set es. \<not> marks_perses_current e) \<and>
        (\<forall>x. r = Ok x \<longrightarrow> (\<exists>u. x = Inr u) \<longrightarrow> (\<exists>e \<in> set es. perses_took e)))"
      by (rule holds_attempt [OF holds_conj [OF never_perses(1) [unfolded never_def] set [unfolded emits_def]]]) auto
  qed (auto split: sum.split intro: guarded_never e)
  have s: "guarded perses_took marks_perses_current (set_perses after obj)" for obj
    unfolding set_perses_def
    by (intro guarded_bnd guarded_attempt guarded_never [OF never_perses_parts(1)])
       (auto simp: call guarded_never [OF e] split: sum.split)
  have p: "never marks_perses_current (patch_status v_pd obj processing_perses)"
    "never marks_perses_current (create_or_patch v_pd obj g)" "never marks_perses_current (kget v_pd k)" for obj g k
    by (intro trace_intros; simp add: v_pd_def processing_perses_def)+
  have d: "never marks_perses_current (delete_perses obj)" for obj
    unfolding delete_perses_def
    by (auto simp: v_pd_def terminating_perses_def intro!: trace_intros never_perses_parts)
  show ?thesis
    unfolding perses_reconcile_def sync_perses_def case_prod_unfold
    by (intro guarded_fetch_result guarded_if guarded_bnd guarded_skip s p [THEN guarded_never] guarded_never [OF d])
qed

definition lookup_request :: "perses_dashboard \<Rightarrow> request" where
  \<comment> \<open>the request that finds the AppBinding of a dashboard\<close>
  "lookup_request db = (case perses_ref_of db of
     Some k \<Rightarrow> Get KAppBinding k
   | None \<Rightarrow> ListQ KAppBinding (all_opts\<lparr>lo_fields := [(default_perses_key, ''true'')]\<rparr>))"

lemma holds_concerns:
  "holds (concerns a db) (\<lambda>r es. (\<exists>b. r = Ok b) \<and> lookup_request db \<in> fst ` set es)"
proof -
  have st: "holds (is_perses_state_changed db a) (\<lambda>r es. \<exists>b. r = Ok b)"
    by (auto simp: is_perses_state_changed_def perses_state_def cached_state_def Let_def holds_def bnd_def ret_def
        get_world_def put_world_def pures_def split: option.split)
  have find: "holds (attempt (get_perses (perses_ref_of db))) (\<lambda>r es. (\<exists>x. r = Ok x) \<and> lookup_request db \<in> fst ` set es)"
  proof (rule holds_attempt [where \<Psi> = "\<lambda>r es. (\<forall>p. r \<noteq> Panic p) \<and> lookup_request db \<in> fst ` set es"])
    show "holds (get_perses (perses_ref_of db)) (\<lambda>r es. (\<forall>p. r \<noteq> Panic p) \<and> lookup_request db \<in> fst ` set es)"
    proof (cases "perses_ref_of db")
      case (Some k)
      show ?thesis
        unfolding Some get_perses_def find_binding_def option.case lookup_request_def kget_def
        by (rule holds_bnd [where \<Psi> = "\<lambda>r es. (\<exists>x. r = Ok x) \<and> Get KAppBinding k \<in> fst ` set es"],
            rule holds_attempt [OF holds_answer [where \<Phi> = "\<lambda>r es. (\<forall>p. r \<noteq> Panic p) \<and> Get KAppBinding k \<in> fst ` set es"]])
           (auto simp: v_ab_def split: sum.split)
    next
      case None
      let ?q = "ListQ KAppBinding (all_opts\<lparr>lo_fields := [(default_perses_key, ''true'')]\<rparr>)"
      show ?thesis
        unfolding None get_perses_def find_binding_def option.case lookup_request_def klist_def
        by (rule holds_bnd [OF holds_answer [where \<Phi> = "\<lambda>r es. (\<forall>p. r \<noteq> Panic p) \<and> ?q \<in> fst ` set es"]])
           (auto simp: v_ab_def split: list.split)
    qed
  qed auto
  show ?thesis
    unfolding concerns_def
  proof (rule holds_bnd [OF find])
    fix x :: "gerr + app_binding" and es :: "event list"
    assume I: "(\<exists>y. Ok x = Ok y) \<and> lookup_request db \<in> fst ` set es"
    have "holds (case x of Inl _ \<Rightarrow> ret False
       | Inr ab \<Rightarrow> if meta_key (ab_meta ab) = meta_key (ab_meta a)
           then if ps_phase (pd_status db) = Failed then ret True else is_perses_state_changed db a
           else ret False) (\<lambda>r es. \<exists>b. r = Ok b)"
      by (auto simp: st split: sum.split)
    then show "holds (case x of Inl _ \<Rightarrow> ret False
       | Inr ab \<Rightarrow> if meta_key (ab_meta ab) = meta_key (ab_meta a)
           then if ps_phase (pd_status db) = Failed then ret True else is_perses_state_changed db a
           else ret False) (\<lambda>r es'. (\<exists>b. r = Ok b) \<and> lookup_request db \<in> fst ` set (es @ es'))"
      by (rule holds_mono) (use I in auto)
  qed auto
qed

text \<open>
  When an AppBinding changes, the AppBinding of every Perses dashboard is looked up, whatever the
  lookups of the others answered, and only dashboards of the list are enqueued.
\<close>

theorem perses_handler_examines_all:
  "holds (perses_of_binding a dbs :: ('s, key list) M) (\<lambda>r es. (\<exists>ks. r = Ok ks \<and> set ks \<subseteq> (meta_key \<circ> pd_meta) ` set dbs) \<and>
     lookup_request ` set dbs \<subseteq> fst ` set es)"
proof (induction dbs)
  case (Cons db dbs)
  show ?case
    unfolding perses_of_binding.simps
  proof (rule holds_bnd [OF holds_concerns])
    fix hit :: bool and es :: "event list" assume I: "(\<exists>b. Ok hit = Ok b) \<and> lookup_request db \<in> fst ` set es"
    show "holds (bnd (perses_of_binding a dbs) (\<lambda>ks. ret ((if hit then [meta_key (pd_meta db)] else []) @ ks))
        :: ('s, key list) M)
      (\<lambda>r es'. (\<exists>ks. r = Ok ks \<and> set ks \<subseteq> (meta_key \<circ> pd_meta) ` set (db # dbs)) \<and>
         lookup_request ` set (db # dbs) \<subseteq> fst ` set (es @ es'))"
      by (rule holds_bnd [OF Cons]) (use I in auto)
  qed auto
qed simp

end
