(* ===== verification/State_Cache.thy ===== *)
theory State_Cache imports Perses_Dashboard_Ctl begin

section \<open>The cache of AppBinding states (pkg/controllers/openviz)\<close>

text \<open>
  \<open>GrafanaState\<close> and \<open>PersesState\<close> keep their results in one process-wide map keyed by UID and
  generation.  The locale \<open>memo\<close> is the contract of such a map: a store that answers what was put
  last, and a key that decides the value among the arguments that occur.  Both uses of the map are
  interpretations, for a history that gives each key the AppBinding it names.
\<close>

locale memo =
  fixes lookup :: "'c \<Rightarrow> 'k \<Rightarrow> 'v option" and store :: "'k \<Rightarrow> 'v \<Rightarrow> 'c \<Rightarrow> 'c"
    and key_of :: "'x \<Rightarrow> 'k" and compute :: "'x \<Rightarrow> 'v" and known :: "'x set"
  assumes lookup_store: "lookup (store k v c) k' = (if k' = k then Some v else lookup c k')"
    and key_decides: "x \<in> known \<Longrightarrow> y \<in> known \<Longrightarrow> key_of x = key_of y \<Longrightarrow> compute x = compute y"
begin

definition coherent :: "'c \<Rightarrow> bool" where
  "coherent c = (\<forall>x \<in> known. \<forall>v. lookup c (key_of x) = Some v \<longrightarrow> v = compute x)"

definition memoized :: "'x \<Rightarrow> 'c \<Rightarrow> 'v \<times> 'c" where
  "memoized x c = (case lookup c (key_of x) of
     Some v \<Rightarrow> (v, c)
   | None \<Rightarrow> (compute x, store (key_of x) (compute x) c))"

lemma coherent_empty: "(\<And>k. lookup c k = None) \<Longrightarrow> coherent c"
  by (simp add: coherent_def)

lemma memoized_correct:
  assumes "x \<in> known" "coherent c"
  shows "fst (memoized x c) = compute x" "coherent (snd (memoized x c))"
proof -
  show "fst (memoized x c) = compute x"
    using assms by (auto simp: memoized_def coherent_def split: option.split)
  have "v = compute y" if y: "y \<in> known" and l: "lookup (store (key_of x) (compute x) c) (key_of y) = Some v" for y v
  proof (cases "key_of y = key_of x")
    case True
    then show ?thesis using l key_decides [OF assms(1) y] by (simp add: lookup_store)
  next
    case False
    then show ?thesis using l y assms(2) by (auto simp: lookup_store coherent_def)
  qed
  then show "coherent (snd (memoized x c))"
    using assms(2) by (auto simp: memoized_def coherent_def split: option.split)
qed

fun memoized_all :: "'x list \<Rightarrow> 'c \<Rightarrow> 'v list \<times> 'c" where
  "memoized_all [] c = ([], c)"
| "memoized_all (x # xs) c =
     (case memoized x c of (v, c1) \<Rightarrow> case memoized_all xs c1 of (vs, c2) \<Rightarrow> (v # vs, c2))"

lemma memoized_all_correct:
  "set xs \<subseteq> known \<Longrightarrow> coherent c \<Longrightarrow>
   fst (memoized_all xs c) = map compute xs \<and> coherent (snd (memoized_all xs c))"
proof (induction xs arbitrary: c)
  case (Cons x xs)
  have "coherent (snd (memoized x c))" using Cons.prems by (auto intro: memoized_correct)
  then show ?case
    using Cons.IH [of "snd (memoized x c)"] Cons.prems memoized_correct(1) [of x c]
    by (simp add: case_prod_unfold)
qed simp

end

definition state_key :: "app_binding \<Rightarrow> string \<times> int" where
  \<comment> \<open>\<open>stateKey\<close>\<close>
  "state_key ab = (om_uid (ab_meta ab), om_generation (ab_meta ab))"

definition cache_put :: "string \<times> int \<Rightarrow> gerr + string \<Rightarrow> state_cache \<Rightarrow> state_cache" where
  "cache_put k r c = (k, r) # c"

interpretation grafana_memo: memo map_of cache_put state_key "\<lambda>ab. grafana_digest ab C"
    "{ab. history (state_key ab) = ab}" for history :: "string \<times> int \<Rightarrow> app_binding" and C
  by unfold_locales (auto simp: cache_put_def)

interpretation perses_memo: memo map_of cache_put state_key "\<lambda>ab. perses_digest ab C"
    "{ab. history (state_key ab) = ab}" for history :: "string \<times> int \<Rightarrow> app_binding" and C
  by unfold_locales (auto simp: cache_put_def)

lemma cached_state_run:
  "cached_state ab digest E w = (case map_of (w_states w) (state_key ab) of
     Some r \<Rightarrow> (Ok r, [], w)
   | None \<Rightarrow> (Ok (digest (codecs E)), [],
       w\<lparr>w_states := cache_put (state_key ab) (digest (codecs E)) (w_states w)\<rparr>))"
  by (auto simp: cached_state_def state_key_def cache_put_def bnd_def ret_def get_world_def put_world_def pures_def
      Let_def split: option.split)

fun states_of :: "('s, gerr + string) M list \<Rightarrow> ('s, (gerr + string) list) M" where
  \<comment> \<open>lookups one after the other\<close>
  "states_of [] = ret []"
| "states_of (m # ms) = bnd m (\<lambda>r. bnd (states_of ms) (\<lambda>rs. ret (r # rs)))"

lemma grafana_states_run:
  fixes E :: "'s env"
  shows "states_of (map grafana_state bs) E w =
    (case grafana_memo.memoized_all (codecs E) bs (w_states w) of (rs, c) \<Rightarrow> (Ok rs, [], w\<lparr>w_states := c\<rparr>))"
proof (induction bs arbitrary: w)
  case (Cons ab bs)
  then show ?case
    by (auto simp: bnd_def ret_def grafana_state_def cached_state_run grafana_memo.memoized_def
        split: option.split prod.split)
qed (simp add: ret_def)

lemma perses_states_run:
  fixes E :: "'s env"
  shows "states_of (map perses_state bs) E w =
    (case perses_memo.memoized_all (codecs E) bs (w_states w) of (rs, c) \<Rightarrow> (Ok rs, [], w\<lparr>w_states := c\<rparr>))"
proof (induction bs arbitrary: w)
  case (Cons ab bs)
  then show ?case
    by (auto simp: bnd_def ret_def perses_state_def cached_state_run perses_memo.memoized_def
        split: option.split prod.split)
qed (simp add: ret_def)



text \<open>
  The two kinds share the map without a mark of the kind in the key: an AppBinding used for both
  gets Grafana's digest as its Perses state.
\<close>

lemma shared_cache_mixes_kinds:
  "outcome_of (seq (grafana_state ab) (perses_state ab) E (start s)) = Ok (grafana_digest ab (codecs E))"
  by (simp add: grafana_state_def perses_state_def cached_state_run bnd_def outcome_of_def start_def cache_put_def)

end
