(* ===== verification/Run_Bounds.thy ===== *)
theory Run_Bounds imports Grafana_Datasource_Ctl State_Cache begin

section \<open>How long a run can be\<close>

text \<open>
  \<open>at_most n m\<close>: no run of m, in any environment, makes more than n calls.  The rules add the calls
  of the parts; the property bounds the three controllers of pkg/controllers/openviz, whose handlers
  retry nothing themselves.
\<close>

definition at_most :: "nat \<Rightarrow> ('s, 'a) M \<Rightarrow> bool" where
  "at_most n m = holds m (\<lambda>_ es. length es \<le> n)"

lemma at_most_mono: "at_most n m \<Longrightarrow> n \<le> k \<Longrightarrow> at_most k m"
  unfolding at_most_def by (erule holds_mono) simp

lemma at_most_0:
  "at_most n (ret x)" "at_most n (fail e)" "at_most n (panic p)" "at_most n pures" "at_most n (get_world f)"
  "at_most n (put_world g)" "at_most n (lift_sum s)"
  by (cases s; simp_all add: at_most_def lift_sum_def holds_pures holds_get_world holds_put_world)+

lemma at_most_bnd:
  assumes m: "at_most a m" and f: "\<And>x. at_most b (f x)"
  shows "at_most (a + b) (bnd m f)"
  unfolding at_most_def
proof (rule holds_bnd [OF m [unfolded at_most_def]])
  fix x es assume "length (es :: event list) \<le> a"
  then show "holds (f x) (\<lambda>r es'. length (es @ es') \<le> a + b)"
    by (intro holds_mono [OF f [unfolded at_most_def]]) simp
qed simp_all

lemma at_most_then:
  \<comment> \<open>the same for a given total\<close>
  assumes "at_most a m" "a \<le> n" "\<And>x. at_most (n - a) (f x)"
  shows "at_most n (bnd m f)"
  using at_most_bnd [OF assms(1, 3)] assms(2) by simp

lemma at_most_attempt: "at_most n m \<Longrightarrow> at_most n (attempt m)"
  unfolding at_most_def by (erule holds_attempt) simp_all

lemma at_most_send: "0 < n \<Longrightarrow> at_most n (send q)"
  unfolding at_most_def by (rule holds_send) simp

lemma at_most_answer: "0 < n \<Longrightarrow> at_most n (answer q g)"
  unfolding at_most_def by (rule holds_answer) simp_all

lemma at_most_calls:
  "0 < n \<Longrightarrow> at_most n (kget v k)" "0 < n \<Longrightarrow> at_most n (klist v opts)" "0 < n \<Longrightarrow> at_most n (kpatch v b y)"
  "0 < n \<Longrightarrow> at_most n (kpatch_status v b y)" "0 < n \<Longrightarrow> at_most n (kcreate_object v ob)"
  unfolding kget_def klist_def kpatch_def kpatch_status_def kcreate_object_def by (simp_all add: at_most_answer)

lemma at_most_ignore_not_found: "at_most n m \<Longrightarrow> at_most n (ignore_not_found m)"
  unfolding ignore_not_found_def
  by (rule at_most_then [OF at_most_attempt]) (auto split: sum.split intro: at_most_0)

lemma at_most_create_or_patch: "at_most 2 (create_or_patch v x f)"
  unfolding create_or_patch_def
  by (rule at_most_then [OF at_most_attempt [OF at_most_calls(1) [of 1]]])
     (auto split: sum.split intro!: at_most_0 at_most_then [OF at_most_calls(3) [of 1]]
       at_most_then [OF at_most_calls(5) [of 1]] at_most_then [OF at_most_0(4) [of 0]])

lemma at_most_patch_status_e: "(\<And>y. at_most 0 (f y)) \<Longrightarrow> at_most 2 (patch_status_e v x f)"
  unfolding patch_status_e_def
  by (rule at_most_then [OF at_most_calls(1) [of 1]], simp, simp, rule at_most_then [where a = 0])
     (auto intro: at_most_calls)

lemma at_most_patch_status: "at_most 2 (patch_status v x f)"
  unfolding patch_status_def by (rule at_most_patch_status_e) (rule at_most_0)

lemma at_most_fetch_result:
  "at_most n m \<Longrightarrow> (\<And>x. at_most k (f x)) \<Longrightarrow> at_most (n + k) (fetch_result m f)"
  unfolding fetch_result_def
  by (rule at_most_bnd [OF at_most_attempt]) (auto split: sum.split intro: at_most_0)

lemma at_most_fetch: "at_most n m \<Longrightarrow> (\<And>x. at_most k (f x)) \<Longrightarrow> at_most (n + k) (fetch m f)"
  unfolding fetch_def
  by (rule at_most_bnd [OF at_most_attempt]) (auto split: sum.split intro: at_most_0)

lemma at_most_need: "at_most 0 (need x)"
  unfolding need_def by (auto split: option.split intro: at_most_0)

subsection \<open>Reaching the backends\<close>

lemma at_most_find_binding: "at_most 1 (find_binding f what r)"
  unfolding find_binding_def
  by (auto split: option.split sum.split list.split
      intro!: at_most_0 at_most_then [OF at_most_attempt [OF at_most_calls(1) [of 1]]] at_most_then [OF at_most_calls(2) [of 1]])

lemma at_most_binding_secret: "at_most 1 (binding_secret ab)"
  unfolding binding_secret_def
  by (auto split: option.split intro!: at_most_0 at_most_then [OF at_most_calls(1) [of 1]])

lemma at_most_clients: "at_most 2 (new_grafana_client r)" "at_most 2 (new_perses_client r)"
  unfolding new_grafana_client_def new_perses_client_def get_grafana_def get_perses_def grafana_client_for_def
    perses_client_for_def
  by (auto intro!: at_most_0 at_most_then [OF at_most_find_binding] at_most_then [OF at_most_binding_secret]
      at_most_then [OF at_most_0(4) [of 0]] at_most_then [OF at_most_0(7) [of 0]])

lemma at_most_state: "at_most 0 (cached_state ab f)"
  unfolding cached_state_def Let_def
  by (auto split: option.split intro!: at_most_0 at_most_then [OF at_most_0(4) [of 0]]
      at_most_then [OF at_most_0(5) [of 0]] at_most_then [OF at_most_0(6) [of 0]])

lemma at_most_grafana_call: "at_most 1 (grafana_call gc c)"
  unfolding grafana_call_def by (auto intro!: at_most_0 at_most_then [OF at_most_send [of 1]])

lemma at_most_failure_event: "at_most 1 (failure_event kd what m reason)"
  unfolding failure_event_def by (auto intro!: at_most_0 at_most_then [OF at_most_send [of 1]])

subsection \<open>Dashboards\<close>

lemma at_most_identified: "at_most 0 (identified_model obj st)" "at_most 0 (templatized_model obj ab cfg m)"
proof -
  have a: "at_most 0 (add_dashboard_id m i u)" for m i u
    unfolding add_dashboard_id_def
    by (auto split: option.split intro!: at_most_0 at_most_then [OF at_most_0(4) [of 0]] at_most_then [OF at_most_0(7) [of 0]])
  show "at_most 0 (identified_model obj st)" "at_most 0 (templatized_model obj ab cfg m)"
    unfolding identified_model_def templatized_model_def
    by (auto split: option.split intro!: at_most_0 at_most_then [OF at_most_need] at_most_then [OF a]
        at_most_then [OF at_most_0(4) [of 0]] at_most_then [OF at_most_0(7) [of 0]])
qed

lemma at_most_prepare_dashboard: "at_most 3 (prepare_dashboard obj)"
proof -
  have st: "at_most 0 (bnd (grafana_state ab) lift_sum)" for ab
    unfolding grafana_state_def by (rule at_most_then [OF at_most_state]) (auto intro: at_most_0)
  show ?thesis
    unfolding prepare_dashboard_def Let_def get_grafana_def
    by (rule at_most_then [OF at_most_find_binding], simp, rule at_most_then [OF st], simp,
        rule at_most_then [OF at_most_identified(1)], simp, rule at_most_then [OF at_most_0(4) [of 0]], simp,
        rule at_most_then [OF at_most_0(7) [of 0]], simp, rule at_most_then [OF at_most_identified(2)], simp,
        rule at_most_then [OF at_most_clients(1)]) (simp_all add: at_most_0)
qed

lemma at_most_handle_set_error: "at_most 3 (handle_set_error after obj e upd)"
  unfolding handle_set_error_def
  by (rule at_most_then [OF at_most_failure_event], simp, rule at_most_then [OF at_most_patch_status])
     (simp_all add: at_most_0)

lemma at_most_publish: "at_most 5 (publish_dashboard after obj p)"
proof -
  have cur: "at_most 0 (current_dashboard st r o1 d)" for st r o1 d
    unfolding current_dashboard_def by (auto intro!: at_most_0 at_most_then [OF at_most_need])
  obtain st m fo gc where p: "p = (st, m, fo, gc)" by (cases p)
  show ?thesis
    unfolding publish_dashboard_def p prod.case
  proof (rule at_most_then [OF at_most_grafana_call], simp, clarsimp split: option.split, intro conjI allI impI)
    fix resp and e :: gerr
    show "at_most 4 (handle_set_error after obj e upd)" for upd
      by (rule at_most_mono [OF at_most_handle_set_error]) simp
    show "at_most 4 (bnd (attempt (answer (GrafanaQ gc GetCurrentOrg) (\<lambda>a. case a of ROrg i \<Rightarrow> Some i | _ \<Rightarrow> None)))
       (\<lambda>r. case r of Inl e \<Rightarrow> handle_set_error after obj e False
         | Inr org \<Rightarrow> seq (patch_status_e v_gd obj (current_dashboard st resp org)) (ret 0)))"
      by (rule at_most_then [OF at_most_attempt [OF at_most_answer [of 1]]])
         (auto split: sum.split intro!: at_most_handle_set_error at_most_0 cur
           at_most_then [OF at_most_patch_status_e])
  qed
qed

lemma at_most_set_dashboard: "at_most 8 (set_dashboard after obj)"
  unfolding set_dashboard_def
  by (rule at_most_then [OF at_most_attempt [OF at_most_prepare_dashboard]])
     (auto split: sum.split intro: at_most_publish at_most_mono [OF at_most_handle_set_error])

lemma at_most_delete_dashboard: "at_most 12 (delete_dashboard obj)"
proof -
  have x: "at_most 3 (delete_external d)" for d
    unfolding delete_external_def
    by (auto split: option.split sum.split intro!: at_most_0 at_most_then [OF at_most_attempt [OF at_most_clients(1)]]
        at_most_then [OF at_most_grafana_call])
  show ?thesis
    unfolding delete_dashboard_def
    by (rule at_most_then [where a = 2], simp add: at_most_patch_status at_most_0, simp,
        rule at_most_then [OF x], simp, rule at_most_then [OF at_most_ignore_not_found [where n = 1]])
       (auto intro!: at_most_0 at_most_then [OF at_most_calls(3) [of 1]])
qed

lemma at_most_sync_dashboard: "at_most 12 (sync_dashboard after obj)"
  unfolding sync_dashboard_def
  by (rule at_most_then [where a = 2], simp add: at_most_0, intro impI at_most_then [OF at_most_create_or_patch],
      simp, clarsimp intro!: at_most_0, simp, rule at_most_then [where a = 2], simp add: at_most_patch_status at_most_0,
      simp, simp add: at_most_set_dashboard)

subsection \<open>Perses dashboards and datasources\<close>

lemma at_most_perses_call: "at_most 1 (perses_call pc meth p body)"
  unfolding perses_call_def
  by (auto intro!: at_most_answer at_most_then [OF at_most_0(4) [of 0]] at_most_then [OF at_most_0(7) [of 0]])

lemma at_most_perses: "at_most 1 (perses_set pc b prj fo)" "at_most 1 (perses_delete pc d)"
  unfolding perses_set_def perses_delete_def
  by (auto intro!: at_most_0 at_most_then [OF at_most_0(4) [of 0]] at_most_then [OF at_most_perses_call])

lemma at_most_prepare_perses: "at_most 3 (prepare_perses obj)"
proof -
  have st: "at_most 0 (bnd (perses_state ab) lift_sum)" for ab
    unfolding perses_state_def by (rule at_most_then [OF at_most_state]) (auto intro: at_most_0)
  have up: "at_most 0 (update_datasource_variable ds b)" for ds b
    unfolding update_datasource_variable_def by (auto intro!: at_most_0 at_most_then [OF at_most_0(7) [of 0]])
  show ?thesis
    unfolding prepare_perses_def get_perses_def
    by (rule at_most_then [OF at_most_find_binding], simp, rule at_most_then [OF st], simp,
        rule at_most_then [OF at_most_0(4) [of 0]], simp, rule at_most_then [OF at_most_0(7) [of 0]], simp,
        rule at_most_then [OF at_most_clients(2)], simp, rule at_most_then [OF at_most_0(7) [of 0]], simp,
        rule at_most_then [OF up]) (simp_all add: at_most_0)
qed

lemma at_most_handle_perses_error: "at_most 3 (handle_perses_error after obj e)"
  unfolding handle_perses_error_def
  by (rule at_most_then [OF at_most_failure_event], simp, rule at_most_then [OF at_most_patch_status])
     (simp_all add: at_most_0)

lemma at_most_set_perses: "at_most 7 (set_perses after obj)"
  unfolding set_perses_def
  by (rule at_most_then [OF at_most_attempt [OF at_most_prepare_perses]])
     (auto split: sum.split intro!: at_most_0 at_most_then [OF at_most_attempt [OF at_most_perses(1)]]
       at_most_then [OF at_most_patch_status] at_most_mono [OF at_most_handle_perses_error])

lemma at_most_perses_branches: "at_most 11 (delete_perses obj)" "at_most 11 (sync_perses after obj)"
proof -
  have x: "at_most 3 (delete_external_perses d)" for d
    unfolding delete_external_perses_def
    by (auto split: option.split sum.split intro!: at_most_0 at_most_then [OF at_most_attempt [OF at_most_clients(2)]]
        at_most_mono [OF at_most_perses(2)])
  show "at_most 11 (delete_perses obj)"
    unfolding delete_perses_def
    by (rule at_most_then [where a = 2], simp add: at_most_patch_status at_most_0, simp,
        rule at_most_then [OF x], simp, rule at_most_then [OF at_most_ignore_not_found [where n = 1]])
       (auto intro!: at_most_0 at_most_then [OF at_most_calls(3) [of 1]])
  show "at_most 11 (sync_perses after obj)"
    unfolding sync_perses_def
    by (rule at_most_then [where a = 2], simp add: at_most_0, intro impI at_most_then [OF at_most_create_or_patch],
        simp, clarsimp intro!: at_most_0, simp, rule at_most_then [where a = 2], simp add: at_most_patch_status at_most_0,
        simp, simp add: at_most_set_perses)
qed

lemma at_most_create_or_update: "at_most 5 (create_or_update ds)"
proof -
  have p: "at_most n (prefixed t m)" if "at_most n m" for n t and m :: "('s, unit) M"
    unfolding prefixed_def
    by (rule at_most_then [OF at_most_attempt [OF that]]) (auto split: sum.split intro: at_most_0)
  have m: "at_most 2 (mark_datasource d f)" for d f
    unfolding mark_datasource_def
    by (rule at_most_then [OF at_most_attempt [OF at_most_patch_status]]) (auto split: sum.split intro: at_most_0)
  have c: "at_most 3 (create_datasource gc d src)" "at_most 3 (update_datasource gc d src)" for gc d src
    unfolding create_datasource_def update_datasource_def
    by (auto split: option.split intro!: at_most_0 at_most_then [OF at_most_grafana_call] at_most_then [OF at_most_need] m)
  show ?thesis
    unfolding create_or_update_def
    by (rule at_most_then [OF at_most_clients(1)]) (auto split: option.split intro: p c)
qed

lemma at_most_datasource_branches: "at_most 11 (delete_datasource ds)" "at_most 11 (sync_datasource ds)"
proof -
  have x: "at_most 3 (delete_external_datasource d)" for d
    unfolding delete_external_datasource_def
    by (auto split: option.split intro!: at_most_0 at_most_then [OF at_most_clients(1)] at_most_then [OF at_most_grafana_call])
  show "at_most 11 (delete_datasource ds)"
    unfolding delete_datasource_def
    by (auto intro!: at_most_0 at_most_then [OF at_most_patch_status] at_most_then [OF x]
        at_most_then [OF at_most_create_or_patch])
  have h: "at_most 4 (handle_failure d reason)" for d reason
    unfolding handle_failure_def
    by (rule at_most_then [OF at_most_failure_event], simp, rule at_most_then [OF at_most_attempt [OF at_most_patch_status]])
       (auto split: sum.split intro!: at_most_0 at_most_then [OF at_most_send [of 1]])
  show "at_most 11 (sync_datasource ds)"
    unfolding sync_datasource_def
    by (auto split: sum.split intro!: at_most_0 at_most_then [OF at_most_create_or_patch] at_most_then [OF at_most_patch_status]
        at_most_then [OF at_most_attempt [OF at_most_create_or_update]] at_most_then [OF h])
qed

text \<open>
  C40: every run of the three controllers ends after a fixed number of calls, whatever the services
  answer: at most 13 for a Grafana dashboard, 12 for a Perses dashboard and 12 for a datasource.
\<close>

theorem openviz_runs_end:
  "at_most 13 (dashboard_reconcile after k) \<and> at_most 12 (perses_reconcile after k) \<and> at_most 12 (datasource_reconcile k)"
proof (intro conjI)
  show "at_most 13 (dashboard_reconcile after k)"
    unfolding dashboard_reconcile_def
    by (rule at_most_mono [OF at_most_fetch_result [OF at_most_calls(1) [of 1], where k = 12]])
       (auto intro: at_most_delete_dashboard at_most_sync_dashboard)
  show "at_most 12 (perses_reconcile after k)"
    unfolding perses_reconcile_def
    by (rule at_most_mono [OF at_most_fetch_result [OF at_most_calls(1) [of 1], where k = 11]])
       (auto intro: at_most_perses_branches)
  show "at_most 12 (datasource_reconcile k)"
    unfolding datasource_reconcile_def
    by (rule at_most_mono [OF at_most_fetch [OF at_most_calls(1) [of 1], where k = 11]])
       (auto intro: at_most_datasource_branches)
qed

end
