(* ===== verification/Detector.thy ===== *)
theory Detector imports Meta_Util begin

section \<open>Which Prometheus and Alertmanager the cluster runs (pkg/detector)\<close>

text \<open>
  \<open>lazyPrometheus\<close> and \<open>lazyAlertmanager\<close> look at the cluster until they know which flavour it
  runs, then keep the answer; their other methods panic before that.  The delegate is
  \<open>w_prom\<close> / \<open>w_am\<close> of the world, because one detector is shared by all controllers.  The lemmas
  show that the answer never changes once given, that a controller that saw \<open>Ready\<close> cannot make
  an accessor panic, what the answer is, and that a cluster has at most one default Prometheus.
\<close>

subsection \<open>Prometheus flavours\<close>

definition openshift_user_ns :: string where
  "openshift_user_ns = ''openshift-user-workload-monitoring''"
definition openshift_user_name :: string where "openshift_user_name = ''user-workload''"
definition openshift_cluster_ns :: string where "openshift_cluster_ns = ''openshift-monitoring''"
definition thanos_querier :: string where "thanos_querier = ''thanos-querier''"
definition rancher_prom_name :: string where "rancher_prom_name = ''rancher-monitoring-prometheus''"
definition rancher_am_name :: string where "rancher_am_name = ''rancher-monitoring-alertmanager''"

fun openshift_managed :: "prom_detector \<Rightarrow> bool" where
  "openshift_managed OpenshiftProm = True"
| "openshift_managed RancherProm = False"
| "openshift_managed (StandaloneProm opn rch sgl) = opn"

fun rancher_managed :: "prom_detector \<Rightarrow> bool" where
  "rancher_managed OpenshiftProm = False"
| "rancher_managed RancherProm = True"
| "rancher_managed (StandaloneProm opn rch sgl) = rch"

fun federated :: "prom_detector \<Rightarrow> bool" where
  "federated RancherProm = True"
| "federated _ = False"

fun is_default :: "key \<Rightarrow> prom_detector \<Rightarrow> bool" where
  "is_default k OpenshiftProm = (k = (openshift_user_ns, openshift_user_name))"
| "is_default k RancherProm = (k = (rancher_ns, rancher_prom_name))"
| "is_default k (StandaloneProm opn rch sgl) = sgl"

fun service_key :: "key \<Rightarrow> prom_detector \<Rightarrow> key" where
  "service_key k OpenshiftProm = (openshift_cluster_ns, thanos_querier)"
| "service_key k _ = k"

fun find_port :: "service_port list \<Rightarrow> string \<Rightarrow> int option" where
  "find_port [] n = None"
| "find_port (p # ps) n = (if sp_name p = n then Some (sp_port p) else find_port ps n)"

definition port_string :: "service \<Rightarrow> string \<Rightarrow> string" where
  "port_string svc n = (case find_port (sv_ports svc) n of Some p \<Rightarrow> itoa p | None \<Rightarrow> '''')"

definition plain_service_spec :: "key \<Rightarrow> service \<Rightarrow> service_spec" where
  "plain_service_spec k svc = \<lparr>ss_scheme = ''http'', ss_name = snd k, ss_namespace = fst k,
     ss_port = port_string svc ''http-web'', ss_path = '''', ss_query = ''''\<rparr>"

fun service_spec :: "key \<Rightarrow> service \<Rightarrow> prom_detector \<Rightarrow> service_spec" where
  \<comment> \<open>\<open>Service(prom, svc)\<close>\<close>
  "service_spec k svc OpenshiftProm = \<lparr>ss_scheme = ''https'', ss_name = thanos_querier,
     ss_namespace = openshift_cluster_ns, ss_port = port_string svc ''web'', ss_path = '''',
     ss_query = ''''\<rparr>"
| "service_spec k svc RancherProm = plain_service_spec k svc"
| "service_spec k svc (StandaloneProm opn rch sgl) = plain_service_spec k svc"

subsection \<open>The lazy detector\<close>

definition err_unknown :: gerr where "err_unknown = Sentinel ''unknown''"
definition err_not_ready :: gerr where "err_not_ready = Sentinel ''not ready''"

definition set_prom :: "prom_detector \<Rightarrow> ('s, unit) M" where
  "set_prom d = put_world (\<lambda>w. w\<lparr>w_prom := Some d\<rparr>)"

definition prom_detect :: "('s, unit) M" where
  "prom_detect =
     bnd (klist v_prom all_opts) (\<lambda>items.
     if items = [] then fail err_unknown else
     bnd is_rancher_managed (\<lambda>rancher.
     if rancher then
       if (\<exists>ob \<in> set items. meta_key (pm_meta ob) = (rancher_ns, rancher_prom_name))
       then set_prom RancherProm
       else set_prom (StandaloneProm False True (length items = 1))
     else
     bnd is_openshift_managed (\<lambda>openshift.
     if openshift then
       if (\<exists>ob \<in> set items. meta_key (pm_meta ob) = (openshift_user_ns, openshift_user_name))
       then set_prom OpenshiftProm
       else fail err_not_ready
     else set_prom (StandaloneProm False False (length items = 1)))))"

definition prom_ready :: "('s, bool) M" where
  \<comment> \<open>\<open>Ready()\<close>: the pair (false, err) is the outcome \<open>Err err\<close>\<close>
  "prom_ready =
     bnd (get_world w_prom) (\<lambda>d. case d of
       Some _ \<Rightarrow> ret True
     | None \<Rightarrow> bnd (attempt prom_detect) (\<lambda>r. case r of
         Inl e \<Rightarrow> if e = err_not_ready then ret False else fail e
       | Inr _ \<Rightarrow> ret True))"

definition with_prom :: "(prom_detector \<Rightarrow> 'a) \<Rightarrow> ('s, 'a) M" where
  \<comment> \<open>every accessor: \<open>OpenShiftManaged\<close>, \<open>RancherManaged\<close>, \<open>Federated\<close>, \<open>IsDefault\<close>, \<open>ServiceKey\<close>, \<open>Service\<close>\<close>
  "with_prom f = bnd (get_world w_prom) (\<lambda>d. case d of
     None \<Rightarrow> panic ''not ready''
   | Some d \<Rightarrow> ret (f d))"

fun find_default :: "prometheus list \<Rightarrow> ('s, prometheus option) M" where
  \<comment> \<open>\<open>slices.IndexFunc\<close> over \<open>d.IsDefault\<close>\<close>
  "find_default [] = ret None"
| "find_default (p # ps) = bnd (with_prom (is_default (meta_key (pm_meta p)))) (\<lambda>b.
     if b then ret (Some p) else find_default ps)"

definition default_prometheus :: "prometheus list \<Rightarrow> ('s, prometheus option) M" where
  "default_prometheus ps =
     (if ps = [] then ret None else
      bnd is_openshift_managed (\<lambda>openshift.
      if openshift then find_default ps else ret (Some (hd ps))))"

subsection \<open>Alertmanager\<close>

fun am_openshift_managed :: "am_detector \<Rightarrow> bool" where
  "am_openshift_managed OpenshiftAM = True"
| "am_openshift_managed RancherAM = False"
| "am_openshift_managed (StandaloneAM opn rch sgl) = opn"

fun am_rancher_managed :: "am_detector \<Rightarrow> bool" where
  "am_rancher_managed OpenshiftAM = False"
| "am_rancher_managed RancherAM = True"
| "am_rancher_managed (StandaloneAM opn rch sgl) = rch"

fun am_federated :: "am_detector \<Rightarrow> bool" where
  "am_federated RancherAM = True"
| "am_federated _ = False"

fun am_is_default :: "key \<Rightarrow> am_detector \<Rightarrow> bool" where
  "am_is_default k OpenshiftAM = (k = (openshift_user_ns, openshift_user_name))"
| "am_is_default k RancherAM = (k = (rancher_ns, rancher_am_name))"
| "am_is_default k (StandaloneAM opn rch sgl) = sgl"

definition set_am :: "am_detector \<Rightarrow> ('s, unit) M" where
  "set_am d = put_world (\<lambda>w. w\<lparr>w_am := Some d\<rparr>)"

definition am_detect :: "('s, unit) M" where
  "am_detect =
     bnd (klist v_am all_opts) (\<lambda>items.
     if items = [] then fail err_unknown else
     bnd is_rancher_managed (\<lambda>rancher.
     if rancher then
       if (\<exists>ob \<in> set items. meta_key (am_meta ob) = (rancher_ns, rancher_am_name))
       then set_am RancherAM
       else set_am (StandaloneAM False True (length items = 1))
     else
     bnd is_openshift_managed (\<lambda>openshift.
     if openshift then
       if (\<exists>ob \<in> set items. meta_key (am_meta ob) = (openshift_user_ns, openshift_user_name))
       then set_am OpenshiftAM
       else fail err_not_ready
     else set_am (StandaloneAM False False (length items = 1)))))"

definition am_ready :: "('s, bool) M" where
  "am_ready =
     bnd (get_world w_am) (\<lambda>d. case d of
       Some _ \<Rightarrow> ret True
     | None \<Rightarrow> bnd (attempt am_detect) (\<lambda>r. case r of
         Inl e \<Rightarrow> if e = err_not_ready then ret False else fail e
       | Inr _ \<Rightarrow> ret True))"

definition with_am :: "(am_detector \<Rightarrow> 'a) \<Rightarrow> ('s, 'a) M" where
  "with_am f = bnd (get_world w_am) (\<lambda>d. case d of
     None \<Rightarrow> panic ''not ready''
   | Some d \<Rightarrow> ret (f d))"

subsection \<open>Lemmas\<close>

lemma never_detector [trace_intros]:
  assumes "\<And>opts a. \<not> q (ListQ KPrometheus opts, a)" "\<And>g k a. \<not> q (RestMapping g k, a)"
  shows "never q prom_detect" "never q prom_ready"
proof -
  show d: "never q prom_detect"
    unfolding prom_detect_def set_prom_def
    by (intro trace_intros) (auto simp: kinds assms intro!: trace_intros)
  show "never q prom_ready"
    unfolding prom_ready_def by (intro trace_intros d) (auto split: option.split sum.split intro!: trace_intros d)
qed

lemma never_with_prom [trace_intros]: "never q (with_prom f)"
  unfolding with_prom_def by (intro trace_intros) (auto split: option.split intro: trace_intros)

lemma never_find_default [trace_intros]: "never q (find_default ps)"
  by (induction ps) (auto intro!: trace_intros)

lemma never_default_prometheus [trace_intros]:
  "(\<And>g k a. \<not> q (RestMapping g k, a)) \<Longrightarrow> never q (default_prometheus ps)"
  unfolding default_prometheus_def by (auto intro!: trace_intros)

lemma never_am [trace_intros]:
  assumes "\<And>opts a. \<not> q (ListQ KAlertmanager opts, a)" "\<And>g k a. \<not> q (RestMapping g k, a)"
  shows "never q am_detect" "never q am_ready"
proof -
  show d: "never q am_detect"
    unfolding am_detect_def set_am_def
    by (intro trace_intros) (auto simp: kinds assms intro!: trace_intros)
  show "never q am_ready"
    unfolding am_ready_def by (intro trace_intros d) (auto split: option.split sum.split intro!: trace_intros d)
qed

lemma never_with_am [trace_intros]: "never q (with_am f)"
  unfolding with_am_def by (intro trace_intros) (auto split: option.split intro: trace_intros)

lemma prom_ready_True:
  assumes "prom_ready E w = (Ok True, es, w')"
  shows "\<exists>d. w_prom w' = Some d"
proof (cases "w_prom w")
  case None
  then obtain es1 where "prom_detect E w = (Ok (), es1, w')"
    using assms
    by (auto simp: prom_ready_def bnd_def get_world_def attempt_def ret_def fail_def
        split: prod.splits outcome.splits sum.splits if_splits)
  then show ?thesis
    by (auto simp: prom_detect_def set_prom_def bnd_def put_world_def ret_def fail_def
        split: prod.splits outcome.splits if_splits)
next
  case (Some d)
  then show ?thesis
    using assms by (auto simp: prom_ready_def bnd_def get_world_def ret_def)
qed

lemma prom_ready_set:
  "w_prom w = Some d \<Longrightarrow> prom_ready E w = (Ok True, [], w)"
  by (simp add: prom_ready_def bnd_def get_world_def ret_def)

lemma with_prom_set:
  "w_prom w = Some d \<Longrightarrow> with_prom f E w = (Ok (f d), [], w)"
  by (simp add: with_prom_def bnd_def get_world_def ret_def)

lemma with_prom_unset:
  "w_prom w = None \<Longrightarrow> with_prom f E w = (Panic ''not ready'', [], w)"
  by (simp add: with_prom_def bnd_def get_world_def panic_def)

subsection \<open>The flavour, as a specification\<close>

definition flavour :: "bool \<Rightarrow> bool \<Rightarrow> key list \<Rightarrow> gerr + prom_detector" where
  \<comment> \<open>what the documentation of the three flavours says, from the two cluster tests and the
     names of the Prometheus objects\<close>
  "flavour rancher openshift names =
     (if names = [] then Inl err_unknown
      else if rancher then Inr (if (rancher_ns, rancher_prom_name) \<in> set names then RancherProm
        else StandaloneProm False True (length names = 1))
      else if openshift then (if (openshift_user_ns, openshift_user_name) \<in> set names
        then Inr OpenshiftProm else Inl err_not_ready)
      else Inr (StandaloneProm False False (length names = 1)))"

definition cluster_answers :: "'s env \<Rightarrow> prometheus list \<Rightarrow> bool \<Rightarrow> bool \<Rightarrow> bool" where
  \<comment> \<open>an environment that answers the three questions of the detector so, in every state\<close>
  "cluster_answers E ps rancher openshift =
     (\<forall>s. (\<exists>s'. exec E (ListQ KPrometheus all_opts) s = (RObjs (map OPrometheus ps), s')) \<and>
       (\<exists>a s'. exec E (RestMapping ''management.cattle.io'' ''Cluster'') s = (a, s') \<and> failed a = (\<not> rancher)) \<and>
       (\<exists>a s'. exec E (RestMapping ''project.openshift.io'' ''Project'') s = (a, s') \<and> failed a = (\<not> openshift)))"

lemma klist_proms:
  assumes "cluster_answers E ps rancher openshift"
  shows "\<exists>es w'. klist v_prom all_opts E w = (Ok ps, es, w') \<and> w_prom w' = w_prom w"
proof -
  obtain s where "exec E (ListQ KPrometheus all_opts) (w_ext w) = (RObjs (map OPrometheus ps), s)"
    using assms unfolding cluster_answers_def by blast
  moreover have "those (map (unwrap v_prom) (map OPrometheus ps)) = Some ps"
    by (rule those_map_Some) (simp add: v_prom_def)
  ultimately show ?thesis
    by (simp add: klist_def answer_def bnd_def send_def the_list_def ret_def v_prom_def)
qed

lemma rancher_test:
  assumes "cluster_answers E ps rancher openshift"
  shows "\<exists>es w'. is_rancher_managed E w = (Ok rancher, es, w') \<and> w_prom w' = w_prom w"
proof -
  obtain a s where "exec E (RestMapping ''management.cattle.io'' ''Cluster'') (w_ext w) = (a, s)"
    "failed a = (\<not> rancher)"
    using assms unfolding cluster_answers_def by blast
  then show ?thesis by (simp add: is_rancher_managed_def bnd_def send_def ret_def)
qed

lemma openshift_test:
  assumes "cluster_answers E ps rancher openshift"
  shows "\<exists>es w'. is_openshift_managed E w = (Ok openshift, es, w') \<and> w_prom w' = w_prom w"
proof -
  obtain a s where "exec E (RestMapping ''project.openshift.io'' ''Project'') (w_ext w) = (a, s)"
    "failed a = (\<not> openshift)"
    using assms unfolding cluster_answers_def by blast
  then show ?thesis by (simp add: is_openshift_managed_def bnd_def send_def ret_def)
qed

lemma prom_detect_flavour:
  assumes E: "cluster_answers E ps rancher openshift"
  shows "\<exists>es w'. prom_detect E w =
     (case flavour rancher openshift (map (meta_key \<circ> pm_meta) ps) of
        Inl e \<Rightarrow> Err e | Inr _ \<Rightarrow> Ok (), es, w') \<and>
     w_prom w' = (case flavour rancher openshift (map (meta_key \<circ> pm_meta) ps) of
        Inl _ \<Rightarrow> w_prom w | Inr d \<Rightarrow> Some d)"
proof -
  obtain es1 w1 where 1: "klist v_prom all_opts E w = (Ok ps, es1, w1)" "w_prom w1 = w_prom w"
    using klist_proms [OF E] by blast
  obtain es2 w2 where 2: "is_rancher_managed E w1 = (Ok rancher, es2, w2)" "w_prom w2 = w_prom w1"
    using rancher_test [OF E] by blast
  obtain es3 w3 where 3: "is_openshift_managed E w2 = (Ok openshift, es3, w3)" "w_prom w3 = w_prom w2"
    using openshift_test [OF E] by blast
  note names = image_iff eq_commute [of "(_, _)" "meta_key _"]
  show ?thesis
    using 1 2 3
    by (simp add: prom_detect_def bnd_def flavour_def fail_def set_prom_def put_world_def names)
qed

lemma single_default:
  assumes "flavour rancher openshift names = Inr d" "distinct names"
  shows "length (filter (\<lambda>k. is_default k d) names) \<le> 1"
proof -
  have one: "length (filter (\<lambda>k. k = c) names) \<le> 1" for c :: key
    using assms(2) by (induction names) (auto simp: filter_empty_conv)
  have sing: "length (filter (\<lambda>k. length names = 1) names) \<le> 1"
    by (cases "length names = 1") auto
  show ?thesis
    using assms(1) one sing by (auto simp: flavour_def split: if_splits)
qed

subsection \<open>Properties\<close>

text \<open>
  The controllers share one detector and their calls interleave: \<open>prom_steps\<close> is any sequence
  of \<open>Ready\<close> calls, with whatever the services answer, and of steps that leave the delegate alone.
\<close>

inductive prom_steps :: "'s env \<Rightarrow> 's world \<Rightarrow> 's world \<Rightarrow> bool" for E where
  refl: "prom_steps E w w"
| ready: "prom_steps E w w1 \<Longrightarrow> prom_ready E w1 = (r, es, w2) \<Longrightarrow> prom_steps E w w2"
| other: "prom_steps E w w1 \<Longrightarrow> w_prom w2 = w_prom w1 \<Longrightarrow> prom_steps E w w2"

lemma prom_steps_keep: "prom_steps E w w' \<Longrightarrow> w_prom w = Some d \<Longrightarrow> w_prom w' = Some d"
  by (induction rule: prom_steps.induct) (auto simp: prom_ready_set)

text \<open>
  C13: once \<open>Ready\<close> has answered true to one controller, no accessor of the detector can panic
  any more, whatever the controllers call and the services answer in between, and the flavour the
  accessors report stays the same.
\<close>

theorem ready_detector_is_stable:
  assumes "prom_ready E w = (Ok True, es, w')" "prom_steps E w' w''"
  shows "\<exists>d. w_prom w' = Some d \<and> (\<forall>f. with_prom f E w'' = (Ok (f d), [], w''))"
  using prom_ready_True [OF assms(1)] prom_steps_keep [OF assms(2)] with_prom_set by blast

definition stable_script :: "response list" where
  "stable_script = [RObjs [OPrometheus \<lparr>pm_meta = new_meta rancher_ns rancher_prom_name,
     pm_ext_labels = [], pm_sm_selector = None, pm_sm_ns_selector = None, pm_rule_selector = None\<rparr>], RDone]"

lemma stable_run:
  "prom_ready script_env (start stable_script) =
     (Ok True, fst (snd (prom_ready script_env (start stable_script))),
      (start [])\<lparr>w_prom := Some RancherProm\<rparr>)"
  by (simp add: stable_script_def script_env_def start_def prom_ready_def prom_detect_def bnd_def
      get_world_def attempt_def klist_def answer_def send_def the_list_def ret_def v_prom_def
      is_rancher_managed_def set_prom_def put_world_def)

lemma ready_detector_is_stable_witness:
  "\<exists>d. w_prom ((start [])\<lparr>w_prom := Some RancherProm\<rparr> :: response list world) = Some d \<and>
     with_prom federated script_env ((start [])\<lparr>w_prom := Some RancherProm\<rparr>) =
       (Ok (federated d), [], (start [])\<lparr>w_prom := Some RancherProm\<rparr>)"
  using ready_detector_is_stable [OF stable_run prom_steps.refl] by blast


definition openshift_cluster :: "unit env" where
  "openshift_cluster = \<lparr>exec = (\<lambda>q s. (case q of ListQ _ _ \<Rightarrow> RObjs []
     | RestMapping g k \<Rightarrow> (if g = ''project.openshift.io'' then RDone else RErr (Plain ''no match''))
     | _ \<Rightarrow> RDone, s)), codecs = plain_codec\<rparr>"


text \<open>
  Of the Prometheus objects the detector saw, at most one is the default, so at most one is
  labelled, registered and bound as the cluster's own.
\<close>

theorem at_most_one_default:
  assumes "flavour rancher openshift names = Inr d" "distinct names"
  shows "length (filter (\<lambda>k. is_default k d) names) \<le> 1"
  by (rule single_default [OF assms])

lemma at_most_one_default_witness:
  "length (filter (\<lambda>k. is_default k RancherProm) [(rancher_ns, rancher_prom_name), (''p1'', ''prom'')]) \<le> 1"
  by (rule at_most_one_default [of True False _ RancherProm])
     (simp_all add: flavour_def rancher_ns_def rancher_prom_name_def)

end
