(* ===== verification/Servicemonitor_Ctl.thy ===== *)
theory Servicemonitor_Ctl imports Detector begin

section \<open>Service monitors (pkg/controllers/servicemonitor)\<close>

text \<open>
  Two controllers.  The auto reconciler gives a ServiceMonitor marked \<open>auto\<close> the labels some
  Prometheus selects.  The federation reconciler copies one marked \<open>federated\<close>, with its services,
  endpoints and CA secrets, into the namespace of every project Prometheus of a Rancher cluster.
  Go's iteration over the map of source services has no fixed order; the model takes the order
  in which the services were found.
\<close>

definition prometheus_key :: string where
  "prometheus_key = ''monitoring.appscode.com/prometheus''"

definition prom_less :: "prometheus \<Rightarrow> prometheus \<Rightarrow> bool" where
  "prom_less p q =
     (if om_namespace (pm_meta p) \<noteq> om_namespace (pm_meta q)
      then str_less (om_namespace (pm_meta p)) (om_namespace (pm_meta q))
      else str_less (om_name (pm_meta p)) (om_name (pm_meta q)))"

subsection \<open>Labels\<close>

definition with_prom_labels :: "prometheus \<Rightarrow> service_monitor \<Rightarrow> service_monitor" where
  \<comment> \<open>the transform of \<open>updateServiceMonitorLabels\<close>\<close>
  "with_prom_labels prom mon = mon\<lparr>sm_meta := (sm_meta mon)\<lparr>om_labels :=
     overwrite_keys (om_labels (sm_meta mon)) (fst (labels_for_selector (pm_sm_selector prom)))\<rparr>\<rparr>"

definition update_labels :: "prometheus \<Rightarrow> service_monitor \<Rightarrow> ('s, service_monitor) M" where
  \<comment> \<open>\<open>updateServiceMonitorLabels\<close>; the result is what \<open>*src\<close> is afterwards\<close>
  "update_labels prom src =
     bnd (create_or_patch v_sm src (\<lambda>mon _. with_prom_labels prom mon)) (\<lambda>(_, mon).
     ret mon)"

fun first_selecting :: "codec \<Rightarrow> smap \<Rightarrow> smap \<Rightarrow> prometheus list \<Rightarrow> gerr + prometheus option" where
  \<comment> \<open>the loop of \<open>HasProm\<close>\<close>
  "first_selecting C nls mls [] = Inr None"
| "first_selecting C nls mls (p # ps) =
     (case selector_of C (pm_sm_ns_selector p) of
        Inl e \<Rightarrow> Inl e
      | Inr ns_sel \<Rightarrow>
          if \<not> sel_matches ns_sel nls then first_selecting C nls mls ps
          else (case selector_of C (pm_sm_selector p) of
            Inl e \<Rightarrow> Inl e
          | Inr sel \<Rightarrow> if sel_matches sel mls then Inr (Some p) else first_selecting C nls mls ps))"

definition has_prom :: "service_monitor \<Rightarrow> prometheus list \<Rightarrow> ('s, prometheus option) M" where
  "has_prom mon ps =
     bnd (kget v_ns ('''', om_namespace (sm_meta mon))) (\<lambda>ns.
     bnd pures (\<lambda>C.
     lift_sum (first_selecting C (om_labels (ns_meta ns)) (om_labels (sm_meta mon)) ps)))"

subsection \<open>The auto reconciler\<close>

fun project_prometheus :: "codec \<Rightarrow> string \<Rightarrow> prometheus list \<Rightarrow> gerr + prometheus option" where
  \<comment> \<open>the last loop of \<open>Reconcile\<close>: the first project Prometheus that watches the helm project\<close>
  "project_prometheus C pid [] = Inr None"
| "project_prometheus C pid (p # ps) =
     (if om_namespace (pm_meta p) = rancher_ns then project_prometheus C pid ps
      else (case selector_of C (pm_sm_ns_selector p) of
        Inl e \<Rightarrow> Inl e
      | Inr sel \<Rightarrow> if sel_matches sel [(helm_project_id, pid)] then Inr (Some p)
          else project_prometheus C pid ps))"

definition auto_project :: "service_monitor \<Rightarrow> prometheus list \<Rightarrow> ('s, unit) M" where
  "auto_project mon ps =
     bnd (kget v_ns ('''', om_namespace (sm_meta mon))) (\<lambda>ns.
     let pid = sget (om_labels (ns_meta ns)) helm_project_id in
     if pid = '''' then ret () else
     bnd pures (\<lambda>C.
     bnd (lift_sum (project_prometheus C pid ps)) (\<lambda>p. case p of
       None \<Rightarrow> ret ()
     | Some p \<Rightarrow> seq (update_labels p mon) (ret ()))))"

definition auto_rancher :: "service_monitor \<Rightarrow> prometheus list \<Rightarrow> ('s, unit) M" where
  "auto_rancher mon ps =
     bnd (attempt (get_project_id ''kube-system'')) (\<lambda>r.
     let sys = (case r of Inr (Some i) \<Rightarrow> i | _ \<Rightarrow> '''') in
     fetch (get_project_id (om_namespace (sm_meta mon))) (\<lambda>pid.
     if pid = None \<or> pid = Some sys then
       (case find (\<lambda>p. om_namespace (pm_meta p) = rancher_ns) ps of
          Some p \<Rightarrow> seq (update_labels p mon) (ret ())
        | None \<Rightarrow> auto_project mon ps)
     else auto_project mon ps))"

definition auto_reconcile :: "key \<Rightarrow> ('s, unit) M" where
  \<comment> \<open>\<open>AutoReconciler.Reconcile\<close>\<close>
  "auto_reconcile k =
     fetch (kget v_sm k) (\<lambda>mon.
     bnd prom_ready (\<lambda>ready.
     if \<not> ready then ret ()
     else if map_of (om_labels (sm_meta mon)) prometheus_key \<noteq> Some ''auto'' then ret ()
     else fetch (klist v_prom all_opts) (\<lambda>proms.
     if proms = [] then ret () else
     bnd (has_prom mon proms) (\<lambda>found.
     if found \<noteq> None then ret () else
     let ps = sort_by prom_less proms in
     bnd is_rancher_managed (\<lambda>rancher.
     if \<not> rancher then
       bnd (default_prometheus ps) (\<lambda>p. case p of
         None \<Rightarrow> ret ()
       | Some p \<Rightarrow> seq (update_labels p mon) (ret ()))
     else auto_rancher mon ps)))))"

definition auto_predicate :: "service_monitor \<Rightarrow> bool" where
  \<comment> \<open>the event filter of \<open>SetupWithManager\<close>\<close>
  "auto_predicate mon = (map_of (om_labels (sm_meta mon)) prometheus_key = Some ''auto'')"

subsection \<open>Ports\<close>

fun upsert_service_port :: "service_port list \<Rightarrow> service_port \<Rightarrow> service_port list" where
  "upsert_service_port [] x =
     [\<lparr>sp_name = sp_name x, sp_port = sp_port x, sp_target = IntVal (sp_port x), sp_rest = ''''\<rparr>]"
| "upsert_service_port (p # ps) x =
     (if sp_name p = sp_name x then p\<lparr>sp_port := sp_port x, sp_target := IntVal (sp_port x)\<rparr> # ps
      else p # upsert_service_port ps x)"

fun upsert_endpoint_port :: "endpoint_port list \<Rightarrow> endpoint_port \<Rightarrow> endpoint_port list" where
  "upsert_endpoint_port [] x = [\<lparr>epp_name = epp_name x, epp_port = epp_port x, epp_rest = ''''\<rparr>]"
| "upsert_endpoint_port (p # ps) x =
     (if epp_name p = epp_name x then p\<lparr>epp_port := epp_port x\<rparr> # ps
      else p # upsert_endpoint_port ps x)"

definition service_port_for_name :: "service \<Rightarrow> string \<Rightarrow> int option" where
  \<comment> \<open>\<open>ServicePortForName\<close>; None is its panic\<close>
  "service_port_for_name svc n = map_option sp_port (find (\<lambda>p. sp_name p = n) (sv_ports svc))"

subsection \<open>The federation reconciler's copies\<close>

definition keep_config :: "string list \<Rightarrow> relabel_config" where
  "keep_config namespaces = \<lparr>rl_action = ''keep'', rl_source = [''namespace''],
     rl_regex = ''('' @ join ''|'' namespaces @ '')'', rl_rest = ''''\<rparr>"

definition keep_endpoint :: "relabel_config \<Rightarrow> sm_endpoint \<Rightarrow> sm_endpoint" where
  "keep_endpoint keep e =
     (let e = e\<lparr>se_honor := True\<rparr> in
      case se_metric_relabel e of
        [] \<Rightarrow> e\<lparr>se_metric_relabel := [keep]\<rparr>
      | c # cs \<Rightarrow> if c = keep then e else e\<lparr>se_metric_relabel := keep # c # cs\<rparr>)"

definition copied_monitor ::
    "prometheus \<Rightarrow> service_monitor \<Rightarrow> string list \<Rightarrow> service_monitor \<Rightarrow> service_monitor" where
  \<comment> \<open>the transform of \<open>copyServiceMonitor\<close>\<close>
  "copied_monitor prom src namespaces ob = ob\<lparr>
     sm_meta := (sm_meta ob)\<lparr>
       om_owners := [controller_ref ''Prometheus'' (pm_meta prom)],
       om_labels := sdel prometheus_key
         (overwrite_keys (om_labels (sm_meta ob)) (fst (labels_for_selector (pm_sm_selector prom))))\<rparr>,
     sm_selector := sm_selector src,
     sm_ns_any := sm_ns_any src,
     sm_ns_names := sm_ns_names src,
     sm_endpoints := map (keep_endpoint (keep_config namespaces)) (sm_endpoints src)\<rparr>"

definition watched_namespaces :: "namespace list \<Rightarrow> string list" where
  \<comment> \<open>the empty name first, for resources without a namespace; Rancher's own project namespaces
     are left out\<close>
  "watched_namespaces nss = sort_by str_less ('''' #
     map (om_name \<circ> ns_meta) (filter (\<lambda>n. om_name (ns_meta n) \<noteq>
       ''cattle-project-'' @ sget (om_labels (ns_meta n)) field_project_id) nss))"

definition empty_monitor :: "string \<Rightarrow> string \<Rightarrow> service_monitor" where
  "empty_monitor ns n = \<lparr>sm_meta = new_meta ns n,
     sm_selector = \<lparr>match_labels = [], match_exprs = []\<rparr>, sm_ns_any = False, sm_ns_names = [],
     sm_endpoints = []\<rparr>"

definition selector_opts :: "string option \<Rightarrow> selector \<Rightarrow> list_opts" where
  "selector_opts ns sel = all_opts\<lparr>lo_namespace := ns, lo_selector := Some sel\<rparr>"

definition copy_service_monitor :: "prometheus \<Rightarrow> service_monitor \<Rightarrow> ('s, service_monitor) M" where
  "copy_service_monitor prom src =
     bnd pures (\<lambda>C.
     bnd (lift_sum (selector_of C (pm_sm_ns_selector prom))) (\<lambda>sel.
     bnd (klist v_ns (selector_opts None sel)) (\<lambda>nss.
     bnd (create_or_patch v_sm (empty_monitor (om_namespace (pm_meta prom)) (om_name (sm_meta src)))
       (\<lambda>ob _. copied_monitor prom src (watched_namespaces nss) ob)) (\<lambda>(_, target).
     ret target))))"

definition owned_by_monitor :: "service_monitor \<Rightarrow> objmeta \<Rightarrow> objmeta" where
  "owned_by_monitor t m = m\<lparr>om_owners := [controller_ref ''ServiceMonitor'' (sm_meta t)]\<rparr>"

definition with_meta_of :: "objmeta \<Rightarrow> objmeta \<Rightarrow> objmeta" where
  \<comment> \<open>labels and annotations of the source over the target's\<close>
  "with_meta_of src m = m\<lparr>om_labels := overwrite_keys (om_labels m) (om_labels src),
     om_annotations := overwrite_keys (om_annotations m) (om_annotations src)\<rparr>"

definition nil_target :: string where
  "nil_target = ''invalid memory address or nil pointer dereference''"

definition copy_secret :: "secret \<Rightarrow> service_monitor option \<Rightarrow> ('s, unit) M" where
  "copy_secret src target = (case target of
     None \<Rightarrow> panic nil_target
   | Some t \<Rightarrow>
     seq (create_or_patch v_secret
       \<lparr>sc_meta = new_meta (om_namespace (sm_meta t)) (om_name (sc_meta src)), sc_immutable = None,
          sc_data = [], sc_string_data = [], sc_type = ''''\<rparr>
       (\<lambda>ob _. ob\<lparr>sc_meta := owned_by_monitor t (sc_meta ob), sc_immutable := sc_immutable src,
          sc_data := sc_data src, sc_type := sc_type src\<rparr>))
     (ret ()))"

definition copied_service :: "service \<Rightarrow> service_monitor \<Rightarrow> service \<Rightarrow> service" where
  "copied_service src t ob = ob\<lparr>
     sv_meta := with_meta_of (sv_meta src) (owned_by_monitor t (sv_meta ob)),
     sv_type := ''ClusterIP'',
     sv_ports := foldl upsert_service_port (sv_ports ob) (sv_ports src)\<rparr>"

definition copy_service :: "service \<Rightarrow> service_monitor option \<Rightarrow> ('s, unit) M" where
  "copy_service src target = (case target of
     None \<Rightarrow> panic nil_target
   | Some t \<Rightarrow>
     seq (create_or_patch v_service
       \<lparr>sv_meta = new_meta (om_namespace (sm_meta t)) (om_name (sv_meta src)), sv_type = '''',
          sv_cluster_ip = '''', sv_ports = []\<rparr>
       (\<lambda>ob _. copied_service src t ob))
     (ret ()))"

fun copy_ports :: "service \<Rightarrow> endpoint_port list \<Rightarrow> endpoint_port list \<Rightarrow> endpoint_port list option" where
  "copy_ports svc [] ports = Some ports"
| "copy_ports svc (p # ps) ports = (case service_port_for_name svc (epp_name p) of
     None \<Rightarrow> None
   | Some n \<Rightarrow> copy_ports svc ps
       (upsert_endpoint_port ports \<lparr>epp_name = epp_name p, epp_port = n, epp_rest = ''''\<rparr>))"

fun copy_subsets ::
    "service \<Rightarrow> endpoint_subset list \<Rightarrow> endpoint_subset list \<Rightarrow> endpoint_subset list option" where
  \<comment> \<open>the loop over the source's subsets; None is the panic of \<open>ServicePortForName\<close>\<close>
  "copy_subsets svc [] obs = Some obs"
| "copy_subsets svc (s # ss) obs =
     (let ob = (case obs of [] \<Rightarrow> \<lparr>es_addresses = [], es_ports = [], es_rest = ''''\<rparr> | t # _ \<Rightarrow> t) in
      case copy_ports svc (es_ports s) (es_ports ob) of
        None \<Rightarrow> None
      | Some ports \<Rightarrow>
          map_option ((#) (ob\<lparr>es_addresses := [sv_cluster_ip svc], es_ports := ports\<rparr>))
            (copy_subsets svc ss (tl obs)))"

definition copy_endpoints ::
    "service \<Rightarrow> endpoints \<Rightarrow> service_monitor option \<Rightarrow> ('s, unit) M" where
  "copy_endpoints svc src target = (case target of
     None \<Rightarrow> panic nil_target
   | Some t \<Rightarrow>
     seq (create_or_patch_e v_endpoints
       \<lparr>ep_meta = new_meta (om_namespace (sm_meta t)) (om_name (ep_meta src)), ep_subsets = []\<rparr>
       (\<lambda>ob _. case copy_subsets svc (ep_subsets src) (ep_subsets ob) of
          None \<Rightarrow> panic ''service has no port with name''
        | Some subs \<Rightarrow> ret (ob\<lparr>
            ep_meta := with_meta_of (ep_meta src) (owned_by_monitor t (ep_meta ob)),
            ep_subsets := subs\<rparr>)))
     (ret ()))"

subsection \<open>The federation reconciler\<close>

fun source_services :: "selector \<Rightarrow> string list \<Rightarrow> ('s, (key \<times> service) list) M" where
  "source_services sel [] = ret []"
| "source_services sel (ns # nss) =
     bnd (klist v_service (selector_opts (Some ns) sel)) (\<lambda>svcs.
     bnd (source_services sel nss) (\<lambda>rest.
     ret (AList.updates (map (meta_key \<circ> sv_meta) svcs @ map fst rest) (svcs @ map snd rest) [])))"

fun source_secrets :: "string \<Rightarrow> sm_endpoint list \<Rightarrow> ('s, secret list) M" where
  "source_secrets ns [] = ret []"
| "source_secrets ns (e # es) = (case se_ca_secret e of
     None \<Rightarrow> source_secrets ns es
   | Some n \<Rightarrow>
     if n = '''' then source_secrets ns es else
     bnd (kget v_secret (ns, n)) (\<lambda>sec.
     bnd (source_secrets ns es) (\<lambda>rest.
     ret (sec # rest))))"

definition collect_err :: "('s, unit) M \<Rightarrow> ('s, gerr list) M" where
  \<comment> \<open>\<open>if err := m(); err != nil { errList = append(errList, err) }\<close>\<close>
  "collect_err m = bnd (attempt m) (\<lambda>r. ret (case r of Inl e \<Rightarrow> [e] | Inr _ \<Rightarrow> []))"

fun collect_all :: "('a \<Rightarrow> ('s, gerr list) M) \<Rightarrow> 'a list \<Rightarrow> ('s, gerr list) M" where
  "collect_all f [] = ret []"
| "collect_all f (x # xs) =
     bnd (f x) (\<lambda>es. bnd (collect_all f xs) (\<lambda>es'. ret (es @ es')))"

definition federate_service :: "service_monitor option \<Rightarrow> service \<Rightarrow> ('s, gerr list) M" where
  "federate_service target svc =
     bnd (collect_err (copy_service svc target)) (\<lambda>es1.
     bnd (attempt (kget v_endpoints (meta_key (sv_meta svc)))) (\<lambda>r. case r of
       Inl e \<Rightarrow> ret (es1 @ [e])
     | Inr ep \<Rightarrow>
         bnd (collect_err (copy_endpoints svc ep target)) (\<lambda>es2.
         ret (es1 @ es2))))"

definition federate_to ::
    "service list \<Rightarrow> secret list \<Rightarrow> service_monitor \<Rightarrow> prometheus \<Rightarrow> ('s, gerr list) M" where
  \<comment> \<open>the branch for a project Prometheus: \<open>targetSvcMon\<close> stays nil when its copy fails\<close>
  "federate_to svcs secs mon prom =
     bnd (attempt (copy_service_monitor prom mon)) (\<lambda>r.
     let target = (case r of Inl _ \<Rightarrow> None | Inr t \<Rightarrow> Some t);
         es0 = (case r of Inl e \<Rightarrow> [e] | Inr _ \<Rightarrow> []) in
     bnd (collect_all (federate_service target) svcs) (\<lambda>es1.
     bnd (collect_all (\<lambda>sec. collect_err (copy_secret sec target)) secs) (\<lambda>es2.
     ret (es0 @ es1 @ es2))))"

fun federate_all ::
    "string \<Rightarrow> service list \<Rightarrow> secret list \<Rightarrow> service_monitor \<Rightarrow> prometheus list \<Rightarrow> gerr list
     \<Rightarrow> ('s, unit) M" where
  \<comment> \<open>the loop over the Prometheus objects, with \<open>errList\<close> so far\<close>
  "federate_all ns svcs secs mon [] errs = (if errs = [] then ret () else fail (Agg errs))"
| "federate_all ns svcs secs mon (p # ps) errs =
     bnd (with_prom (is_default (meta_key (pm_meta p)))) (\<lambda>dflt.
     if \<not> dflt \<and> om_namespace (pm_meta p) = ns then ret ()
     else if dflt then
       bnd (attempt (update_labels p mon)) (\<lambda>r. case r of
         Inl e \<Rightarrow> federate_all ns svcs secs mon ps (errs @ [e])
       | Inr mon' \<Rightarrow> federate_all ns svcs secs mon' ps errs)
     else
       bnd (federate_to svcs secs mon p) (\<lambda>es.
       federate_all ns svcs secs mon ps (errs @ es)))"

definition federation_reconcile :: "key \<Rightarrow> ('s, unit) M" where
  \<comment> \<open>\<open>FederationReconciler.Reconcile\<close>\<close>
  "federation_reconcile k =
     fetch (kget v_sm k) (\<lambda>mon.
     if map_of (om_labels (sm_meta mon)) prometheus_key \<noteq> Some ''federated'' then ret () else
     fetch (klist v_prom all_opts) (\<lambda>proms.
     if proms = [] then ret () else
     let ps = sort_by prom_less proms in
     bnd prom_ready (\<lambda>ready.
     if \<not> ready then ret () else
     bnd (with_prom federated) (\<lambda>fed.
     if \<not> fed then
       bnd (default_prometheus ps) (\<lambda>p. case p of
         None \<Rightarrow> ret ()
       | Some p \<Rightarrow> seq (update_labels p mon) (ret ()))
     else
     bnd pures (\<lambda>C.
     bnd (lift_sum (selector_of C (Some (sm_selector mon)))) (\<lambda>sel.
     bnd (source_services sel (sm_ns_names mon)) (\<lambda>svcs.
     bnd (source_secrets (om_namespace (sm_meta mon)) (sm_endpoints mon)) (\<lambda>secs.
     federate_all (fst k) (map snd svcs) secs mon ps []))))))))"

definition federated_predicate :: "service_monitor \<Rightarrow> bool" where
  "federated_predicate mon = (map_of (om_labels (sm_meta mon)) prometheus_key = Some ''federated'')"

subsection \<open>Events that make a monitor reconcile again\<close>

fun monitors_selecting :: "codec \<Rightarrow> objmeta \<Rightarrow> service_monitor list \<Rightarrow> key list option" where
  \<comment> \<open>the loop of \<open>ServiceMonitorsForService\<close>; a selector error drops every request\<close>
  "monitors_selecting C m [] = Some []"
| "monitors_selecting C m (mon # mons) =
     (if \<not> (sm_ns_any mon \<or> om_namespace m \<in> set (sm_ns_names mon)) then monitors_selecting C m mons
      else (case selector_of C (Some (sm_selector mon)) of
        Inl _ \<Rightarrow> None
      | Inr sel \<Rightarrow>
          if sel_matches sel (om_labels m)
          then map_option ((#) (meta_key (sm_meta mon))) (monitors_selecting C m mons)
          else monitors_selecting C m mons))"

definition service_monitors_for_service :: "objmeta \<Rightarrow> ('s, key list) M" where
  "service_monitors_for_service m =
     bnd (attempt (klist v_sm (all_opts\<lparr>lo_labels := [(prometheus_key, ''federated'')]\<rparr>))) (\<lambda>r. case r of
       Inl _ \<Rightarrow> ret []
     | Inr mons \<Rightarrow>
         bnd pures (\<lambda>C.
         ret (case monitors_selecting C m mons of None \<Rightarrow> [] | Some ks \<Rightarrow> ks)))"

definition service_monitors_for_prometheus :: "smap \<Rightarrow> ('s, key list) M" where
  "service_monitors_for_prometheus ls =
     bnd (attempt (klist v_sm (all_opts\<lparr>lo_labels := ls\<rparr>))) (\<lambda>r. case r of
       Inl _ \<Rightarrow> ret []
     | Inr mons \<Rightarrow> ret (map (meta_key \<circ> sm_meta) mons))"

subsection \<open>Lemmas on ports\<close>

lemma names_upsert_service_port:
  "map sp_name (upsert_service_port ps x) =
     (if sp_name x \<in> sp_name ` set ps then map sp_name ps else map sp_name ps @ [sp_name x])"
  by (induction ps x rule: upsert_service_port.induct) auto

lemma find_upsert_service_port:
  "find (\<lambda>p. sp_name p = n) (upsert_service_port ps x) =
     (if n = sp_name x
      then Some ((case find (\<lambda>p. sp_name p = n) ps of
          None \<Rightarrow> \<lparr>sp_name = n, sp_port = 0, sp_target = IntVal 0, sp_rest = ''''\<rparr> | Some p \<Rightarrow> p)
        \<lparr>sp_port := sp_port x, sp_target := IntVal (sp_port x)\<rparr>)
      else find (\<lambda>p. sp_name p = n) ps)"
  by (induction ps x rule: upsert_service_port.induct) auto

lemma upsert_service_port_idem:
  "upsert_service_port (upsert_service_port ps x) x = upsert_service_port ps x"
  by (induction ps x rule: upsert_service_port.induct) auto

lemma distinct_upsert_service_port:
  "distinct (map sp_name ps) \<Longrightarrow> distinct (map sp_name (upsert_service_port ps x))"
  by (simp add: names_upsert_service_port)

lemma names_fold_service_ports:
  "sp_name ` set (foldl upsert_service_port ps xs) = sp_name ` set ps \<union> sp_name ` set xs"
proof (induction xs arbitrary: ps)
  case (Cons x xs)
  have "sp_name ` set (upsert_service_port ps x) = insert (sp_name x) (sp_name ` set ps)"
    using arg_cong [OF names_upsert_service_port, of set ps x] by auto
  then show ?case using Cons by simp
qed simp

lemma distinct_fold_service_ports:
  "distinct (map sp_name ps) \<Longrightarrow> distinct (map sp_name (foldl upsert_service_port ps xs))"
  by (induction xs arbitrary: ps) (simp_all add: distinct_upsert_service_port)

lemma find_fold_service_ports:
  assumes "distinct (map sp_name xs)"
  shows "map_option sp_port (find (\<lambda>p. sp_name p = n) (foldl upsert_service_port ps xs)) =
     (case find (\<lambda>p. sp_name p = n) xs of Some x \<Rightarrow> Some (sp_port x)
      | None \<Rightarrow> map_option sp_port (find (\<lambda>p. sp_name p = n) ps))"
  using assms
proof (induction xs arbitrary: ps)
  case (Cons x xs)
  have none: "sp_name x \<notin> sp_name ` set xs \<Longrightarrow> find (\<lambda>p. sp_name p = sp_name x) xs = None"
    by (metis (mono_tags, lifting) find_None_iff image_eqI)
  show ?case using Cons none by (auto simp: find_upsert_service_port split: option.splits)
qed simp

definition has_service_port :: "service_port list \<Rightarrow> service_port \<Rightarrow> bool" where
  "has_service_port ps x = (\<exists>p. find (\<lambda>q. sp_name q = sp_name x) ps = Some p \<and>
     sp_port p = sp_port x \<and> sp_target p = IntVal (sp_port x))"

lemma has_upsert_self: "has_service_port (upsert_service_port ps x) x"
  by (simp add: has_service_port_def find_upsert_service_port)

lemma has_upsert_other:
  "sp_name x \<noteq> sp_name y \<Longrightarrow> has_service_port ps x \<Longrightarrow> has_service_port (upsert_service_port ps y) x"
  by (simp add: has_service_port_def find_upsert_service_port)

lemma upsert_has: "has_service_port ps x \<Longrightarrow> upsert_service_port ps x = ps"
  by (induction ps) (auto simp: has_service_port_def split: if_splits)

lemma has_fold:
  assumes "distinct (map sp_name xs)" "x \<in> set xs"
  shows "has_service_port (foldl upsert_service_port ps xs) x"
  using assms
proof (induction xs rule: rev_induct)
  case (snoc y ys)
  show ?case
  proof (cases "x = y")
    case False
    then have "sp_name x \<in> sp_name ` set ys" "sp_name y \<notin> sp_name ` set ys"
      using snoc.prems by auto
    then have "sp_name x \<noteq> sp_name y" by metis
    then show ?thesis using snoc False by (auto intro: has_upsert_other)
  qed (simp add: has_upsert_self)
qed simp

lemma fold_upsert_has: "(\<And>x. x \<in> set xs \<Longrightarrow> has_service_port ps x) \<Longrightarrow> foldl upsert_service_port ps xs = ps"
  by (induction xs) (simp_all add: upsert_has)

lemma epp_names_upsert:
  "epp_name ` set (upsert_endpoint_port ps x) = insert (epp_name x) (epp_name ` set ps)"
  by (induction ps x rule: upsert_endpoint_port.induct) auto

lemma find_upsert_endpoint_port:
  "map_option epp_port (find (\<lambda>p. epp_name p = n) (upsert_endpoint_port ps x)) =
     (if n = epp_name x then Some (epp_port x) else map_option epp_port (find (\<lambda>p. epp_name p = n) ps))"
  by (induction ps x rule: upsert_endpoint_port.induct) auto

lemma copy_ports_total:
  "(\<exists>r. copy_ports svc ps ports = Some r) \<longleftrightarrow>
     (\<forall>p \<in> set ps. service_port_for_name svc (epp_name p) \<noteq> None)"
  by (induction ps arbitrary: ports) (auto split: option.splits)

lemma copy_ports_lookup:
  "copy_ports svc ps ports = Some r \<Longrightarrow>
   map_option epp_port (find (\<lambda>p. epp_name p = n) r) =
     (if n \<in> epp_name ` set ps then service_port_for_name svc n
      else map_option epp_port (find (\<lambda>p. epp_name p = n) ports))"
proof (induction ps arbitrary: ports)
  case (Cons p ps)
  from Cons.prems obtain m where m: "service_port_for_name svc (epp_name p) = Some m"
    and r: "copy_ports svc ps (upsert_endpoint_port ports \<lparr>epp_name = epp_name p, epp_port = m, epp_rest = ''''\<rparr>) = Some r"
    by (auto split: option.splits)
  show ?case unfolding Cons.IH [OF r] find_upsert_endpoint_port using m by auto
qed simp

lemma copy_subsets_Cons:
  "copy_subsets svc (s # ss) obs = Some r \<longleftrightarrow>
     (\<exists>ob ports r'. ob = (case obs of [] \<Rightarrow> \<lparr>es_addresses = [], es_ports = [], es_rest = ''''\<rparr> | t # _ \<Rightarrow> t) \<and>
        copy_ports svc (es_ports s) (es_ports ob) = Some ports \<and> copy_subsets svc ss (tl obs) = Some r' \<and>
        r = ob\<lparr>es_addresses := [sv_cluster_ip svc], es_ports := ports\<rparr> # r')"
  by (auto simp: Let_def split: option.split)

lemma copy_subsets_total:
  "(\<exists>r. copy_subsets svc ss obs = Some r) \<longleftrightarrow>
     (\<forall>s \<in> set ss. \<forall>p \<in> set (es_ports s). service_port_for_name svc (epp_name p) \<noteq> None)"
proof (induction ss arbitrary: obs)
  case (Cons s ss)
  show ?case
    unfolding copy_subsets_Cons
    using Cons [of "tl obs"] copy_ports_total [of svc "es_ports s"] by auto
qed simp

lemma copy_subsets_nth:
  "copy_subsets svc ss obs = Some r \<Longrightarrow> i < length ss \<Longrightarrow>
   i < length r \<and> es_addresses (r ! i) = [sv_cluster_ip svc] \<and>
   (\<forall>p \<in> set (es_ports (ss ! i)).
      map_option epp_port (find (\<lambda>q. epp_name q = epp_name p) (es_ports (r ! i))) =
      service_port_for_name svc (epp_name p))"
proof (induction ss arbitrary: obs r i)
  case (Cons s ss)
  from Cons.prems(1) obtain ob ports r' where r: "copy_ports svc (es_ports s) (es_ports ob) = Some ports"
    "copy_subsets svc ss (tl obs) = Some r'"
    "r = ob\<lparr>es_addresses := [sv_cluster_ip svc], es_ports := ports\<rparr> # r'"
    unfolding copy_subsets_Cons by blast
  show ?case
  proof (cases i)
    case 0
    then show ?thesis using r copy_ports_lookup [OF r(1)] by auto
  next
    case (Suc j)
    then show ?thesis using Cons.IH [OF r(2), of j] Cons.prems(2) r(3) by simp
  qed
qed simp

subsection \<open>Lemmas on selection\<close>

definition selects :: "codec \<Rightarrow> smap \<Rightarrow> smap \<Rightarrow> prometheus \<Rightarrow> bool" where
  \<comment> \<open>a Prometheus selects a monitor: the contract \<open>HasProm\<close> decides\<close>
  "selects C nls mls p = (\<exists>ns_sel sel. selector_of C (pm_sm_ns_selector p) = Inr ns_sel \<and>
     selector_of C (pm_sm_selector p) = Inr sel \<and> sel_matches ns_sel nls \<and> sel_matches sel mls)"

definition valid_selectors :: "codec \<Rightarrow> prometheus \<Rightarrow> bool" where
  "valid_selectors C p = ((\<exists>s. selector_of C (pm_sm_ns_selector p) = Inr s) \<and>
     (\<exists>s. selector_of C (pm_sm_selector p) = Inr s))"

lemma first_selecting_find:
  "list_all (valid_selectors C) ps \<Longrightarrow>
   first_selecting C nls mls ps = Inr (find (selects C nls mls) ps)"
  by (induction ps) (auto simp: valid_selectors_def selects_def split: sum.splits)

lemma first_selecting_Some:
  "first_selecting C nls mls ps = Inr (Some p) \<Longrightarrow> p \<in> set ps \<and> selects C nls mls p"
  by (induction ps) (auto simp: selects_def split: sum.splits if_splits)

lemma with_prom_labels_selected:
  assumes "pm_sm_selector p = Some s" "distinct (selector_keys s)"
    "list_all expr_solvable (match_exprs s)" "selector_of C (Some s) = Inr S"
  shows "sel_matches S (om_labels (sm_meta (with_prom_labels p mon)))"
  using overwrite_keys_select [OF assms(2-4)] assms(1) by (simp add: with_prom_labels_def)

lemma with_prom_labels_key [simp]:
  "obj_key (wrap v_sm (with_prom_labels p mon)) = obj_key (wrap v_sm mon)"
  by (simp add: v_sm_def obj_key_def meta_key_def with_prom_labels_def)

subsection \<open>Properties\<close>


definition team_prom :: prometheus where
  "team_prom = \<lparr>pm_meta = new_meta ''monitoring'' ''prom'', pm_ext_labels = [],
     pm_sm_selector = Some \<lparr>match_labels = [(''release'', ''prom'')],
       match_exprs = [\<lparr>ex_key = ''tier'', ex_op = OpNotIn, ex_values = [''dev'']\<rparr>]\<rparr>,
     pm_sm_ns_selector = Some \<lparr>match_labels = [], match_exprs = []\<rparr>, pm_rule_selector = None\<rparr>"


text \<open>
  A selector that requires a label to be absent is not satisfied by the labels computed for
  it: the auto reconciler then patches the monitor and it stays unselected.
\<close>

theorem absent_label_not_selected:
  "\<exists>S. selector_of plain_codec (Some \<lparr>match_labels = [],
       match_exprs = [\<lparr>ex_key = ''legacy'', ex_op = OpDoesNotExist, ex_values = []\<rparr>]\<rparr>) = Inr S \<and>
     \<not> sel_matches S (om_labels (sm_meta (with_prom_labels
       (team_prom\<lparr>pm_sm_selector := Some \<lparr>match_labels = [],
         match_exprs = [\<lparr>ex_key = ''legacy'', ex_op = OpDoesNotExist, ex_values = []\<rparr>]\<rparr>\<rparr>)
       ((empty_monitor ''demo'' ''db'')\<lparr>sm_meta := (new_meta ''demo'' ''db'')\<lparr>om_labels := [(''legacy'', '''')]\<rparr>\<rparr>))))"
  by (simp add: selector_of_def expr_requirement_def new_requirement_def plain_codec_def
      with_prom_labels_def labels_for_selector_def overwrite_keys_def sdel_def req_matches_def
      shas_def empty_monitor_def new_meta_def)

text \<open>
  On a well-behaved API server, a run of \<open>updateServiceMonitorLabels\<close> succeeds and leaves the
  stored monitor with the selector's labels over its own; every other part of it is unchanged.
\<close>

theorem update_labels_stores:
  fixes w :: "'s world"
  assumes X: "api_server X stored" "exec E = X"
    and old: "stored (w_ext w) KServiceMonitor (meta_key (sm_meta mon)) = Some (OServiceMonitor cur)"
  shows "\<exists>mon' es w'. update_labels p mon E w = (Ok mon', es, w') \<and>
     stored (w_ext w') KServiceMonitor (meta_key (sm_meta mon)) = Some (OServiceMonitor mon') \<and>
     desired (OServiceMonitor mon') = desired (OServiceMonitor (with_prom_labels p cur))"
proof -
  have key: "obj_key (wrap v_sm y) = meta_key (sm_meta y)" for y
    by (simp add: v_sm_def obj_key_def)
  obtain vb z es w' where "create_or_patch v_sm mon (\<lambda>mon _. with_prom_labels p mon) E w = (Ok (vb, z), es, w')"
    "stored (w_ext w') KServiceMonitor (meta_key (sm_meta mon)) = Some (OServiceMonitor z)"
    "desired (OServiceMonitor z) = desired (OServiceMonitor (with_prom_labels p cur))"
    using api_server.create_or_patch_stores [OF X view_sm.typed_view_axioms,
        where f = "\<lambda>mon _. with_prom_labels p mon" and x = mon and w = w] old
    by (auto simp: key v_sm_def with_prom_labels_def meta_key_def obj_key_def)
  then show ?thesis by (auto simp: update_labels_def bnd_def ret_def)
qed

definition one_monitor :: mem_store where
  "one_monitor = \<lparr>ms_objs = [((KServiceMonitor, (''demo'', ''db'')), OServiceMonitor (empty_monitor ''demo'' ''db''))],
     ms_tick = 0\<rparr>"

lemma update_labels_stores_witness:
  "\<exists>mon' es w'. update_labels team_prom (empty_monitor ''demo'' ''db'')
       \<lparr>exec = mem_exec, codecs = plain_codec\<rparr> (start one_monitor) = (Ok mon', es, w') \<and>
     ms_find (w_ext w') KServiceMonitor (meta_key (sm_meta (empty_monitor ''demo'' ''db''))) =
       Some (OServiceMonitor mon') \<and>
     desired (OServiceMonitor mon') =
       desired (OServiceMonitor (with_prom_labels team_prom (empty_monitor ''demo'' ''db'')))"
  by (rule update_labels_stores [OF mem.api_server_axioms])
     (simp_all add: one_monitor_def start_def ms_find_def empty_monitor_def obj_key_def new_meta_def meta_key_def)

text \<open>
  C30: neither controller writes anything before the API server has handed it a monitor that
  carries its marker label: a monitor that is not marked is never touched.
\<close>

theorem unmarked_monitors_untouched:
  "guarded (got v_sm auto_predicate) (\<lambda>(q, a). is_write q) (auto_reconcile k :: ('s, unit) M) \<and>
   guarded (got v_sm federated_predicate) (\<lambda>(q, a). is_write q) (federation_reconcile k :: ('s, unit) M)"
proof
  show "guarded (got v_sm auto_predicate) (\<lambda>(q, a). is_write q) (auto_reconcile k :: ('s, unit) M)"
    unfolding auto_reconcile_def
    by (rule guarded_fetch_got, simp)
       (auto simp: auto_predicate_def intro!: guarded_never trace_intros)
  show "guarded (got v_sm federated_predicate) (\<lambda>(q, a). is_write q) (federation_reconcile k :: ('s, unit) M)"
    unfolding federation_reconcile_def
    by (rule guarded_fetch_got, simp) (simp add: federated_predicate_def guarded_skip)
qed

text \<open>
  C24: a service copied into a project namespace offers every port of the source under the same
  number, keeps the ports it had under other names, has no two ports of one name if it had none
  before, and copying it again changes no port.
\<close>

theorem copied_service_ports:
  assumes src: "distinct (map sp_name (sv_ports src))" and ob: "distinct (map sp_name (sv_ports ob))"
  shows "service_port_for_name (copied_service src t ob) n =
       (case service_port_for_name src n of Some p \<Rightarrow> Some p | None \<Rightarrow> service_port_for_name ob n) \<and>
     distinct (map sp_name (sv_ports (copied_service src t ob))) \<and>
     sv_ports (copied_service src t (copied_service src t ob)) = sv_ports (copied_service src t ob)"
  using find_fold_service_ports [OF src, of n "sv_ports ob"] distinct_fold_service_ports [OF ob]
    fold_upsert_has [OF has_fold [OF src]]
  by (auto simp: service_port_for_name_def copied_service_def split: option.splits)

definition db_service :: service where
  "db_service = \<lparr>sv_meta = new_meta ''demo'' ''db'', sv_type = ''NodePort'', sv_cluster_ip = ''10.0.0.7'',
     sv_ports = [\<lparr>sp_name = ''http'', sp_port = 80, sp_target = StrVal ''web'', sp_rest = ''''\<rparr>,
       \<lparr>sp_name = ''stats'', sp_port = 9090, sp_target = IntVal 9090, sp_rest = ''''\<rparr>]\<rparr>"

lemma copied_service_ports_witness:
  "service_port_for_name (copied_service db_service (empty_monitor ''p1'' ''db'')
     (db_service\<lparr>sv_ports := []\<rparr>)) ''stats'' = Some 9090"
  using copied_service_ports [of db_service "db_service\<lparr>sv_ports := []\<rparr>" "empty_monitor ''p1'' ''db''" "''stats''"]
  by (simp add: db_service_def service_port_for_name_def)

text \<open>
  C32: copying endpoints panics exactly when a subset has a port whose name the source service does
  not have; otherwise subset i of the copy has the service's cluster address as its only address
  and gives every port the number of the service port of that name.
\<close>

theorem copy_subsets_correct:
  "(case copy_subsets svc ss obs of
      None \<Rightarrow> \<exists>s \<in> set ss. \<exists>p \<in> set (es_ports s). service_port_for_name svc (epp_name p) = None
    | Some r \<Rightarrow> \<forall>i < length ss. i < length r \<and> es_addresses (r ! i) = [sv_cluster_ip svc] \<and>
        (\<forall>p \<in> set (es_ports (ss ! i)). \<exists>q \<in> set (es_ports (r ! i)). epp_name q = epp_name p \<and>
           Some (epp_port q) = service_port_for_name svc (epp_name p)))"
proof (cases "copy_subsets svc ss obs")
  case None
  then show ?thesis using copy_subsets_total [of svc ss obs] by auto
next
  case (Some r)
  have "\<exists>q \<in> set (es_ports (r ! i)). epp_name q = epp_name p \<and>
      Some (epp_port q) = service_port_for_name svc (epp_name p)"
    if "i < length ss" "p \<in> set (es_ports (ss ! i))" for i p
  proof -
    have eq: "map_option epp_port (find (\<lambda>q. epp_name q = epp_name p) (es_ports (r ! i))) =
        service_port_for_name svc (epp_name p)"
      using copy_subsets_nth [OF Some that(1)] that(2) by blast
    moreover have "service_port_for_name svc (epp_name p) \<noteq> None"
      using copy_subsets_total [of svc ss obs] Some that by (metis nth_mem)
    ultimately obtain q where "find (\<lambda>q. epp_name q = epp_name p) (es_ports (r ! i)) = Some q" by auto
    then have "q \<in> set (es_ports (r ! i))" "epp_name q = epp_name p"
      by (auto simp: find_Some_iff)
    then show ?thesis using eq \<open>find _ _ = Some q\<close> by auto
  qed
  then show ?thesis using Some copy_subsets_nth [OF Some] by auto
qed

definition db_subset :: endpoint_subset where
  "db_subset = \<lparr>es_addresses = [''10.1.0.3''],
     es_ports = [\<lparr>epp_name = ''stats'', epp_port = 19090, epp_rest = []\<rparr>], es_rest = []\<rparr>"

lemma copy_subsets_correct_witness:
  "\<exists>r. copy_subsets db_service [db_subset] [] = Some r \<and> es_addresses (r ! 0) = [''10.0.0.7''] \<and>
     (\<exists>q \<in> set (es_ports (r ! 0)). epp_name q = ''stats'' \<and> epp_port q = 9090)"
  using copy_subsets_correct [where svc = db_service and ss = "[db_subset]" and obs = "[]"]
  by (auto simp: db_service_def db_subset_def service_port_for_name_def split: option.splits)



lemma federate_to_nil_target:
  assumes "copy_service_monitor prom mon E w = (Err e, es, w')" "svcs \<noteq> []"
  shows "\<exists>es' w''. federate_to svcs secs mon prom E w = (Panic nil_target, es', w'')"
proof -
  obtain svc svcs' where s: "svcs = svc # svcs'" using assms(2) by (cases svcs) auto
  have "collect_err (copy_service svc None) = (panic nil_target :: ('a, gerr list) M)"
    by (simp add: collect_err_def copy_service_def run_simps)
  then show ?thesis
    using assms(1) s
    by (simp add: federate_to_def bnd_def attempt_def ret_def federate_service_def panic_def)
qed

text \<open>
  When the copy of the monitor into a project fails (the API server is away, a selector is
  invalid) and the monitor has a source service, the reconciler does not report the error: it
  dereferences the nil copy and panics.
\<close>

theorem failed_copy_panics:
  assumes "copy_service_monitor prom mon E w = (Err e, es, w')" "svcs \<noteq> []"
  shows "\<exists>es' w''. federate_to svcs secs mon prom E w = (Panic nil_target, es', w'')"
  by (rule federate_to_nil_target [OF assms])

lemma failed_copy_run:
  "copy_service_monitor team_prom (empty_monitor ''demo'' ''db'') script_env
     (start [RErr (ApiErr Unavailable ''down'')]) =
   (Err (ApiErr Unavailable ''down''),
    fst (snd (copy_service_monitor team_prom (empty_monitor ''demo'' ''db'') script_env
      (start [RErr (ApiErr Unavailable ''down'')]))), start [])"
  by (simp add: copy_service_monitor_def bnd_def pures_def lift_sum_def selector_of_def team_prom_def
      ret_def klist_def answer_def send_def fail_def script_env_def start_def)

lemma failed_copy_panics_witness:
  "\<exists>es' w''. federate_to [db_service] [] (empty_monitor ''demo'' ''db'') team_prom script_env
     (start [RErr (ApiErr Unavailable ''down'')]) = (Panic nil_target, es', w'')"
  by (rule failed_copy_panics [OF failed_copy_run]) simp

end
