(* ===== verification/Rancher_Token.thy ===== *)
theory Rancher_Token imports Meta_Util "HOL-Library.Word" begin

section \<open>Rancher tokens (pkg/rancherutil, pkg/controllers/ranchertoken)\<close>

text \<open>
  The operator calls Rancher with the token of a secret, and writes a fresh one back a day before
  it expires.  A \<open>time.Duration\<close> is a 64-bit signed count of nanoseconds, so durations are
  \<open>64 word\<close> read with \<open>sint\<close>: multiplication and subtraction wrap, \<open>Time.Sub\<close> saturates.  A
  \<open>time.Time\<close> is the integer of its nanoseconds.
\<close>

type_synonym duration = "64 word"

definition time_sub :: "int \<Rightarrow> int \<Rightarrow> duration" where
  \<comment> \<open>\<open>t.Sub(u)\<close>\<close>
  "time_sub t u = (let d = t - u in
     if d > 2 ^ 63 - 1 then word_of_int (2 ^ 63 - 1)
     else if d < - (2 ^ 63) then word_of_int (- (2 ^ 63))
     else word_of_int d)"

definition millis :: "int \<Rightarrow> duration" where
  \<comment> \<open>\<open>time.Duration(ms) * time.Millisecond\<close>\<close>
  "millis ms = word_of_int ms * 1000000"

definition renewal_offset :: duration where
  "renewal_offset = 86400000000000"  \<comment> \<open>24 hours\<close>

definition year_millis :: int where "year_millis = 365 * 24 * 3600000"

record rancher_token =
  \<comment> \<open>\<open>RancherToken\<close>, with the server of the client it belongs to\<close>
  tk_server :: string
  tk_user :: string
  tk_id :: string
  tk_token :: string
  tk_expires :: int

definition now :: "('s, int) M" where
  "now = answer NowQ (\<lambda>a. case a of RNow t \<Rightarrow> Some t | _ \<Rightarrow> None)"

definition the_token :: "response \<Rightarrow> rtoken option" where
  "the_token a = (case a of RToken t \<Rightarrow> Some t | _ \<Rightarrow> None)"

definition decode_token :: "string \<Rightarrow> string \<Rightarrow> ('s, rancher_token) M" where
  "decode_token server tok =
     bnd (answer (RancherConnect server tok) the_done) (\<lambda>_.
     case cut CHR '':'' tok of
       None \<Rightarrow> fail (Plain ''rancher token format is invalid'')
     | Some (tid, _) \<Rightarrow>
         bnd (answer (RancherByID server tok tid) the_token) (\<lambda>t.
         bnd (if rt_expires t \<noteq> '''' then
                bnd pures (\<lambda>C. case time_parse C (rt_expires t) of
                  Inl m \<Rightarrow> fail (Plain m) | Inr e \<Rightarrow> ret e)
              else bnd now (\<lambda>n. ret (n + sint (millis (rt_ttl_millis t))))) (\<lambda>expires.
         ret \<lparr>tk_server = server, tk_user = rt_user t, tk_id = tid, tk_token = tok,
           tk_expires = expires\<rparr>)))"

definition token_or_exit :: "rancher_token option \<Rightarrow> ('s, rancher_token) M" where
  "token_or_exit t = (case t of
     None \<Rightarrow> bnd (send ExitQ) (\<lambda>_. panic ''exit status 1'')
   | Some t \<Rightarrow> ret t)"

definition find_token :: "secret \<Rightarrow> string \<Rightarrow> ('s, rancher_token) M" where
  "find_token sec state =
     (if sget (sc_data sec) ''baseURL'' = '''' \<or> sget (sc_data sec) ''token'' = ''''
      then fail (Plain (''rancher auth secret '' @ key_string (meta_key (sc_meta sec)) @ '' is missing key ''
        @ (if sget (sc_data sec) ''baseURL'' = '''' then ''baseURL'' else ''token'')))
      else
      let server = sget (sc_data sec) ''baseURL''; next_tok = sget (sc_data sec) ''token.next'' in
      bnd (attempt (decode_token server (sget (sc_data sec) ''token''))) (\<lambda>r.
      let token = (case r of Inl _ \<Rightarrow> None | Inr t \<Rightarrow> Some t) in
      if sget (sc_data sec) ''token.state'' = state \<and> next_tok \<noteq> '''' then
        bnd (attempt (decode_token server next_tok)) (\<lambda>r2. case r2 of
          Inl _ \<Rightarrow> token_or_exit token
        | Inr nt \<Rightarrow> (case token of
            None \<Rightarrow> panic ''invalid memory address or nil pointer dereference''
          | Some t \<Rightarrow> token_or_exit (Some (if tk_expires nt > tk_expires t then nt else t))))
      else token_or_exit token))"

definition ctrl_create_or_patch :: "'a view \<Rightarrow> 'a \<Rightarrow> ('a \<Rightarrow> 'a) \<Rightarrow> ('s, unit) M" where
  \<comment> \<open>\<open>controllerutil.CreateOrPatch\<close> for an object without status\<close>
  "ctrl_create_or_patch v x f =
     bnd (attempt (kget v (obj_key (wrap v x)))) (\<lambda>r. case r of
       Inl e \<Rightarrow> if \<not> is_not_found e then fail e else seq (kcreate v (f x)) (ret ())
     | Inr cur \<Rightarrow> if wrap v (f cur) = wrap v cur then ret () else seq (kpatch v cur (f cur)) (ret ()))"

definition renew_token :: "rancher_token \<Rightarrow> secret \<Rightarrow> string \<Rightarrow> ('s, rtoken) M" where
  "renew_token rc sec state =
     bnd now (\<lambda>n.
     bnd (answer (RancherCreate (tk_server rc) (tk_token rc)
        (''monitoring-operator-'' @ itoa (n div 1000000000)) year_millis) the_token) (\<lambda>new.
     bnd (ctrl_create_or_patch v_secret sec (\<lambda>s. s\<lparr>sc_string_data :=
        sput ''token.expiresAt'' (rt_expires new) (sput ''token.state'' state
          (sput ''token.next'' (rt_token new) (sc_string_data s)))\<rparr>)) (\<lambda>_.
     ret new)))"

definition cluster_metadata :: "('s, cluster_md) M" where
  "cluster_metadata = answer ClusterMetadataQ (\<lambda>a. case a of RMetadata m \<Rightarrow> Some m | _ \<Rightarrow> None)"

definition process_token :: "secret \<Rightarrow> ('s, duration) M" where
  "process_token sec =
     bnd cluster_metadata (\<lambda>md.
     bnd (find_token sec (md_state md)) (\<lambda>tok.
     bnd now (\<lambda>n.
     if sint (time_sub (tk_expires tok) n) < sint renewal_offset then
       bnd (renew_token tok sec (md_state md)) (\<lambda>new.
       ret (millis (rt_ttl_millis new) - renewal_offset))
     else
       bnd now (\<lambda>n2.
       ret (time_sub (tk_expires tok) n2 - renewal_offset)))))"

definition token_reconcile :: "key \<Rightarrow> ('s, duration) M" where
  \<comment> \<open>the result is \<open>RequeueAfter\<close>\<close>
  "token_reconcile k =
     bnd (attempt (kget v_secret k)) (\<lambda>r. case r of
       Inl e \<Rightarrow> if is_not_found e then ret 0 else fail e
     | Inr sec \<Rightarrow> process_token sec)"

definition token_predicate :: "string \<Rightarrow> string \<Rightarrow> objmeta \<Rightarrow> bool" where
  \<comment> \<open>the event filter of \<open>SetupWithManager\<close>: the operator's namespace and the secret's name\<close>
  "token_predicate self n m = (om_namespace m = self \<and> om_name m = n)"

subsection \<open>Lemmas\<close>

lemma sint_renewal_offset [simp]: "sint renewal_offset = 86400000000000"
  by (simp add: renewal_offset_def)

lemma sint_of_int64:
  "- (2 ^ 63) \<le> d \<Longrightarrow> d < 2 ^ 63 \<Longrightarrow> sint (word_of_int d :: duration) = d"
  by (simp add: signed_of_int signed_take_bit_int_eq_self)

lemma sint_time_sub:
  "- (2 ^ 63) \<le> t - u \<Longrightarrow> t - u < 2 ^ 63 \<Longrightarrow> sint (time_sub t u) = t - u"
  using sint_of_int64 [of "t - u"] by (simp add: time_sub_def Let_def del: of_int_diff)

lemma sint_minus_offset:
  fixes d :: duration
  assumes "86400000000000 \<le> sint d"
  shows "sint (d - renewal_offset) = sint d - 86400000000000"
proof -
  have "sint d < 2 ^ 63" using sint_lt [of d] by simp
  then show ?thesis
    using assms by (simp add: sint_word_ariths signed_take_bit_int_eq_self)
qed

fun creates_token :: "event \<Rightarrow> bool" where
  "creates_token (RancherCreate _ _ _ _, _) = True"
| "creates_token _ = False"

lemma never_now [trace_intros]: "(\<And>a. \<not> q (NowQ, a)) \<Longrightarrow> never q now"
  unfolding now_def by (rule never_answer)

lemma never_decode_token [trace_intros]: "never creates_token (decode_token server tok)"
  unfolding decode_token_def
  by (intro trace_intros; auto split: option.split sum.split intro!: trace_intros)

lemma never_find_token [trace_intros]: "never creates_token (find_token sec state)"
  unfolding find_token_def token_or_exit_def
  by (auto simp: Let_def split: option.split sum.split intro!: trace_intros)

subsection \<open>Properties\<close>

text \<open>
  When both tokens of the secret decode and the secret is in the cluster's current state, the
  token used is the one that expires later, the primary one when they expire together.
\<close>

theorem later_token_wins:
  assumes keys: "sget (sc_data sec) ''baseURL'' = server" "server \<noteq> ''''"
      "sget (sc_data sec) ''token'' = cur" "cur \<noteq> ''''"
      "sget (sc_data sec) ''token.next'' = nxt" "nxt \<noteq> ''''" "sget (sc_data sec) ''token.state'' = state"
    and t: "decode_token server cur E w = (Ok t, es1, w1)"
    and nt: "decode_token server nxt E w1 = (Ok nt, es2, w2)"
  shows "\<exists>es. find_token sec state E w = (Ok (if tk_expires nt > tk_expires t then nt else t), es, w2)"
  using keys t nt
  by (simp add: find_token_def bnd_def token_or_exit_def ret_def attempt_def Let_def)

definition auth_secret :: secret where
  "auth_secret = \<lparr>sc_meta = new_meta ''monitoring'' ''rancher'', sc_immutable = None,
     sc_data = [(''baseURL'', ''https://r''), (''token'', ''a:1''), (''token.next'', ''b:2''),
       (''token.state'', ''s'')], sc_string_data = [], sc_type = ''''\<rparr>"

definition reply_token :: "string \<Rightarrow> int \<Rightarrow> rtoken" where
  "reply_token n ttl = \<lparr>rt_name = n, rt_user = ''u'', rt_token = ''t'', rt_expires = '''', rt_ttl_millis = ttl\<rparr>"

definition token_script :: "response list" where
  "token_script = [RDone, RToken (reply_token ''a'' 1), RNow 0, RDone, RToken (reply_token ''b'' 2), RNow 0]"

lemma decode_primary:
  "decode_token ''https://r'' ''a:1'' script_env (start token_script) =
     (Ok \<lparr>tk_server = ''https://r'', tk_user = ''u'', tk_id = ''a'', tk_token = ''a:1'', tk_expires = 1000000\<rparr>,
      fst (snd (decode_token ''https://r'' ''a:1'' script_env (start token_script))),
      start (drop 3 token_script))"
  by (simp add: decode_token_def bnd_def answer_def send_def script_env_def start_def token_script_def
      the_done_def ret_def the_token_def reply_token_def now_def millis_def signed_of_int)

lemma decode_next:
  "decode_token ''https://r'' ''b:2'' script_env (start (drop 3 token_script)) =
     (Ok \<lparr>tk_server = ''https://r'', tk_user = ''u'', tk_id = ''b'', tk_token = ''b:2'', tk_expires = 2000000\<rparr>,
      fst (snd (decode_token ''https://r'' ''b:2'' script_env (start (drop 3 token_script)))), start [])"
  by (simp add: decode_token_def bnd_def answer_def send_def script_env_def start_def token_script_def
      the_done_def ret_def the_token_def reply_token_def now_def millis_def signed_of_int)

lemma later_token_wins_witness:
  "\<exists>es. find_token auth_secret ''s'' script_env (start token_script) =
     (Ok \<lparr>tk_server = ''https://r'', tk_user = ''u'', tk_id = ''b'', tk_token = ''b:2'', tk_expires = 2000000\<rparr>,
      es, start [])"
  using later_token_wins [OF _ _ _ _ _ _ _ decode_primary decode_next, of auth_secret "''s''"]
  by (simp add: auth_secret_def sget_def)

text \<open>
  C36: a token with at least a day left is not renewed, and if the clock stands still between its
  two readings the next run is due exactly a day before the token expires: no wrap-around occurs
  and the delay is never negative.
\<close>

theorem fresh_token_requeued:
  assumes md: "cluster_metadata E w = (Ok md, es1, w1)"
    and tok: "find_token sec (md_state md) E w1 = (Ok tok, es2, w2)"
    and n: "now E w2 = (Ok n, es3, w3)" and n2: "now E w3 = (Ok n, es4, w4)"
    and fresh: "86400000000000 \<le> tk_expires tok - n" "tk_expires tok - n < 2 ^ 63"
  shows "\<exists>d es. process_token sec E w = (Ok d, es, w4) \<and>
     sint d = tk_expires tok - n - 86400000000000 \<and> 0 \<le> sint d \<and> (\<forall>e \<in> set es2. \<not> creates_token e) \<and>
     es = es1 @ es2 @ es3 @ es4"
proof -
  have s: "sint (time_sub (tk_expires tok) n) = tk_expires tok - n"
    using fresh by (intro sint_time_sub) auto
  have "never creates_token (find_token sec (md_state md) :: ('a, rancher_token) M)"
    by (rule never_find_token)
  then have "\<forall>e \<in> set es2. \<not> creates_token e"
    using tok unfolding never_def holds_def by metis
  moreover have "sint (time_sub (tk_expires tok) n - renewal_offset) = tk_expires tok - n - 86400000000000"
    using sint_minus_offset [of "time_sub (tk_expires tok) n"] s fresh by simp
  ultimately show ?thesis
    using md tok n n2 s fresh by (simp add: process_token_def bnd_def ret_def)
qed

definition metadata :: cluster_md where
  "metadata = \<lparr>md_uid = ''u1'', md_name = ''c1'', md_state = ''x''\<rparr>"

definition clock_script :: "int \<Rightarrow> int \<Rightarrow> response list" where
  "clock_script n n2 = [RMetadata metadata, RDone, RToken (reply_token ''a'' 172800000), RNow 0, RNow n, RNow n2]"

definition two_days :: rancher_token where
  "two_days = \<lparr>tk_server = ''https://r'', tk_user = ''u'', tk_id = ''a'', tk_token = ''a:1'',
     tk_expires = 172800000000000\<rparr>"

lemma clock_runs:
  "cluster_metadata script_env (start (clock_script n n2)) =
     (Ok metadata, [(ClusterMetadataQ, RMetadata metadata)], start (drop 1 (clock_script n n2)))"
  "find_token auth_secret (md_state metadata) script_env (start (drop 1 (clock_script n n2))) =
     (Ok two_days, [(RancherConnect ''https://r'' ''a:1'', RDone),
        (RancherByID ''https://r'' ''a:1'' ''a'', RToken (reply_token ''a'' 172800000)), (NowQ, RNow 0)],
      start [RNow n, RNow n2])"
  "now script_env (start [RNow n, RNow n2]) = (Ok n, [(NowQ, RNow n)], start [RNow n2])"
  "now script_env (start [RNow n2]) = (Ok n2, [(NowQ, RNow n2)], start [])"
  by (simp_all add: Let_def cluster_metadata_def find_token_def decode_token_def bnd_def answer_def send_def
      script_env_def start_def clock_script_def the_done_def ret_def the_token_def reply_token_def now_def
      millis_def signed_of_int token_or_exit_def attempt_def auth_secret_def sget_def metadata_def two_days_def)

lemma fresh_token_requeued_witness:
  "\<exists>d es. process_token auth_secret script_env (start (clock_script 0 0)) = (Ok d, es, start []) \<and>
     sint d = 86400000000000"
  using fresh_token_requeued [OF clock_runs(1) clock_runs(2) clock_runs(3) clock_runs(4), of 0]
  by (fastforce simp: two_days_def)

text \<open>
  If the clock passes the renewal time between its two readings, the token is not renewed and
  the delay returned is not positive, so that no further run is scheduled.
\<close>

theorem missed_renewal:
  assumes md: "cluster_metadata E w = (Ok md, es1, w1)"
    and tok: "find_token sec (md_state md) E w1 = (Ok tok, es2, w2)"
    and n: "now E w2 = (Ok n, es3, w3)" and n2: "now E w3 = (Ok n2, es4, w4)"
    and just: "86400000000000 \<le> tk_expires tok - n" "tk_expires tok - n < 2 ^ 63"
    and passed: "n \<le> n2" "tk_expires tok - n2 \<le> 86400000000000" "- (2 ^ 62) \<le> tk_expires tok - n2"
  shows "\<exists>d es. process_token sec E w = (Ok d, es, w4) \<and> sint d \<le> 0"
proof -
  have s: "sint (time_sub (tk_expires tok) n) = tk_expires tok - n"
    using just by (intro sint_time_sub) auto
  have s2: "sint (time_sub (tk_expires tok) n2) = tk_expires tok - n2"
    using passed by (intro sint_time_sub) auto
  have "sint (time_sub (tk_expires tok) n2 - renewal_offset) = tk_expires tok - n2 - 86400000000000"
    using s2 passed by (simp add: sint_word_ariths signed_take_bit_int_eq_self)
  then show ?thesis
    using md tok n n2 s just passed by (simp add: process_token_def bnd_def ret_def)
qed

lemma missed_renewal_witness:
  "\<exists>d es. process_token auth_secret script_env (start (clock_script 86400000000000 86400000000005)) =
     (Ok d, es, start []) \<and> sint d \<le> 0"
  using missed_renewal [OF clock_runs(1) clock_runs(2) clock_runs(3) clock_runs(4),
      of 86400000000000 86400000000005]
  by (simp add: two_days_def)

text \<open>
  When the primary token cannot be decoded (it was deleted or has expired) but the next one
  can, the valid next token is not used: the code reads the expiry of the nil primary token and
  panics.
\<close>

theorem next_token_alone_panics:
  assumes keys: "sget (sc_data sec) ''baseURL'' = server" "server \<noteq> ''''"
      "sget (sc_data sec) ''token'' = cur" "cur \<noteq> ''''"
      "sget (sc_data sec) ''token.next'' = nxt" "nxt \<noteq> ''''" "sget (sc_data sec) ''token.state'' = state"
    and t: "decode_token server cur E w = (Err e, es1, w1)"
    and nt: "decode_token server nxt E w1 = (Ok nt, es2, w2)"
  shows "\<exists>p es. find_token sec state E w = (Panic p, es, w2)"
  using keys t nt
  by (simp add: find_token_def bnd_def panic_def attempt_def Let_def ret_def)

lemma decode_gone:
  "decode_token ''https://r'' ''a:1'' script_env (start (RErr (Plain ''gone'') # drop 3 token_script)) =
     (Err (Plain ''gone''), [(RancherConnect ''https://r'' ''a:1'', RErr (Plain ''gone''))],
      start (drop 3 token_script))"
  by (simp add: decode_token_def bnd_def answer_def send_def script_env_def start_def fail_def)

lemma next_token_alone_panics_witness:
  "\<exists>p es. find_token auth_secret ''s'' script_env (start (RErr (Plain ''gone'') # drop 3 token_script)) =
     (Panic p, es, start [])"
  using next_token_alone_panics [OF _ _ _ _ _ _ _ decode_gone decode_next, of auth_secret "''s''"]
  by (simp add: auth_secret_def sget_def)

end
