(* ===== verification/Prometheus_Ctl.thy ===== *)
theory Prometheus_Ctl imports Servicemonitor_Ctl Hub_Client Rancher_Token begin

section \<open>The Prometheus controller (pkg/controllers/prometheus)\<close>

text \<open>
  For each Prometheus object the controller injects the cluster's labels, keeps a finalizer,
  prepares credentials and a role binding for the hub, writes the presets other charts read,
  registers the Prometheus with the hub's Grafana and Perses services, and for the default one
  writes the AppBindings that point at them.  The role binding's annotation records that the
  registration is done.
\<close>

record prom_reconciler =
  \<comment> \<open>the fields of \<open>PrometheusReconciler\<close> and the package's \<open>selfNamespace\<close>\<close>
  rp_hub :: "hub_client option"
  rp_cluster_uid :: string
  rp_hub_uid :: string
  rp_rancher_secret :: string
  rp_self_ns :: string

definition registered_key :: string where "registered_key = ''monitoring.appscode.com/registered''"
definition token_id_key :: string where "token_id_key = ''monitoring.appscode.com/token-id''"
definition presets_name :: string where "presets_name = ''monitoring-presets''"
definition sa_trickster :: string where "sa_trickster = ''trickster''"
definition cr_trickster :: string where "cr_trickster = ''appscode:trickster:proxy''"
definition preset_labels :: smap where
  "preset_labels = [(''charts.x-helm.dev/is-default-preset'', ''true'')]"

definition is_ace_spoke :: "('s, bool) M" where
  "is_ace_spoke = bnd (send ACEManagedSpokeQ) (\<lambda>a. ret (a = RBool True))"

definition the_name :: "response \<Rightarrow> string option" where
  "the_name a = (case a of RName s \<Rightarrow> Some s | _ \<Rightarrow> None)"

subsection \<open>External labels\<close>

definition ensure_external_labels :: "prometheus \<Rightarrow> ('s, prometheus) M" where
  \<comment> \<open>what \<open>prom\<close> is afterwards; a missing cluster description is only logged\<close>
  "ensure_external_labels prom =
     bnd (attempt cluster_metadata) (\<lambda>r. case r of
       Inl _ \<Rightarrow> ret prom
     | Inr cm \<Rightarrow>
         if map_of (pm_ext_labels prom) ''cluster'' = Some (md_name cm)
            \<and> map_of (pm_ext_labels prom) ''cluster_uid'' = Some (md_uid cm)
         then ret prom
         else kpatch v_prom prom (prom\<lparr>pm_ext_labels :=
           sput ''cluster_uid'' (md_uid cm) (sput ''cluster'' (md_name cm) (pm_ext_labels prom))\<rparr>))"

subsection \<open>Presets\<close>

definition preset_selector_labels :: "bool \<Rightarrow> label_selector option \<Rightarrow> ('s, smap) M" where
  "preset_selector_labels dflt sel =
     (let ls = fst (labels_for_selector sel) in
      if ls \<noteq> [] then ret ls
      else if \<not> dflt then ret [(''release'', ''kube-prometheus-stack'')]
      else bnd (with_prom rancher_managed) (\<lambda>rm.
        ret (if rm then [(''release'', ''rancher-monitoring'')]
             else [(''release'', ''kube-prometheus-stack'')])))"

definition generate_preset :: "prometheus \<Rightarrow> bool \<Rightarrow> ('s, presets) M" where
  "generate_preset p dflt =
     bnd (preset_selector_labels dflt (pm_sm_selector p)) (\<lambda>mls.
     bnd (preset_selector_labels dflt (pm_rule_selector p)) (\<lambda>rls.
     ret \<lparr>mp_agent = ''prometheus.io/operator'', mp_monitor_labels = mls,
       mp_alert_enabled = ''critical'', mp_alert_labels = rls\<rparr>))"

definition namespace_for_project :: "prometheus \<Rightarrow> ('s, string \<times> string) M" where
  \<comment> \<open>\<open>NamespaceForProjectSettings\<close>: namespace and project id; a nil selector is dereferenced\<close>
  "namespace_for_project prom =
     (if meta_key (pm_meta prom) = (rancher_ns, rancher_prom_name) then
        bnd (get_project_id ''kube-system'') (\<lambda>pid. case pid of
          None \<Rightarrow> fail (Plain (''failed to detect system projectId for Prometheus '' @ key_string (meta_key (pm_meta prom))))
        | Some p \<Rightarrow> ret (''cattle-project-'' @ p, p))
      else (case pm_sm_ns_selector prom of
        None \<Rightarrow> panic ''invalid memory address or nil pointer dereference''
      | Some ls \<Rightarrow>
          let p = sget (match_labels ls) helm_project_id in
          if p = '''' then fail (Plain (''expected '' @ helm_project_id @ '' label in Prometheus '' @
            key_string (meta_key (pm_meta prom)) @ ''  spec.serviceMonitorNamespaceSelector''))
          else ret (''cattle-project-'' @ p, p)))"

definition preset_object :: "string \<Rightarrow> chart_preset \<Rightarrow> chart_preset" where
  "preset_object bytes ob = ob\<lparr>cp_meta := (cp_meta ob)\<lparr>om_labels := preset_labels\<rparr>,
     cp_values := Some bytes\<rparr>"

definition create_cluster_preset :: "string \<Rightarrow> ('s, unit) M" where
  "create_cluster_preset bytes =
     seq (create_or_patch v_ccp \<lparr>cp_meta = new_meta '''' presets_name, cp_values = None\<rparr>
       (\<lambda>ob _. preset_object bytes ob))
     (ret ())"

definition create_project_preset :: "prometheus \<Rightarrow> string \<Rightarrow> ('s, unit) M" where
  "create_project_preset p bytes =
     bnd (namespace_for_project p) (\<lambda>(ns, _).
     seq (create_or_patch v_cp \<lparr>cp_meta = new_meta ns presets_name, cp_values = None\<rparr>
       (\<lambda>ob _. preset_object bytes ob))
     (ret ()))"

definition create_preset :: "prometheus \<Rightarrow> bool \<Rightarrow> ('s, unit) M" where
  "create_preset p dflt =
     bnd (generate_preset p dflt) (\<lambda>presets.
     bnd pures (\<lambda>C.
     bnd (with_prom federated) (\<lambda>fed.
     if fed \<and> \<not> dflt then create_project_preset p (enc_presets C presets)
     else create_cluster_preset (enc_presets C presets))))"

definition cleanup_preset :: "prometheus \<Rightarrow> bool \<Rightarrow> ('s, unit) M" where
  "cleanup_preset p dflt =
     bnd (with_prom federated) (\<lambda>fed.
     if fed \<and> \<not> dflt then
       bnd (namespace_for_project p) (\<lambda>(ns, _). kdelete v_cp (ns, presets_name))
     else kdelete v_ccp ('''', presets_name))"

subsection \<open>AppBindings\<close>

definition empty_binding :: "string \<Rightarrow> string \<Rightarrow> app_binding" where
  "empty_binding ns n = \<lparr>ab_meta = new_meta ns n, ab_type = '''', ab_app_ref = None,
     ab_client = \<lparr>cc_url = None, cc_service = None, cc_insecure = False, cc_ca = '''', cc_server_name = ''''\<rparr>,
     ab_secret = None, ab_tls_secret = None, ab_params = None\<rparr>"

definition valid_port :: "string \<Rightarrow> int option" where
  "valid_port s = (case atoi s of Some p \<Rightarrow> if 0 \<le> p \<and> p \<le> 65535 then Some p else None | None \<Rightarrow> None)"

definition to_service_reference :: "service_spec \<Rightarrow> gerr + service_ref" where
  "to_service_reference svc = (case valid_port (ss_port svc) of
     None \<Rightarrow> Inl (Plain (''invalid service port: '' @ ss_port svc))
   | Some p \<Rightarrow> Inr \<lparr>sr_scheme = ss_scheme svc, sr_namespace = ss_namespace svc, sr_name = ss_name svc,
       sr_port = p, sr_path = ss_path svc, sr_query = ss_query svc\<rparr>)"

definition prometheus_binding ::
    "prometheus \<Rightarrow> service_spec \<Rightarrow> service_ref \<Rightarrow> bool \<Rightarrow> string \<Rightarrow> app_binding \<Rightarrow> app_binding" where
  \<comment> \<open>the transform of \<open>CreatePrometheusAppBinding\<close>\<close>
  "prometheus_binding prom svc sref os ca ob = ob\<lparr>
     ab_meta := (ab_meta ob)\<lparr>om_owners := [controller_ref ''Prometheus'' (pm_meta prom)],
       om_annotations := sput ''monitoring.appscode.com/is-default-prometheus'' ''true''
         (om_annotations (ab_meta ob))\<rparr>,
     ab_type := ''Prometheus'',
     ab_app_ref := Some \<lparr>tr_group = ''monitoring.coreos.com'', tr_kind = ''Prometheus'',
       tr_namespace = om_namespace (pm_meta prom), tr_name = om_name (pm_meta prom)\<rparr>,
     ab_client := \<lparr>cc_url = None, cc_service = Some sref, cc_insecure = False,
       cc_ca = (if os then ca else ''''),
       cc_server_name = (if os then ss_name svc @ ''.'' @ ss_namespace svc @ ''.svc'' else '''')\<rparr>\<rparr>"

definition create_prometheus_binding :: "prometheus \<Rightarrow> service_spec \<Rightarrow> ('s, verb) M" where
  "create_prometheus_binding prom svc =
     bnd (lift_sum (to_service_reference svc)) (\<lambda>sref.
     bnd (with_prom openshift_managed) (\<lambda>os.
     bnd (if os then answer OpenShiftSignerQ the_name else ret '''') (\<lambda>ca.
     bnd (create_or_patch v_ab (empty_binding (om_namespace (pm_meta prom)) ''default-prometheus'')
       (\<lambda>ob _. prometheus_binding prom svc sref os ca ob)) (\<lambda>(vt, _).
     ret vt))))"

definition service_binding ::
    "prometheus \<Rightarrow> string \<Rightarrow> string \<Rightarrow> string \<Rightarrow> string \<Rightarrow> string \<Rightarrow> string \<Rightarrow> app_binding \<Rightarrow> app_binding" where
  \<comment> \<open>the common transform of the Grafana and the Perses AppBinding: annotation, type, name, URL,
     hub certificate, parameters\<close>
  "service_binding prom ann ty n u ca params ob = ob\<lparr>
     ab_meta := (ab_meta ob)\<lparr>om_owners := [controller_ref ''Prometheus'' (pm_meta prom)],
       om_annotations := sput ann ''true'' (om_annotations (ab_meta ob))\<rparr>,
     ab_type := ty,
     ab_app_ref := None,
     ab_client := \<lparr>cc_url = Some u, cc_service = None, cc_insecure = False, cc_ca = ca, cc_server_name = ''''\<rparr>,
     ab_secret := Some (n @ ''-auth''),
     ab_params := Some params\<rparr>"

definition binding_auth_secret :: "app_binding \<Rightarrow> string \<Rightarrow> string \<Rightarrow> ('s, unit) M" where
  \<comment> \<open>the \<open>-auth\<close> secret next to an AppBinding; its error is dropped\<close>
  "binding_auth_secret ab ns tok =
     seq (attempt (create_or_patch v_secret
       \<lparr>sc_meta = new_meta ns (om_name (ab_meta ab) @ ''-auth''), sc_immutable = None, sc_data = [],
          sc_string_data = [], sc_type = ''''\<rparr>
       (\<lambda>ob _. ob\<lparr>sc_meta := (sc_meta ob)\<lparr>om_owners :=
            [controller_of ''appcatalog.appscode.com/v1alpha1'' ''AppBinding'' (ab_meta ab)]\<rparr>,
          sc_string_data := [(''token'', tok)]\<rparr>)))
     (ret ())"

definition create_grafana_binding :: "hub_client \<Rightarrow> prometheus \<Rightarrow> grafana_resp \<Rightarrow> ('s, unit) M" where
  "create_grafana_binding hc prom resp =
     bnd pures (\<lambda>C.
     bnd (create_or_patch v_ab (empty_binding (om_namespace (pm_meta prom)) ''default-grafana'')
       (\<lambda>ob _. service_binding prom ''monitoring.appscode.com/is-default-grafana'' ''Grafana''
          ''default-grafana'' (gp_url resp) (hc_ca hc)
          (enc_grafana_cfg C \<lparr>gc_datasource = gp_datasource resp, gc_folder_id = gp_folder_id resp\<rparr>) ob))
     (\<lambda>(_, ab).
     binding_auth_secret ab (om_namespace (pm_meta prom)) (gp_bearer_token resp)))"

definition create_perses_binding :: "hub_client \<Rightarrow> prometheus \<Rightarrow> perses_resp \<Rightarrow> ('s, unit) M" where
  "create_perses_binding hc prom resp =
     bnd pures (\<lambda>C.
     bnd (create_or_patch v_ab (empty_binding (om_namespace (pm_meta prom)) ''default-perses'')
       (\<lambda>ob _. service_binding prom ''monitoring.appscode.com/is-default-perses'' ''Perses''
          ''default-perses'' (pp_url resp) (hc_ca hc) (enc_perses_cfg C (pp_config resp)) ob))
     (\<lambda>(_, ab).
     binding_auth_secret ab (om_namespace (pm_meta prom)) (pp_bearer_token resp)))"

subsection \<open>SetupClusterForPrometheus\<close>

definition prom_credentials ::
    "prom_reconciler \<Rightarrow> prometheus \<Rightarrow> string \<Rightarrow> ('s, rancher_token option \<times> string \<times> string) M" where
  \<comment> \<open>Rancher token, service account token, CA\<close>
  "prom_credentials R prom state =
     bnd (with_prom rancher_managed) (\<lambda>rm.
     if rm \<and> rp_rancher_secret R \<noteq> '''' then
       bnd (kget v_secret (rp_self_ns R, rp_rancher_secret R)) (\<lambda>sec.
       bnd (find_token sec state) (\<lambda>tok.
       ret (Some tok, '''', sget (sc_data sec) ''ca.crt'')))
     else
       bnd is_ace_spoke (\<lambda>ace.
       bnd (with_prom openshift_managed) (\<lambda>os.
       if \<not> ace \<or> os then
         bnd (create_or_patch v_sa \<lparr>sa_meta = new_meta (om_namespace (pm_meta prom)) sa_trickster\<rparr>
           (\<lambda>ob _. ob\<lparr>sa_meta := (sa_meta ob)\<lparr>om_owners := [controller_ref ''Prometheus'' (pm_meta prom)]\<rparr>\<rparr>))
         (\<lambda>(_, sa).
         bnd (answer (TokenSecretQ (meta_key (sa_meta sa))) (the_obj v_secret)) (\<lambda>s.
         ret (None, sget (sc_data s) ''token'', sget (sc_data s) ''ca.crt'')))
       else ret (None, '''', ''''))))"

definition trickster_role :: "cluster_role \<Rightarrow> cluster_role" where
  "trickster_role ob = ob\<lparr>cr_rules :=
     [\<lparr>pr_groups = [''''], pr_resources = [''services/proxy''], pr_verbs = [''*'']\<rparr>]\<rparr>"

definition ensure_cluster_role :: "('s, unit) M" where
  "ensure_cluster_role =
     bnd (with_prom openshift_managed) (\<lambda>os.
     if os then ret () else
     seq (create_or_patch v_crole \<lparr>cr_meta = new_meta '''' cr_trickster, cr_rules = []\<rparr>
       (\<lambda>ob _. trickster_role ob)) (ret ()))"

definition trickster_subject ::
    "prometheus \<Rightarrow> rancher_token option \<Rightarrow> bool \<Rightarrow> bool \<Rightarrow> subject" where
  "trickster_subject prom tok ace os = (case tok of
     Some t \<Rightarrow> \<lparr>su_group = '''', su_kind = ''User'', su_name = tk_user t, su_namespace = ''''\<rparr>
   | None \<Rightarrow> \<lparr>su_group = '''', su_kind = ''ServiceAccount'', su_name = sa_trickster,
       su_namespace = (if ace \<and> \<not> os then ''monitoring'' else om_namespace (pm_meta prom))\<rparr>)"

definition ensure_role_binding ::
    "prometheus \<Rightarrow> service \<Rightarrow> rancher_token option \<Rightarrow> ('s, role_binding) M" where
  "ensure_role_binding prom svc tok =
     bnd (create_or_patch_e v_rb
       \<lparr>rb_meta = new_meta (om_namespace (sv_meta svc)) cr_trickster,
          rb_ref = \<lparr>rr_group = '''', rr_kind = '''', rr_name = ''''\<rparr>, rb_subjects = []\<rparr>
       (\<lambda>ob _.
         bnd (with_prom openshift_managed) (\<lambda>os.
         bnd (if tok = None then is_ace_spoke else ret False) (\<lambda>ace.
         ret (ob\<lparr>
           rb_meta := (rb_meta ob)\<lparr>om_owners := [controller_of ''v1'' ''Service'' (sv_meta svc)]\<rparr>,
           rb_ref := \<lparr>rr_group = ''rbac.authorization.k8s.io'', rr_kind = ''ClusterRole'',
             rr_name = (if os then ''cluster-monitoring-view'' else cr_trickster)\<rparr>,
           rb_subjects := [trickster_subject prom tok ace os]\<rparr>))))) (\<lambda>(_, rb).
     ret rb)"

definition hub_config ::
    "service \<Rightarrow> service_spec \<Rightarrow> rancher_token option \<Rightarrow> string \<Rightarrow> string \<Rightarrow> ('s, prom_config) M" where
  "hub_config svc spec tok sa_token ca =
     bnd (with_prom openshift_managed) (\<lambda>os.
     let bearer = (case tok of Some t \<Rightarrow> tk_token t | None \<Rightarrow> sa_token) in
     if os then
       bnd (answer OpenShiftDomainQ the_name) (\<lambda>domain.
       ret \<lparr>pf_url = ''https://'' @ om_name (sv_meta svc) @ ''-'' @ om_namespace (sv_meta svc) @ ''.'' @ domain,
         pf_service = \<lparr>ss_scheme = '''', ss_name = '''', ss_namespace = '''', ss_port = '''', ss_path = '''',
           ss_query = ''''\<rparr>,
         pf_bearer_token = bearer, pf_tls_ca = ''''\<rparr>)
     else ret \<lparr>pf_url = '''', pf_service = spec, pf_bearer_token = bearer, pf_tls_ca = ca\<rparr>)"

definition apply_markers :: "string \<Rightarrow> rancher_token option \<Rightarrow> role_binding \<Rightarrow> role_binding" where
  "apply_markers state tok ob = (let ann = sput registered_key state (om_annotations (rb_meta ob)) in
     ob\<lparr>rb_meta := (rb_meta ob)\<lparr>om_annotations := (case tok of
        Some t \<Rightarrow> sput token_id_key (tk_id t) ann | None \<Rightarrow> sdel token_id_key ann)\<rparr>\<rparr>)"

definition mark_registered :: "role_binding \<Rightarrow> string \<Rightarrow> rancher_token option \<Rightarrow> ('s, unit) M" where
  "mark_registered rb state tok =
     seq (create_or_patch v_rb rb (\<lambda>ob _. apply_markers state tok ob)) (ret ())"

definition must_register :: "role_binding \<Rightarrow> string \<Rightarrow> rancher_token option \<Rightarrow> bool" where
  "must_register rb state tok =
     (sget (om_annotations (rb_meta rb)) registered_key \<noteq> state
      \<or> (case tok of Some t \<Rightarrow> sget (om_annotations (rb_meta rb)) token_id_key \<noteq> tk_id t | None \<Rightarrow> False))"

definition project_of :: "prometheus \<Rightarrow> bool \<Rightarrow> ('s, string) M" where
  "project_of prom dflt =
     (if dflt then ret '''' else bnd (namespace_for_project prom) (\<lambda>(_, pid). ret pid))"

definition hub_context :: "prom_reconciler \<Rightarrow> string \<Rightarrow> bool \<Rightarrow> prom_context" where
  "hub_context R pid dflt = \<lparr>px_hub_uid = rp_hub_uid R, px_cluster_uid = rp_cluster_uid R,
     px_project_id = pid, px_default = dflt, px_issue_token = False, px_client_org = ''''\<rparr>"

definition register_all ::
    "prom_reconciler \<Rightarrow> hub_client \<Rightarrow> prometheus \<Rightarrow> bool \<Rightarrow> service_spec \<Rightarrow> prom_config \<Rightarrow> ('s, unit) M" where
  \<comment> \<open>both registrations with their AppBindings\<close>
  "register_all R hc prom dflt spec cfg =
     bnd (project_of prom dflt) (\<lambda>pid.
     bnd (hub_register hc (hub_context R pid dflt) cfg) (\<lambda>resp.
     seq (if dflt then seq (create_prometheus_binding prom spec) (create_grafana_binding hc prom resp)
          else ret ())
     (bnd (hub_register_perses hc (hub_context R pid dflt) cfg) (\<lambda>presp.
     if dflt then seq (create_prometheus_binding prom spec) (create_perses_binding hc prom presp)
     else ret ()))))"

definition register_prometheus ::
    "prom_reconciler \<Rightarrow> prometheus \<Rightarrow> bool \<Rightarrow> string \<Rightarrow> rancher_token option \<Rightarrow> role_binding
     \<Rightarrow> service_spec \<Rightarrow> prom_config \<Rightarrow> ('s, unit) M" where
  \<comment> \<open>the end of \<open>SetupClusterForPrometheus\<close>\<close>
  "register_prometheus R prom dflt state tok rb spec cfg =
     (if sget (om_annotations (rb_meta rb)) registered_key = ''true'' then mark_registered rb state tok
      else (case rp_hub R of
        None \<Rightarrow> ret ()
      | Some hc \<Rightarrow>
          if must_register rb state tok then
            seq (register_all R hc prom dflt spec cfg) (mark_registered rb state tok)
          else ret ()))"

definition setup_cluster :: "prom_reconciler \<Rightarrow> prometheus \<Rightarrow> bool \<Rightarrow> ('s, unit) M" where
  "setup_cluster R prom dflt =
     bnd (with_prom (service_key (meta_key (pm_meta prom)))) (\<lambda>sk.
     bnd (kget v_service sk) (\<lambda>svc.
     bnd cluster_metadata (\<lambda>cm.
     bnd (prom_credentials R prom (md_state cm)) (\<lambda>(tok, sa_token, ca).
     seq ensure_cluster_role (
     bnd (ensure_role_binding prom svc tok) (\<lambda>rb.
     seq (create_preset prom dflt) (
     bnd (with_prom (service_spec (meta_key (pm_meta prom)) svc)) (\<lambda>spec.
     bnd (hub_config svc spec tok sa_token ca) (\<lambda>cfg.
     register_prometheus R prom dflt (md_state cm) tok rb spec cfg)))))))))"

subsection \<open>Reconcile\<close>

definition unregister_all :: "prom_reconciler \<Rightarrow> string \<Rightarrow> bool \<Rightarrow> ('s, unit) M" where
  "unregister_all R pid dflt = (case rp_hub R of
     None \<Rightarrow> ret ()
   | Some hc \<Rightarrow>
       let ctx = (hub_context R pid dflt)\<lparr>px_hub_uid := ''''\<rparr> in
       seq (hub_unregister hc ctx) (hub_unregister_perses hc ctx))"

definition drop_finalizer :: "prometheus \<Rightarrow> prometheus" where
  "drop_finalizer p = p\<lparr>pm_meta := remove_finalizer prometheus_key (pm_meta p)\<rparr>"

definition keep_finalizer :: "prometheus \<Rightarrow> prometheus" where
  "keep_finalizer p = p\<lparr>pm_meta := add_finalizer prometheus_key (pm_meta p)\<rparr>"

definition prom_delete :: "prom_reconciler \<Rightarrow> prometheus \<Rightarrow> bool \<Rightarrow> ('s, unit) M" where
  \<comment> \<open>the branch for a Prometheus that is being deleted\<close>
  "prom_delete R prom dflt =
     seq (cleanup_preset prom dflt)
     (bnd (project_of prom dflt) (\<lambda>pid.
     seq (unregister_all R pid dflt)
     (seq (create_or_patch v_prom prom (\<lambda>ob _. drop_finalizer ob))
     (ret ()))))"

definition prom_sync :: "prom_reconciler \<Rightarrow> prometheus \<Rightarrow> bool \<Rightarrow> ('s, unit) M" where
  "prom_sync R prom dflt =
     bnd (ensure_external_labels prom) (\<lambda>prom1.
     bnd (create_or_patch v_prom prom1 (\<lambda>ob _. keep_finalizer ob)) (\<lambda>(_, prom2).
     setup_cluster R prom2 dflt))"

definition prom_reconcile :: "prom_reconciler \<Rightarrow> key \<Rightarrow> ('s, unit) M" where
  \<comment> \<open>\<open>PrometheusReconciler.Reconcile\<close>\<close>
  "prom_reconcile R k =
     fetch (kget v_prom k) (\<lambda>prom.
     bnd prom_ready (\<lambda>ready.
     if \<not> ready then ret () else
     bnd (with_prom (is_default k)) (\<lambda>dflt.
     bnd (with_prom openshift_managed) (\<lambda>os.
     if os \<and> \<not> dflt then ret ()
     else if om_deleting (pm_meta prom) then prom_delete R prom dflt
     else prom_sync R prom dflt))))"

definition all_prometheuses :: "('s, key list) M" where
  \<comment> \<open>\<open>stateHandler\<close>: every Prometheus is reconciled when the cluster state or the token changes\<close>
  "all_prometheuses =
     bnd (attempt (klist v_prom all_opts)) (\<lambda>r. ret (case r of
       Inl _ \<Rightarrow> [] | Inr ps \<Rightarrow> map (meta_key \<circ> pm_meta) ps))"

definition prom_config_map_predicate :: "objmeta \<Rightarrow> bool" where
  "prom_config_map_predicate m = (om_namespace m = ''kube-public'' \<and> om_name m = ''ace-info'')"

definition prom_secret_predicate :: "prom_reconciler \<Rightarrow> objmeta \<Rightarrow> bool" where
  "prom_secret_predicate R m = (rp_rancher_secret R \<noteq> '''' \<and>
     om_namespace m = rp_self_ns R \<and> om_name m = rp_rancher_secret R)"

subsection \<open>Frames\<close>

lemma never_metadata [trace_intros]: "(\<And>a. \<not> q (ClusterMetadataQ, a)) \<Longrightarrow> never q cluster_metadata"
  unfolding cluster_metadata_def by (rule never_answer)

lemma never_ace [trace_intros]: "(\<And>a. \<not> q (ACEManagedSpokeQ, a)) \<Longrightarrow> never q is_ace_spoke"
  unfolding is_ace_spoke_def by (intro trace_intros)

lemma wo_find_token [trace_intros]: "writes_only S (find_token sec state)"
  unfolding find_token_def decode_token_def now_def token_or_exit_def
  by (auto simp: Let_def split: option.split sum.split intro!: trace_intros)

lemma wo_namespace_for_project [trace_intros]: "writes_only S (namespace_for_project p)"
  unfolding namespace_for_project_def
  by (auto simp: Let_def split: option.split intro!: trace_intros)

lemma wo_project_of [trace_intros]: "writes_only S (project_of p d)"
  unfolding project_of_def by (auto intro!: trace_intros)

lemma wo_hub [trace_intros]:
  "writes_only S (hub_register hc ctx cfg)" "writes_only S (hub_register_perses hc ctx cfg)"
  "writes_only S (hub_unregister hc ctx)" "writes_only S (hub_unregister_perses hc ctx)"
  by (intro trace_intros; simp)+

lemma wo_preset_selector_labels [trace_intros]: "writes_only S (preset_selector_labels d sel)"
  unfolding preset_selector_labels_def by (auto simp: Let_def intro!: trace_intros)

lemma wo_create_preset [trace_intros]:
  "KChartPreset \<in> S \<Longrightarrow> KClusterChartPreset \<in> S \<Longrightarrow> writes_only S (create_preset p d)"
  unfolding create_preset_def generate_preset_def create_project_preset_def create_cluster_preset_def
  by (auto intro!: trace_intros)

lemma wo_cleanup_preset [trace_intros]:
  "KChartPreset \<in> S \<Longrightarrow> KClusterChartPreset \<in> S \<Longrightarrow> writes_only S (cleanup_preset p d)"
  unfolding cleanup_preset_def by (auto intro!: trace_intros)

lemma wo_bindings [trace_intros]:
  assumes "KAppBinding \<in> S" "KSecret \<in> S"
  shows "writes_only S (create_prometheus_binding p spec)"
    "writes_only S (create_grafana_binding hc p gr)" "writes_only S (create_perses_binding hc p pr)"
  using assms
  unfolding create_prometheus_binding_def create_grafana_binding_def create_perses_binding_def
    binding_auth_secret_def
  by (auto intro!: trace_intros)

lemma wo_register_all [trace_intros]:
  "KAppBinding \<in> S \<Longrightarrow> KSecret \<in> S \<Longrightarrow> writes_only S (register_all R hc p d spec cfg)"
  unfolding register_all_def by (auto intro!: trace_intros)

lemma wo_register_prometheus [trace_intros]:
  "KAppBinding \<in> S \<Longrightarrow> KSecret \<in> S \<Longrightarrow> KRoleBinding \<in> S \<Longrightarrow>
   writes_only S (register_prometheus R p d state tok rb spec cfg)"
  unfolding register_prometheus_def mark_registered_def
  by (auto split: option.split intro!: trace_intros)

lemma wo_credentials [trace_intros]:
  "KServiceAccount \<in> S \<Longrightarrow> writes_only S (prom_credentials R p state)"
  unfolding prom_credentials_def by (auto intro!: trace_intros)

lemma wo_roles [trace_intros]:
  "KClusterRole \<in> S \<Longrightarrow> writes_only S ensure_cluster_role"
  "KRoleBinding \<in> S \<Longrightarrow> writes_only S (ensure_role_binding p svc tok)"
  unfolding ensure_cluster_role_def ensure_role_binding_def by (auto intro!: trace_intros)

lemma wo_hub_config [trace_intros]: "writes_only S (hub_config svc spec tok t ca)"
  unfolding hub_config_def by (auto simp: Let_def intro!: trace_intros)

definition setup_kinds :: "kind set" where
  "setup_kinds = {KServiceAccount, KClusterRole, KRoleBinding, KChartPreset, KClusterChartPreset,
     KAppBinding, KSecret}"

lemma wo_setup_cluster [trace_intros]: "setup_kinds \<subseteq> S \<Longrightarrow> writes_only S (setup_cluster R p d)"
  unfolding setup_cluster_def setup_kinds_def by (auto intro!: trace_intros)

subsection \<open>Properties\<close>

fun drops_prom_finalizer :: "event \<Rightarrow> bool" where
  \<comment> \<open>a patch that takes the finalizer off a Prometheus\<close>
  "drops_prom_finalizer (PatchQ (OPrometheus b) (OPrometheus n), _) =
     (prometheus_key \<in> set (om_finalizers (pm_meta b)) \<and> prometheus_key \<notin> set (om_finalizers (pm_meta n)))"
| "drops_prom_finalizer _ = False"

lemma drops_writes_prom: "drops_prom_finalizer e \<Longrightarrow> write_kind (fst e) = Some KPrometheus"
  by (induction e rule: drops_prom_finalizer.induct) auto

lemma never_drops: "writes_only S m \<Longrightarrow> KPrometheus \<notin> S \<Longrightarrow> never drops_prom_finalizer m"
  by (erule writes_only_outside) (use drops_writes_prom in auto)

lemma never_drops_sync: "never drops_prom_finalizer (prom_sync R prom dflt)"
proof -
  have a: "never drops_prom_finalizer (ensure_external_labels prom)"
    unfolding ensure_external_labels_def
    by (auto simp: v_prom_def split: sum.split intro!: trace_intros)
  have b: "never drops_prom_finalizer (create_or_patch v_prom p (\<lambda>ob _. keep_finalizer ob))" for p
    by (intro trace_intros) (simp_all add: v_prom_def keep_finalizer_def)
  have c: "never drops_prom_finalizer (setup_cluster R p dflt)" for p
    by (rule never_drops [OF wo_setup_cluster [OF order_refl]]) (simp add: setup_kinds_def)
  show ?thesis unfolding prom_sync_def by (auto intro!: trace_intros a b c)
qed

fun preset_deleted :: "event \<Rightarrow> bool" where
  "preset_deleted (DeleteQ K k, RDone) = (K \<in> {KChartPreset, KClusterChartPreset} \<and> snd k = presets_name)"
| "preset_deleted _ = False"

lemma emits_cleanup: "emits preset_deleted (cleanup_preset p d)"
proof -
  have del: "emits preset_deleted (kdelete v k)"
    if "vkind v \<in> {KChartPreset, KClusterChartPreset}" "snd k = presets_name" for v :: "'b view" and k
    unfolding kdelete_def
    by (rule emits_answer) (use that in \<open>auto simp: the_done_def split: response.splits\<close>)
  show ?thesis
    unfolding cleanup_preset_def by (intro emits_bnd_right) (auto intro!: emits_bnd_right del)
qed

lemma emits_unregister:
  "rp_hub R = Some hc \<Longrightarrow> emits (hub_ok hc unregister_path) (unregister_all R pid d)"
  "rp_hub R = Some hc \<Longrightarrow> emits (hub_ok hc perses_unregister_path) (unregister_all R pid d)"
  unfolding unregister_all_def Let_def
  by (auto intro: emits_bnd_left emits_bnd_right emits_hub)

lemma never_drops_before:
  "never drops_prom_finalizer (cleanup_preset p d)"
  "never drops_prom_finalizer (project_of p d :: ('s, string) M)"
  "never drops_prom_finalizer (unregister_all R pid d)"
proof -
  show "never drops_prom_finalizer (cleanup_preset p d)"
    by (rule never_drops [OF wo_cleanup_preset, of "{KChartPreset, KClusterChartPreset}"]) auto
  show "never drops_prom_finalizer (project_of p d :: ('s, string) M)"
    by (rule never_drops [OF wo_project_of, of "{}"]) simp
  show "never drops_prom_finalizer (unregister_all R pid d)"
    by (rule never_drops [of "{}"]) (auto simp: unregister_all_def Let_def split: option.split intro!: trace_intros)
qed

lemma guarded_prom_delete:
  assumes "rp_hub R = Some hc"
    and p: "p \<in> {hub_ok hc unregister_path, hub_ok hc perses_unregister_path, preset_deleted}"
  shows "guarded p drops_prom_finalizer (prom_delete R prom dflt)"
proof (cases "p = preset_deleted")
  case True
  show ?thesis
    unfolding prom_delete_def True
    by (rule guarded_after [OF guarded_never [OF never_drops_before(1)] emits_cleanup])
next
  case False
  then have "emits p (unregister_all R pid dflt)" for pid
    using p emits_unregister [OF assms(1)] by auto
  then show ?thesis
    unfolding prom_delete_def
    by (intro guarded_bnd guarded_never [OF never_drops_before(1)] guarded_never [OF never_drops_before(2)]
        guarded_after [OF guarded_never [OF never_drops_before(3)]]) auto
qed


definition hub_reconciler :: prom_reconciler where
  "hub_reconciler = \<lparr>rp_hub = Some \<lparr>hc_base = ''hub'', hc_token = ''t'', hc_ca = '''', hc_insecure = False\<rparr>,
     rp_cluster_uid = ''u1'', rp_hub_uid = ''h1'', rp_rancher_secret = '''', rp_self_ns = ''monitoring''\<rparr>"


definition writes_rb :: "event \<Rightarrow> bool" where
  "writes_rb e = (write_kind (fst e) = Some KRoleBinding)"

lemma never_writes_rb_register_all: "never writes_rb (register_all R hc p d spec cfg)"
  by (rule writes_only_outside [OF wo_register_all, of "{KAppBinding, KSecret}"])
     (auto simp: writes_rb_def)

lemma emits_register_all:
  "emits (hub_ok hc register_path) (register_all R hc p d spec cfg)"
  "emits (hub_ok hc perses_register_path) (register_all R hc p d spec cfg)"
  unfolding register_all_def
  by (intro emits_bnd_right emits_bnd_left [OF emits_hub(1)] emits_bnd_left [OF emits_hub(2)])+


definition plain_rb :: role_binding where
  "plain_rb = \<lparr>rb_meta = new_meta ''monitoring'' cr_trickster,
     rb_ref = \<lparr>rr_group = '''', rr_kind = '''', rr_name = ''''\<rparr>, rb_subjects = []\<rparr>"


text \<open>
  Whatever the services answer, the controller writes only service accounts, roles, role
  bindings, presets, AppBindings, secrets and Prometheus objects: the kinds its cluster role must
  allow.
\<close>

theorem prom_reconcile_writes:
  "writes_only (insert KPrometheus setup_kinds) (prom_reconcile R k)"
proof -
  have sync: "writes_only (insert KPrometheus setup_kinds) (prom_sync R prom d)" for prom d
    unfolding prom_sync_def ensure_external_labels_def
    by (auto split: sum.split intro!: trace_intros)
  have del: "writes_only (insert KPrometheus setup_kinds) (prom_delete R prom d)" for prom d
    unfolding prom_delete_def unregister_all_def
    by (auto simp: Let_def setup_kinds_def split: option.split intro!: trace_intros)
  show ?thesis
    unfolding prom_reconcile_def by (auto intro!: trace_intros sync del)
qed

lemma returns_labels:
  "returns (\<lambda>ls. ls \<noteq> [] \<and> (fst (labels_for_selector sel) \<noteq> [] \<longrightarrow> ls = fst (labels_for_selector sel)))
     (preset_selector_labels d sel)"
  unfolding preset_selector_labels_def Let_def
  by (auto intro!: returns_ret returns_bnd split: if_splits)



text \<open>
  The port the detector prints into the service specification is the port the AppBinding
  refers to, for every valid port number; when the service has no port of the expected name the
  AppBinding is an error instead of a wrong port.
\<close>

theorem service_port_roundtrip:
  "(case find_port (sv_ports svc) (if d = OpenshiftProm then ''web'' else ''http-web'') of
      None \<Rightarrow> \<exists>e. to_service_reference (service_spec k svc d) = Inl e
    | Some p \<Rightarrow> (if 0 \<le> p \<and> p \<le> 65535
        then \<exists>ref. to_service_reference (service_spec k svc d) = Inr ref \<and> sr_port ref = p
        else True))"
proof -
  have port: "ss_port (service_spec k svc d) = port_string svc (if d = OpenshiftProm then ''web'' else ''http-web'')"
    by (cases d) (simp_all add: plain_service_spec_def)
  have rt: "valid_port (itoa p) = Some p" if "0 \<le> p" "p \<le> 65535" for p
    using that by (simp add: valid_port_def atoi_itoa)
  have "valid_port [] = None" by (simp add: valid_port_def atoi_def)
  then show ?thesis
    using port rt by (auto simp: to_service_reference_def port_string_def split: option.splits)
qed

text \<open>
  The secret with the bearer token that a Grafana or Perses AppBinding names may fail to be
  written without any error: the step succeeds even when the API server refuses every request, so
  the registration is marked as done and the token, which the hub hands out once, is lost.
\<close>

theorem lost_auth_secret:
  "holds (binding_auth_secret ab ns tok) (\<lambda>r es. r = Ok ())"
proof -
  have np: "no_panic (create_or_patch v x f :: ('s, verb \<times> 'b) M)" for v :: "'b view" and x f
    by (rule no_panic_create_or_patch)
  have att: "holds (attempt m) (\<lambda>r es. \<exists>x. r = Ok x)" if "no_panic m" for m :: "('s, 'b) M"
    by (rule holds_attempt [OF that [unfolded no_panic_def]]) auto
  show ?thesis
    unfolding binding_auth_secret_def by (rule holds_bnd [OF att [OF np]]) auto
qed

text \<open>
  A preset that is already gone blocks the deletion for good: the reconciler returns the
  not-found error of its own delete call and never reaches the hub or the finalizer.
\<close>

theorem missing_preset_blocks_deletion:
  assumes "w_prom w = Some d" "\<And>s. fst (exec E (DeleteQ KClusterChartPreset ('''', presets_name)) s) = RErr e"
  shows "\<exists>es w'. prom_delete R prom True E w = (Err e, es, w') \<and>
     map fst es = [DeleteQ KClusterChartPreset ('''', presets_name)]"
  using assms(1) assms(2) [of "w_ext w"]
  by (cases "exec E (DeleteQ KClusterChartPreset ('''', presets_name)) (w_ext w)")
     (simp add: prom_delete_def cleanup_preset_def bnd_def with_prom_set kdelete_def answer_def
       send_def fail_def)

definition no_objects :: "unit env" where
  "no_objects = \<lparr>exec = (\<lambda>q s. (RErr (ApiErr NotFound ''not found''), s)), codecs = plain_codec\<rparr>"

lemma missing_preset_blocks_deletion_witness:
  "\<exists>es w'. prom_delete hub_reconciler team_prom True no_objects
       ((start ())\<lparr>w_prom := Some (StandaloneProm False False True)\<rparr>) =
     (Err (ApiErr NotFound ''not found''), es, w') \<and>
     map fst es = [DeleteQ KClusterChartPreset ('''', presets_name)]"
  by (rule missing_preset_blocks_deletion) (simp_all add: no_objects_def)

end
