(* ===== verification/Namespace_Ctl.thy ===== *)
theory Namespace_Ctl imports Prometheus_Ctl begin

section \<open>Client organizations (pkg/controllers/namespace, pkg/controllers/clientorg)\<close>

text \<open>
  A namespace that carries the client organization label gets a second one for its monitoring:
  the controller creates it, binds the organization's group to a role there, registers the default
  Prometheus with the hub in the organization's name, and copies every dashboard into it with the
  namespace variable pinned.  The teardown withdraws the registrations, deletes the copies and
  takes the finalizer off.
\<close>

record org_reconciler =
  \<comment> \<open>\<open>ClientOrgReconciler\<close>\<close>
  ro_hub :: "hub_client option"
  ro_cluster_uid :: string
  ro_hub_uid :: string

definition client_org_key :: string where "client_org_key = ''ace.appscode.com/client-org''"
definition ace_org_id_key :: string where "ace_org_id_key = ''ace.appscode.com/org-id''"
definition client_org_monitoring_key :: string where
  "client_org_monitoring_key = ''ace.appscode.com/client-org-monitoring''"
definition src_ref_key :: string where "src_ref_key = ''meta.appcode.com/source''"
definition src_hash_key :: string where "src_hash_key = ''meta.appcode.com/hash''"
definition cleaned_up_key :: string where "cleaned_up_key = ''meta.appcode.com/cleaned-up''"
definition cr_client_org :: string where "cr_client_org = ''appscode:client-org:monitoring''"
definition ab_grafana :: string where "ab_grafana = ''grafana''"
definition ab_perses :: string where "ab_perses = ''perses''"

definition monitoring_namespace :: "string \<Rightarrow> string" where
  "monitoring_namespace ns = ns @ ''-monitoring''"

definition is_active_client_org :: "namespace \<Rightarrow> bool" where
  "is_active_client_org ns = (\<not> om_deleting (ns_meta ns)
     \<and> sget (om_labels (ns_meta ns)) client_org_key \<noteq> ''''
     \<and> sget (om_labels (ns_meta ns)) client_org_key \<noteq> ''terminating'')"

definition org_context :: "org_reconciler \<Rightarrow> string \<Rightarrow> prom_context" where
  "org_context R org = \<lparr>px_hub_uid = ro_hub_uid R, px_cluster_uid = ro_cluster_uid R,
     px_project_id = '''', px_default = False, px_issue_token = True, px_client_org = org\<rparr>"

subsection \<open>Teardown\<close>

definition unfinalized :: "namespace \<Rightarrow> namespace" where
  "unfinalized ns = ns\<lparr>ns_meta := remove_finalizer prometheus_key (ns_meta ns)\<rparr>"

definition finalized :: "namespace \<Rightarrow> namespace" where
  "finalized ns = ns\<lparr>ns_meta := add_finalizer prometheus_key (ns_meta ns)\<rparr>"

definition unregister_org :: "org_reconciler \<Rightarrow> string \<Rightarrow> ('s, unit) M" where
  \<comment> \<open>best effort: both errors are logged only\<close>
  "unregister_org R org = (case ro_hub R of
     None \<Rightarrow> ret ()
   | Some hc \<Rightarrow>
       seq (attempt (hub_unregister hc (org_context R org)))
       (seq (attempt (hub_unregister_perses hc (org_context R org))) (ret ())))"

definition handle_deletion :: "org_reconciler \<Rightarrow> namespace \<Rightarrow> string \<Rightarrow> ('s, unit) M" where
  "handle_deletion R ns org =
     seq (unregister_org R org)
     (seq (ignore_not_found (kdelete_all_of v_gd (monitoring_namespace (om_name (ns_meta ns)))))
     (seq (ignore_not_found (kdelete_all_of v_pd (monitoring_namespace (om_name (ns_meta ns)))))
     (seq (patch v_ns ns unfinalized) (ret ()))))"

definition cleaned_up :: "namespace \<Rightarrow> namespace" where
  "cleaned_up ns = ns\<lparr>ns_meta := (ns_meta ns)\<lparr>om_annotations :=
     sput cleaned_up_key ''true'' (om_annotations (ns_meta ns))\<rparr>\<rparr>"

definition mark_cleaned_up :: "namespace \<Rightarrow> ('s, unit) M" where
  "mark_cleaned_up ns = seq (patch v_ns ns cleaned_up) (ret ())"

subsection \<open>The monitoring namespace\<close>

definition ensure_finalizer :: "namespace \<Rightarrow> ('s, namespace) M" where
  "ensure_finalizer ns = bnd (patch v_ns ns finalized) (\<lambda>(_, new). ret new)"

definition ensure_monitoring_namespace :: "namespace \<Rightarrow> ('s, namespace \<times> requeue) M" where
  "ensure_monitoring_namespace ns =
     (let mon = monitoring_namespace (om_name (ns_meta ns)) in
      bnd (attempt (kget v_ns ('''', mon))) (\<lambda>r. case r of
        Inl e \<Rightarrow>
          if is_not_found e then
            bnd (kcreate v_ns \<lparr>ns_meta = new_meta '''' mon\<rparr>) (\<lambda>new. ret (new, 0))
          else fail e
      | Inr cur \<Rightarrow> ret (cur, if om_deleting (ns_meta cur) then seconds 10 else 0)))"

definition org_role_binding :: "string \<Rightarrow> role_binding \<Rightarrow> role_binding" where
  "org_role_binding org ob = ob\<lparr>
     rb_ref := \<lparr>rr_group = ''rbac.authorization.k8s.io'', rr_kind = ''ClusterRole'', rr_name = cr_client_org\<rparr>,
     rb_subjects := [\<lparr>su_group = ''rbac.authorization.k8s.io'', su_kind = ''Group'',
       su_name = ''ace.org.'' @ org, su_namespace = ''''\<rparr>]\<rparr>"

definition ensure_monitoring_role_binding :: "namespace \<Rightarrow> string \<Rightarrow> ('s, unit) M" where
  "ensure_monitoring_role_binding mon org =
     seq (create_or_patch v_rb
       \<lparr>rb_meta = new_meta (om_name (ns_meta mon)) cr_client_org,
          rb_ref = \<lparr>rr_group = '''', rr_kind = '''', rr_name = ''''\<rparr>, rb_subjects = []\<rparr>
       (\<lambda>ob _. org_role_binding org ob))
     (ret ())"

subsection \<open>Registration with the hub\<close>

definition build_prometheus_config :: "key \<Rightarrow> service \<Rightarrow> ('s, prom_config) M" where
  "build_prometheus_config prom_key svc =
     bnd (kget v_rb (om_namespace (sv_meta svc), cr_trickster)) (\<lambda>rb.
     if sget (om_annotations (rb_meta rb)) registered_key = '''' then
       fail (Plain (''rolebinding '' @ om_namespace (rb_meta rb) @ ''/'' @ om_name (rb_meta rb) @
         '' is not registered yet''))
     else
       bnd (with_prom (service_spec prom_key svc)) (\<lambda>spec.
       bnd (with_prom openshift_managed) (\<lambda>os.
       if os then
         bnd (answer OpenShiftDomainQ the_name) (\<lambda>domain.
         bnd (answer (TokenSecretQ (fst prom_key, sa_trickster)) (the_obj v_secret)) (\<lambda>s.
         ret \<lparr>pf_url = ''https://'' @ om_name (sv_meta svc) @ ''-'' @ om_namespace (sv_meta svc) @ ''.'' @ domain,
           pf_service = \<lparr>ss_scheme = '''', ss_name = '''', ss_namespace = '''', ss_port = '''', ss_path = '''',
             ss_query = ''''\<rparr>,
           pf_bearer_token = sget (sc_data s) ''token'', pf_tls_ca = ''''\<rparr>))
       else ret \<lparr>pf_url = '''', pf_service = spec, pf_bearer_token = '''', pf_tls_ca = ''''\<rparr>)))"

definition app_binding_exists :: "string \<Rightarrow> string \<Rightarrow> ('s, bool) M" where
  "app_binding_exists ns n = bnd (attempt (kget v_ab (ns, n))) (\<lambda>r.
     ret (case r of Inl _ \<Rightarrow> False | Inr _ \<Rightarrow> True))"

definition org_binding :: "string \<Rightarrow> string \<Rightarrow> string \<Rightarrow> string \<Rightarrow> string \<Rightarrow> app_binding \<Rightarrow> app_binding" where
  \<comment> \<open>the common transform of both AppBindings: type, name, URL, hub certificate, parameters\<close>
  "org_binding ty n u ca params ob = ob\<lparr>
     ab_type := ty,
     ab_app_ref := None,
     ab_client := \<lparr>cc_url = Some u, cc_service = None, cc_insecure = False, cc_ca = ca, cc_server_name = ''''\<rparr>,
     ab_secret := Some (n @ ''-auth''),
     ab_params := Some params\<rparr>"

definition create_org_grafana :: "hub_client \<Rightarrow> string \<Rightarrow> grafana_resp \<Rightarrow> ('s, unit) M" where
  "create_org_grafana hc mon resp =
     bnd pures (\<lambda>C.
     bnd (create_or_patch v_ab (empty_binding mon ab_grafana)
       (\<lambda>ob _. org_binding ''Grafana'' ab_grafana (gp_url resp) (hc_ca hc)
          (enc_grafana_cfg C \<lparr>gc_datasource = gp_datasource resp, gc_folder_id = gp_folder_id resp\<rparr>) ob))
     (\<lambda>(_, ab). binding_auth_secret ab mon (gp_bearer_token resp)))"

definition create_org_perses :: "hub_client \<Rightarrow> string \<Rightarrow> perses_resp \<Rightarrow> ('s, unit) M" where
  "create_org_perses hc mon resp =
     bnd pures (\<lambda>C.
     bnd (create_or_patch v_ab (empty_binding mon ab_perses)
       (\<lambda>ob _. org_binding ''Perses'' ab_perses (pp_url resp) (hc_ca hc) (enc_perses_cfg C (pp_config resp)) ob))
     (\<lambda>(_, ab). binding_auth_secret ab mon (pp_bearer_token resp)))"

definition register_grafana_backend ::
    "org_reconciler \<Rightarrow> hub_client \<Rightarrow> string \<Rightarrow> prom_config \<Rightarrow> string \<Rightarrow> ('s, unit) M" where
  "register_grafana_backend R hc mon cfg org =
     bnd (attempt (hub_register hc (org_context R org) cfg)) (\<lambda>r. case r of
       Inl e \<Rightarrow> fail (Wrap (''failed to register grafana backend for client-org '' @ org) e)
     | Inr resp \<Rightarrow> create_org_grafana hc mon resp)"

definition register_perses_backend ::
    "org_reconciler \<Rightarrow> hub_client \<Rightarrow> string \<Rightarrow> prom_config \<Rightarrow> string \<Rightarrow> ('s, unit) M" where
  "register_perses_backend R hc mon cfg org =
     bnd (attempt (hub_register_perses hc (org_context R org) cfg)) (\<lambda>r. case r of
       Inl e \<Rightarrow> fail (Wrap (''failed to register perses backend for client-org '' @ org) e)
     | Inr resp \<Rightarrow> create_org_perses hc mon resp)"

definition registered_state :: "string \<Rightarrow> namespace \<Rightarrow> namespace" where
  "registered_state state ns = ns\<lparr>ns_meta := (ns_meta ns)\<lparr>om_annotations :=
     sput registered_key state (om_annotations (ns_meta ns))\<rparr>\<rparr>"

definition set_namespace_marker :: "namespace \<Rightarrow> string \<Rightarrow> ('s, unit) M" where
  "set_namespace_marker mon state = seq (patch v_ns mon (registered_state state)) (ret ())"

definition aggregate :: "gerr list \<Rightarrow> ('s, unit) M" where
  \<comment> \<open>\<open>utilerrors.NewAggregate\<close>: nil for no errors\<close>
  "aggregate es = (if es = [] then ret () else fail (Agg es))"

definition needs_backend :: "namespace \<Rightarrow> string \<Rightarrow> string \<Rightarrow> ('s, bool) M" where
  \<comment> \<open>the shared marker is stale or the backend's AppBinding is missing\<close>
  "needs_backend mon state ab =
     (if sget (om_annotations (ns_meta mon)) registered_key \<noteq> state then ret True
      else bnd (app_binding_exists (om_name (ns_meta mon)) ab) (\<lambda>found. ret (\<not> found)))"

definition register_backends ::
    "org_reconciler \<Rightarrow> hub_client \<Rightarrow> namespace \<Rightarrow> prom_config \<Rightarrow> string \<Rightarrow> string \<Rightarrow> ('s, unit) M" where
  "register_backends R hc mon cfg org state =
     bnd (needs_backend mon state ab_grafana) (\<lambda>g.
     bnd (if g then collect_err (register_grafana_backend R hc (om_name (ns_meta mon)) cfg org)
          else ret []) (\<lambda>e1.
     bnd (needs_backend mon state ab_perses) (\<lambda>p.
     bnd (if p then collect_err (register_perses_backend R hc (om_name (ns_meta mon)) cfg org)
          else ret []) (\<lambda>e2.
     bnd (if e1 = [] \<and> e2 = [] then collect_err (set_namespace_marker mon state) else ret []) (\<lambda>e3.
     aggregate (e1 @ e2 @ e3))))))"

subsection \<open>Copying dashboards\<close>

definition is_dashboard_source :: "objmeta \<Rightarrow> bool" where
  "is_dashboard_source m =
     (\<not> (shas (om_annotations m) src_ref_key \<or> has_suffix (om_namespace m) ''-monitoring''))"

definition client_dashboard_title :: "string \<Rightarrow> string" where
  "client_dashboard_title t = trim_space (trim_prefix t ''KubeDB /'')"

definition pin_namespace :: "string \<Rightarrow> templ_var \<Rightarrow> templ_var" where
  "pin_namespace ns v = (if tv_name v \<noteq> ''namespace'' then v
     else v\<lparr>tv_type := ''constant'', tv_query := AStr ns\<rparr>)"

definition client_board :: "string \<Rightarrow> board \<Rightarrow> board" where
  "client_board ns b = b\<lparr>bo_vars := map (pin_namespace ns) (bo_vars b),
     bo_title := client_dashboard_title (bo_title b)\<rparr>"

definition copy_meta :: "codec \<Rightarrow> object \<Rightarrow> bool \<Rightarrow> objmeta \<Rightarrow> objmeta" where
  \<comment> \<open>labels and annotations of a copy of \<open>src\<close>; they are taken over when the copy is created\<close>
  "copy_meta C src create m =
     (let m1 = (if create then m\<lparr>om_labels := om_labels (obj_meta src),
          om_annotations := om_annotations (obj_meta src)\<rparr> else m) in
      m1\<lparr>om_annotations := sput src_hash_key (obj_hash C src)
        (sput src_ref_key (key_string (obj_key src)) (om_annotations m1))\<rparr>)"

definition empty_grafana_dashboard :: "string \<Rightarrow> string \<Rightarrow> grafana_dashboard" where
  "empty_grafana_dashboard ns n = \<lparr>gd_meta = new_meta ns n, gd_ref = None, gd_model = None,
     gd_overwrite = False, gd_templatize = None,
     gd_status = \<lparr>gs_observed = 0, gs_phase = PhaseNone, gs_reason = '''', gs_dashboard = None,
       gs_conditions = []\<rparr>\<rparr>"

definition empty_perses_dashboard :: "string \<Rightarrow> string \<Rightarrow> perses_dashboard" where
  "empty_perses_dashboard ns n = \<lparr>pd_meta = new_meta ns n, pd_ref = None, pd_model = None,
     pd_overwrite = False, pd_templatize = None,
     pd_status = \<lparr>ps_observed = 0, ps_phase = PhaseNone, ps_reason = '''', ps_dashboard = None,
       ps_conditions = []\<rparr>\<rparr>"

definition copied_grafana ::
    "codec \<Rightarrow> string \<Rightarrow> grafana_dashboard \<Rightarrow> string \<Rightarrow> grafana_dashboard \<Rightarrow> bool \<Rightarrow> grafana_dashboard" where
  "copied_grafana C mon src bytes ob create = ob\<lparr>
     gd_meta := copy_meta C (OGrafanaDashboard src) create (gd_meta ob),
     gd_overwrite := gd_overwrite src, gd_templatize := gd_templatize src,
     gd_ref := Some (mon, ab_grafana), gd_model := Some bytes\<rparr>"

definition copied_perses ::
    "codec \<Rightarrow> string \<Rightarrow> perses_dashboard \<Rightarrow> string \<Rightarrow> perses_dashboard \<Rightarrow> bool \<Rightarrow> perses_dashboard" where
  "copied_perses C mon src bytes ob create = ob\<lparr>
     pd_meta := copy_meta C (OPersesDashboard src) create (pd_meta ob),
     pd_overwrite := pd_overwrite src, pd_templatize := pd_templatize src,
     pd_ref := Some (mon, ab_perses), pd_model := Some bytes\<rparr>"

definition missing_model :: "string \<Rightarrow> objmeta \<Rightarrow> gerr" where
  "missing_model kd m = ApiErr BadRequest (kd @ '' '' @ key_string (meta_key m) @ '' is missing a model'')"

definition bad_model :: "objmeta \<Rightarrow> string \<Rightarrow> gerr" where
  "bad_model m e = Plain (''failed to unmarshal model for GrafanaDashboard '' @ key_string (meta_key m) @
     '', reason: '' @ e)"

definition copy_grafana :: "string \<Rightarrow> string \<Rightarrow> grafana_dashboard \<Rightarrow> ('s, gerr list) M" where
  \<comment> \<open>one round of the loop: the soft errors of one dashboard\<close>
  "copy_grafana ns mon d =
     (if \<not> is_dashboard_source (gd_meta d) then ret []
      else (case gd_model d of
        None \<Rightarrow> fail (missing_model ''GrafanaDashboard'' (gd_meta d))
      | Some raw \<Rightarrow>
          bnd pures (\<lambda>C. case dec_board C raw of
            Inl e \<Rightarrow> fail (bad_model (gd_meta d) e)
          | Inr b \<Rightarrow>
              let bytes = enc_board C (client_board ns b) in
              collect_err (seq (create_or_patch v_gd (empty_grafana_dashboard mon (om_name (gd_meta d)))
                (copied_grafana C mon d bytes)) (ret ())))))"

definition copy_perses :: "string \<Rightarrow> perses_dashboard \<Rightarrow> ('s, gerr list) M" where
  \<comment> \<open>the display of a Perses dashboard is a pointer, dereferenced without a check\<close>
  "copy_perses mon d =
     (if \<not> is_dashboard_source (pd_meta d) then ret []
      else (case pd_model d of
        None \<Rightarrow> fail (missing_model ''PersesDashboard'' (pd_meta d))
      | Some raw \<Rightarrow>
          bnd pures (\<lambda>C. case dec_perses C raw of
            Inl e \<Rightarrow> fail (bad_model (pd_meta d) e)
          | Inr b \<Rightarrow> (case pb_display b of
              None \<Rightarrow> panic ''invalid memory address or nil pointer dereference''
            | Some (title, descr) \<Rightarrow>
                let bytes = enc_perses C (b\<lparr>pb_display := Some (client_dashboard_title title, descr)\<rparr>) in
                collect_err (seq (create_or_patch v_pd (empty_perses_dashboard mon (om_name (pd_meta d)))
                  (copied_perses C mon d bytes)) (ret ()))))))"

definition copy_grafana_dashboards :: "namespace \<Rightarrow> namespace \<Rightarrow> ('s, gerr list) M" where
  "copy_grafana_dashboards ns mon =
     bnd (klist v_gd all_opts)
       (collect_all (copy_grafana (om_name (ns_meta ns)) (om_name (ns_meta mon))))"

definition copy_perses_dashboards :: "namespace \<Rightarrow> ('s, gerr list) M" where
  "copy_perses_dashboards mon =
     bnd (klist v_pd all_opts) (collect_all (copy_perses (om_name (ns_meta mon))))"

definition copy_dashboards :: "namespace \<Rightarrow> namespace \<Rightarrow> ('s, unit) M" where
  "copy_dashboards ns mon =
     bnd (copy_grafana_dashboards ns mon) (\<lambda>e1.
     bnd (copy_perses_dashboards mon) (\<lambda>e2.
     aggregate (e1 @ e2)))"

subsection \<open>Reconcile\<close>

definition org_provision :: "org_reconciler \<Rightarrow> namespace \<Rightarrow> namespace \<Rightarrow> string \<Rightarrow> ('s, unit) M" where
  \<comment> \<open>the rest of \<open>Reconcile\<close> once the monitoring namespace is there\<close>
  "org_provision R ns mon org =
     seq (ensure_monitoring_role_binding mon org)
     (bnd (klist v_prom all_opts) (\<lambda>proms.
      bnd (default_prometheus proms) (\<lambda>p. case p of
        None \<Rightarrow> fail (Plain ''failed to detect default Prometheus'')
      | Some prom \<Rightarrow>
          bnd (with_prom (service_key (meta_key (pm_meta prom)))) (\<lambda>sk.
          bnd (kget v_service sk) (\<lambda>svc.
          bnd (build_prometheus_config (meta_key (pm_meta prom)) svc) (\<lambda>cfg.
          seq (case ro_hub R of
            None \<Rightarrow> ret ()
          | Some hc \<Rightarrow>
              bnd cluster_metadata (\<lambda>cm.
              register_backends R hc mon cfg org (md_state cm)))
          (copy_dashboards ns mon)))))))"

definition org_sync :: "org_reconciler \<Rightarrow> key \<Rightarrow> namespace \<Rightarrow> string \<Rightarrow> ('s, requeue) M" where
  \<comment> \<open>a live namespace: read it again past the cache, then provision\<close>
  "org_sync R k ns org =
     fetch_result (kget_uncached v_ns k) (\<lambda>fresh.
     if \<not> is_active_client_org fresh then ret 0 else
     bnd (ensure_finalizer ns) (\<lambda>ns1.
     bnd (ensure_monitoring_namespace ns1) (\<lambda>(mon, after).
     if after > 0 then ret after
     else seq (org_provision R ns1 mon org) (ret 0))))"

definition org_terminate :: "org_reconciler \<Rightarrow> namespace \<Rightarrow> string \<Rightarrow> ('s, requeue) M" where
  \<comment> \<open>the label says "terminating": clean up once\<close>
  "org_terminate R ns org =
     (if sget (om_annotations (ns_meta ns)) cleaned_up_key = ''true'' then ret 0
      else seq (handle_deletion R ns org) (seq (mark_cleaned_up ns) (ret 0)))"

definition federated_rancher :: "prom_detector \<Rightarrow> bool" where
  "federated_rancher d = (rancher_managed d \<and> federated d)"

definition org_reconcile :: "org_reconciler \<Rightarrow> key \<Rightarrow> ('s, requeue) M" where
  "org_reconcile R k =
     fetch_result (kget v_ns k) (\<lambda>ns.
     let org = sget (om_annotations (ns_meta ns)) ace_org_id_key in
     if sget (om_labels (ns_meta ns)) client_org_key = '''' then ret 0
     else if org = '''' then ret 0
     else
       bnd prom_ready (\<lambda>ready.
       if \<not> ready then ret (seconds 30) else
       bnd (with_prom federated_rancher) (\<lambda>fed.
       if fed then fail (Plain (''client organization mode is not supported when federated Prometheus '' @
         ''is used in a Rancher managed cluster''))
       else if om_deleting (ns_meta ns) then seq (handle_deletion R ns org) (ret 0)
       else if sget (om_labels (ns_meta ns)) client_org_key = ''terminating'' then org_terminate R ns org
       else org_sync R k ns org)))"

subsection \<open>Event sources\<close>

definition org_predicate :: "objmeta \<Rightarrow> bool" where
  "org_predicate m = ((sget (om_labels m) client_org_key = ''true''
       \<or> sget (om_labels m) client_org_key = ''terminating'')
     \<and> sget (om_labels m) client_org_monitoring_key \<noteq> ''false'')"

definition trickster_predicate :: "objmeta \<Rightarrow> bool" where
  \<comment> \<open>the filter on service accounts: a label, where the Prometheus controller sets an annotation\<close>
  "trickster_predicate m = (om_name m = sa_trickster \<and> sget (om_labels m) registered_key \<noteq> '''')"

definition orgs_for_token :: "('s, key list) M" where
  "orgs_for_token =
     bnd (attempt (klist v_ns (all_opts\<lparr>lo_labels := [(client_org_key, ''true'')]\<rparr>))) (\<lambda>r. ret (case r of
       Inl _ \<Rightarrow> []
     | Inr nss \<Rightarrow> map (\<lambda>ns. ('''', om_name (ns_meta ns))) (filter (\<lambda>ns. \<not> om_deleting (ns_meta ns)) nss)))"

subsection \<open>Frames\<close>

lemma wo_unregister_org [trace_intros]: "writes_only S (unregister_org R org)"
  unfolding unregister_org_def by (auto split: option.split intro!: trace_intros)

lemma no_panic_hub [trace_intros]:
  "no_panic (hub_unregister hc ctx)" "no_panic (hub_unregister_perses hc ctx)"
  unfolding hub_unregister_def hub_unregister_perses_def hub_post_def
  by (intro trace_intros; auto intro!: trace_intros)+

lemma wo_handle_deletion [trace_intros]:
  "{KGrafanaDashboard, KPersesDashboard, KNamespace} \<subseteq> S \<Longrightarrow> writes_only S (handle_deletion R ns org)"
  unfolding handle_deletion_def by (auto intro!: trace_intros)

lemma wo_binding_auth_secret [trace_intros]: "KSecret \<in> S \<Longrightarrow> writes_only S (binding_auth_secret ab ns tok)"
  unfolding binding_auth_secret_def by (auto intro!: trace_intros)

lemma wo_org_backends [trace_intros]:
  assumes "KAppBinding \<in> S" "KSecret \<in> S"
  shows "writes_only S (register_grafana_backend R hc mon cfg org)"
    "writes_only S (register_perses_backend R hc mon cfg org)"
  using assms
  unfolding register_grafana_backend_def register_perses_backend_def create_org_grafana_def create_org_perses_def
  by (auto split: sum.split intro!: trace_intros)

lemma never_collect_err [trace_intros]: "never q m \<Longrightarrow> never q (collect_err m)"
  unfolding collect_err_def by (intro trace_intros)

lemma never_aggregate [trace_intros]: "never q (aggregate es)"
  unfolding aggregate_def by (auto intro!: trace_intros)

lemma never_collect_all [trace_intros]:
  "(\<And>x. x \<in> set xs \<Longrightarrow> never q (f x)) \<Longrightarrow> never q (collect_all f xs)"
  by (induction xs) (auto intro!: trace_intros)

lemma wo_needs_backend [trace_intros]: "writes_only S (needs_backend mon state ab)"
  unfolding needs_backend_def app_binding_exists_def by (auto intro!: trace_intros)

subsection \<open>Properties\<close>

fun drops_org_finalizer :: "event \<Rightarrow> bool" where
  \<comment> \<open>a patch that takes the controller's finalizer off a namespace\<close>
  "drops_org_finalizer (PatchQ (ONamespace b) (ONamespace n), _) =
     (prometheus_key \<in> set (om_finalizers (ns_meta b)) \<and> prometheus_key \<notin> set (om_finalizers (ns_meta n)))"
| "drops_org_finalizer _ = False"

definition gone :: "kind \<Rightarrow> string \<Rightarrow> event \<Rightarrow> bool" where
  \<comment> \<open>the server deleted every object of a kind in a namespace, or has none\<close>
  "gone K ns e = (\<exists>a. e = (DeleteAllOfQ K ns, a) \<and> (a = RDone \<or> (\<exists>x. a = RErr x \<and> is_not_found x)))"

lemma drops_org_writes: "drops_org_finalizer e \<Longrightarrow> write_kind (fst e) = Some KNamespace"
  by (induction e rule: drops_org_finalizer.induct) auto

lemma never_drops_org: "writes_only S m \<Longrightarrow> KNamespace \<notin> S \<Longrightarrow> never drops_org_finalizer m"
  by (erule writes_only_outside) (use drops_org_writes in auto)

lemma emits_gone:
  "emits (gone (vkind v) ns) (ignore_not_found (kdelete_all_of v ns))"
  unfolding ignore_not_found_def kdelete_all_of_def emits_def
proof (rule holds_bnd)
  show "holds (attempt (answer (DeleteAllOfQ (vkind v) ns) the_done)) (\<lambda>r es. \<forall>x. r = Ok x \<longrightarrow>
      (case x of Inl e \<Rightarrow> is_not_found e \<longrightarrow> (\<exists>e \<in> set es. gone (vkind v) ns e) | Inr _ \<Rightarrow> \<exists>e \<in> set es. gone (vkind v) ns e))"
    (is "holds _ ?\<Psi>")
  proof (rule holds_attempt)
    show "holds (answer (DeleteAllOfQ (vkind v) ns) the_done) (\<lambda>r es.
        (\<forall>u. r = Ok u \<longrightarrow> (\<exists>e \<in> set es. gone (vkind v) ns e)) \<and>
        (\<forall>e. r = Err e \<longrightarrow> is_not_found e \<longrightarrow> (\<exists>e \<in> set es. gone (vkind v) ns e)))"
      unfolding answer_def
      by (rule holds_bnd [where \<Psi> = "\<lambda>r es. \<exists>a. r = Ok a \<and> es = [(DeleteAllOfQ (vkind v) ns, a)]"])
         (auto simp: gone_def the_done_def intro!: holds_send split: response.split)
  qed auto
  fix x :: "gerr + unit" and es
  assume "\<forall>y. Ok x = Ok y \<longrightarrow> (case y of Inl e \<Rightarrow> is_not_found e \<longrightarrow> (\<exists>e \<in> set es. gone (vkind v) ns e)
    | Inr _ \<Rightarrow> \<exists>e \<in> set es. gone (vkind v) ns e)"
  then show "holds (case x of Inl e \<Rightarrow> if is_not_found e then ret () else fail e | Inr _ \<Rightarrow> ret ())
     (\<lambda>r es'. (\<exists>x. r = Ok x) \<longrightarrow> (\<exists>e \<in> set (es @ es'). gone (vkind v) ns e))"
    by (auto split: sum.splits)
qed auto

lemma guarded_handle_deletion:
  assumes "p = gone KGrafanaDashboard (monitoring_namespace (om_name (ns_meta ns))) \<or>
     p = gone KPersesDashboard (monitoring_namespace (om_name (ns_meta ns)))"
  shows "guarded p drops_org_finalizer (handle_deletion R ns org)"
proof -
  let ?mon = "monitoring_namespace (om_name (ns_meta ns))"
  have un: "never drops_org_finalizer (unregister_org R org)"
    by (rule never_drops_org [OF wo_unregister_org, of "{}"]) simp
  have g: "never drops_org_finalizer (ignore_not_found (kdelete_all_of v_gd ?mon))"
    by (rule never_drops_org [of "{KGrafanaDashboard}"]) (auto intro!: trace_intros)
  have p: "never drops_org_finalizer (ignore_not_found (kdelete_all_of v_pd ?mon))"
    by (rule never_drops_org [of "{KPersesDashboard}"]) (auto intro!: trace_intros)
  show ?thesis
  proof (cases "p = gone KGrafanaDashboard ?mon")
    case True
    then show ?thesis
      unfolding handle_deletion_def
      using guarded_after [OF guarded_never [OF g], of p] emits_gone [of v_gd ?mon]
      by (intro guarded_bnd [OF guarded_never [OF un]]) simp
  next
    case False
    then show ?thesis
      unfolding handle_deletion_def
      using guarded_after [OF guarded_never [OF p], of "gone KPersesDashboard ?mon"] emits_gone [of v_pd ?mon] assms
      by (intro guarded_bnd [OF guarded_never [OF un]] guarded_bnd [OF guarded_never [OF g]]) simp
  qed
qed

lemma guarded_mono: "guarded p q m \<Longrightarrow> (\<And>e. p e \<Longrightarrow> p' e) \<Longrightarrow> guarded p' q m"
  unfolding guarded_def
proof (erule holds_mono)
  fix r :: "'a outcome" and es
  assume "precedes p q es" "\<And>e. p e \<Longrightarrow> p' e"
  then show "precedes p' q es" by (induction es) auto
qed

lemma wo_provision:
  "{KRoleBinding, KAppBinding, KSecret, KGrafanaDashboard, KPersesDashboard} \<subseteq> S \<Longrightarrow>
   writes_only S (ensure_monitoring_role_binding mon org)"
  "{KRoleBinding, KAppBinding, KSecret, KGrafanaDashboard, KPersesDashboard} \<subseteq> S \<Longrightarrow>
   writes_only S (copy_dashboards ns mon)"
  "writes_only S (build_prometheus_config pk svc)"
  unfolding ensure_monitoring_role_binding_def copy_dashboards_def copy_grafana_dashboards_def copy_perses_dashboards_def copy_grafana_def copy_perses_def
    build_prometheus_config_def
  by (auto simp: Let_def split: option.split sum.split intro!: trace_intros)

lemma never_drops_marker: "never drops_org_finalizer (set_namespace_marker mon state)"
  unfolding set_namespace_marker_def
  by (intro trace_intros) (simp add: v_ns_def registered_state_def)

lemma never_drops_backends: "never drops_org_finalizer (register_backends R hc mon cfg org state)"
proof -
  have b: "never drops_org_finalizer (register_grafana_backend R hc n cfg org)"
    "never drops_org_finalizer (register_perses_backend R hc n cfg org)" for n
    by (rule never_drops_org [of "{KAppBinding, KSecret}"]; simp add: wo_org_backends)+
  have n: "never drops_org_finalizer (needs_backend mon state ab)" for ab
    by (rule never_drops_org [OF wo_needs_backend, of "{}"]) simp
  show ?thesis
    unfolding register_backends_def by (auto intro!: trace_intros b n never_drops_marker)
qed

lemma never_drops_provision: "never drops_org_finalizer (org_provision R ns mon org)"
proof -
  let ?S = "{KRoleBinding, KAppBinding, KSecret, KGrafanaDashboard, KPersesDashboard}"
  have a: "never drops_org_finalizer (ensure_monitoring_role_binding mon org)"
    "never drops_org_finalizer (copy_dashboards ns mon)"
    "never drops_org_finalizer (build_prometheus_config pk svc)" for pk svc
    by (rule never_drops_org [of ?S]; simp add: wo_provision)+
  have d: "never drops_org_finalizer (default_prometheus ps)" for ps
    by (rule never_drops_org [of "{}"]) (auto intro!: trace_intros)
  show ?thesis
    unfolding org_provision_def
    by (auto split: option.split intro!: trace_intros a d never_drops_backends)
qed

lemma never_drops_org_sync: "never drops_org_finalizer (org_sync R k ns org)"
proof -
  have f: "never drops_org_finalizer (ensure_finalizer ns)"
    unfolding ensure_finalizer_def
    by (auto simp: v_ns_def finalized_def intro!: trace_intros)
  have m: "never drops_org_finalizer (ensure_monitoring_namespace n)" for n
    unfolding ensure_monitoring_namespace_def
    by (auto simp: Let_def split: sum.split intro!: trace_intros)
  show ?thesis
    unfolding org_sync_def by (auto intro!: trace_intros f m never_drops_provision)
qed

definition all_gone :: "kind \<Rightarrow> event \<Rightarrow> bool" where
  "all_gone K e = (\<exists>ns. gone K (monitoring_namespace ns) e)"

lemma guarded_org_reconcile:
  assumes p: "p = all_gone KGrafanaDashboard \<or> p = all_gone KPersesDashboard"
  shows "guarded p drops_org_finalizer (org_reconcile R k)"
proof -
  have del: "guarded p drops_org_finalizer (handle_deletion R ns org)" for ns org
  proof -
    have "guarded (all_gone K) drops_org_finalizer (handle_deletion R ns org)"
      if "K = KGrafanaDashboard \<or> K = KPersesDashboard" for K
      by (rule guarded_mono [OF guarded_handle_deletion
            [where p = "gone K (monitoring_namespace (om_name (ns_meta ns)))"]])
         (use that in \<open>auto simp: all_gone_def\<close>)
    then show ?thesis using p by blast
  qed
  have mark: "never drops_org_finalizer (mark_cleaned_up ns)" for ns
    unfolding mark_cleaned_up_def by (intro trace_intros) (simp add: v_ns_def cleaned_up_def)
  have pre: "never drops_org_finalizer (kget v_ns k)" "never drops_org_finalizer prom_ready"
    "never drops_org_finalizer (with_prom federated_rancher)"
    by (intro trace_intros; simp)+
  show ?thesis
    unfolding org_reconcile_def Let_def org_terminate_def
    by (intro guarded_fetch_result guarded_bnd guarded_if guarded_skip guarded_fail del
        pre [THEN guarded_never] mark [THEN guarded_never] never_drops_org_sync [THEN guarded_never])
qed


lemma unregister_org_ok: "holds (unregister_org R org) (\<lambda>r _. r = Ok ())"
proof -
  have att: "holds (attempt m) (\<lambda>r _. \<exists>x. r = Ok x)" if "no_panic m" for m :: "('s, 'b) M"
    by (rule holds_attempt [OF that [unfolded no_panic_def]]) auto
  show ?thesis
    unfolding unregister_org_def
    by (auto split: option.split intro!: holds_bnd [OF att] no_panic_hub)
qed

definition accepts_teardown :: "'s env \<Rightarrow> bool" where
  \<comment> \<open>an API server that deletes the dashboards, or has none, and accepts patches of namespaces\<close>
  "accepts_teardown E \<longleftrightarrow>
     (\<forall>K ns s. K = KGrafanaDashboard \<or> K = KPersesDashboard \<longrightarrow>
        fst (exec E (DeleteAllOfQ K ns) s) \<in> insert RDone (range (\<lambda>m. RErr (ApiErr NotFound m)))) \<and>
     (\<forall>b n s. \<exists>x. fst (exec E (PatchQ (ONamespace b) (ONamespace n)) s) = RObj (ONamespace x))"

lemma teardown_deletes:
  assumes "accepts_teardown E" "vkind v = KGrafanaDashboard \<or> vkind v = KPersesDashboard"
  shows "\<exists>es w'. ignore_not_found (kdelete_all_of v ns) E w = (Ok (), es, w')"
proof -
  have "fst (exec E (DeleteAllOfQ (vkind v) ns) (w_ext w)) = RDone \<or>
      (\<exists>m. fst (exec E (DeleteAllOfQ (vkind v) ns) (w_ext w)) = RErr (ApiErr NotFound m))"
    using assms unfolding accepts_teardown_def by blast
  then show ?thesis
    by (cases "exec E (DeleteAllOfQ (vkind v) ns) (w_ext w)")
       (auto simp: ignore_not_found_def kdelete_all_of_def answer_def bnd_def attempt_def send_def the_done_def
         ret_def fail_def)
qed

lemma teardown_patches:
  assumes "accepts_teardown E"
  shows "\<exists>vb new es w'. patch v_ns ns f E w = (Ok (vb, new), es, w')"
proof -
  obtain x where "fst (exec E (PatchQ (ONamespace ns) (ONamespace (f ns))) (w_ext w)) = RObj (ONamespace x)"
    using assms unfolding accepts_teardown_def by blast
  then show ?thesis
    by (cases "exec E (PatchQ (ONamespace ns) (ONamespace (f ns))) (w_ext w)")
       (auto simp: patch_def kpatch_def answer_def bnd_def send_def the_obj_def ret_def pures_def v_ns_def)
qed

text \<open>
  C33: an unreachable hub does not keep a namespace terminating: whatever the hub answers, the
  teardown succeeds as long as the API server does its part.
\<close>

theorem teardown_survives_hub:
  assumes "accepts_teardown E"
  shows "\<exists>es w'. handle_deletion R ns org E w = (Ok (), es, w')"
proof -
  let ?mon = "monitoring_namespace (om_name (ns_meta ns))"
  obtain es1 w1 where 1: "unregister_org R org E w = (Ok (), es1, w1)"
    using holdsD [OF unregister_org_ok, of R org E w] by (cases "unregister_org R org E w") auto
  obtain es2 w2 where 2: "ignore_not_found (kdelete_all_of v_gd ?mon) E w1 = (Ok (), es2, w2)"
    using teardown_deletes [OF assms, of v_gd ?mon w1] by (auto simp del: ex_simps)
  obtain es3 w3 where 3: "ignore_not_found (kdelete_all_of v_pd ?mon) E w2 = (Ok (), es3, w3)"
    using teardown_deletes [OF assms, of v_pd ?mon w2] by (auto simp del: ex_simps)
  obtain vb new es4 w4 where 4: "patch v_ns ns unfinalized E w3 = (Ok (vb, new), es4, w4)"
    using teardown_patches [OF assms] by blast
  show ?thesis
    using 1 2 3 4 by (simp add: handle_deletion_def bnd_def ret_def)
qed

definition hub_down :: "unit env" where
  "hub_down = \<lparr>exec = (\<lambda>q s. case q of
       DeleteAllOfQ K ns \<Rightarrow> (RDone, s)
     | PatchQ b n \<Rightarrow> (RObj n, s)
     | _ \<Rightarrow> (RErr (Plain ''connection refused''), s)), codecs = plain_codec\<rparr>"

definition org_with_hub :: org_reconciler where
  "org_with_hub = \<lparr>ro_hub = rp_hub hub_reconciler, ro_cluster_uid = ''u1'', ro_hub_uid = ''h1''\<rparr>"

definition acme :: namespace where
  "acme = \<lparr>ns_meta = (new_meta '''' ''acme'')\<lparr>om_labels := [(client_org_key, ''true'')],
     om_annotations := [(ace_org_id_key, ''7'')], om_finalizers := [prometheus_key], om_deleting := True\<rparr>\<rparr>"

lemma teardown_survives_hub_witness:
  "\<exists>es w'. handle_deletion org_with_hub acme ''7'' hub_down (start ()) = (Ok (), es, w')"
  by (rule teardown_survives_hub) (auto simp: accepts_teardown_def hub_down_def)

definition marks_namespace :: "event \<Rightarrow> bool" where
  "marks_namespace e = (write_kind (fst e) = Some KNamespace)"

lemma never_marks_backends:
  "never marks_namespace (register_grafana_backend R hc mon cfg org)"
  "never marks_namespace (register_perses_backend R hc mon cfg org)"
  by (rule writes_only_outside [of "{KAppBinding, KSecret}"]; simp add: wo_org_backends marks_namespace_def)+

lemma emits_attempt_wrap:
  assumes "emits p m"
  shows "emits p (bnd (attempt m) (\<lambda>r. case r of Inl e \<Rightarrow> fail (g e) | Inr x \<Rightarrow> f x))"
  unfolding emits_def
  by (rule holds_bnd [OF holds_attempt [OF assms [unfolded emits_def],
        of "\<lambda>r es. \<forall>x. r = Ok (Inr x) \<longrightarrow> (\<exists>e \<in> set es. p e)"]])
     (auto split: sum.split simp: holds_def fail_def)

lemma emits_backends:
  "emits (hub_ok hc register_path) (register_grafana_backend R hc mon cfg org)"
  "emits (hub_ok hc perses_register_path) (register_perses_backend R hc mon cfg org)"
  unfolding register_grafana_backend_def register_perses_backend_def
  by (intro emits_attempt_wrap emits_hub)+

lemma guarded_collect_err:
  assumes "never q m" "emits p m" "\<And>es. es \<noteq> [] \<Longrightarrow> never q (f es)"
  shows "guarded p q (bnd (collect_err m) f)"
  unfolding guarded_def
proof (rule holds_bnd [where \<Psi> = "\<lambda>r es. (\<forall>e \<in> set es. \<not> q e) \<and> (r = Ok [] \<longrightarrow> (\<exists>e \<in> set es. p e))"])
  let ?\<Phi> = "\<lambda>r es. (\<forall>e \<in> set es. \<not> q e) \<and> ((\<exists>x. r = Ok (Inr x :: gerr + unit)) \<longrightarrow> (\<exists>e \<in> set es. p e))"
  have "holds (attempt m) ?\<Phi>"
    by (rule holds_attempt [OF holds_conj [OF assms(1) [unfolded never_def] assms(2) [unfolded emits_def]]]) auto
  then show "holds (collect_err m) (\<lambda>r es. (\<forall>e \<in> set es. \<not> q e) \<and> (r = Ok [] \<longrightarrow> (\<exists>e \<in> set es. p e)))"
    unfolding collect_err_def by (rule holds_bnd) (auto split: sum.split)
  fix x :: "gerr list" and es
  assume I: "(\<forall>e \<in> set es. \<not> q e) \<and> (Ok x = Ok [] \<longrightarrow> (\<exists>e \<in> set es. p e))"
  show "holds (f x) (\<lambda>r es'. precedes p q (es @ es'))"
  proof (cases "x = []")
    case False
    have "holds (f x) (\<lambda>_ es. precedes p q es)"
      using guarded_never [OF assms(3) [OF False]] by (simp add: guarded_def)
    then show ?thesis by (rule holds_mono) (use I in \<open>auto simp: precedes_append intro: precedes_never\<close>)
  qed (use I in \<open>auto simp: precedes_append holds_def intro: precedes_never\<close>)
qed (auto intro: precedes_never)

text \<open>
  When the cluster state has changed since the last registration, the monitoring namespace is
  marked with the new state only after the hub accepted both the Grafana and the Perses
  registration in this very run; a failed one leaves the old mark, so that both are tried again.
\<close>

theorem org_marker_last:
  assumes "sget (om_annotations (ns_meta mon)) registered_key \<noteq> state"
  shows "guarded (hub_ok hc register_path) marks_namespace (register_backends R hc mon cfg org state) \<and>
     guarded (hub_ok hc perses_register_path) marks_namespace (register_backends R hc mon cfg org state)"
proof
  have [trace_intros]: "never marks_namespace (collect_err (register_perses_backend R hc n cfg org))"
    "never marks_namespace (collect_err (register_grafana_backend R hc n cfg org))" for n
    by (intro trace_intros never_marks_backends)+
  have need: "needs_backend mon state ab = ret True" for ab
    using assms by (simp add: needs_backend_def)
  show "guarded (hub_ok hc register_path) marks_namespace (register_backends R hc mon cfg org state)"
    unfolding register_backends_def need bnd_simps if_True
    by (rule guarded_collect_err [OF never_marks_backends(1) emits_backends(1)]) (auto intro!: trace_intros)
  show "guarded (hub_ok hc perses_register_path) marks_namespace (register_backends R hc mon cfg org state)"
    unfolding register_backends_def need bnd_simps if_True
    by (rule guarded_bnd [OF guarded_never [OF never_collect_err [OF never_marks_backends(1)]]],
        rule guarded_collect_err [OF never_marks_backends(2) emits_backends(2)]) (auto intro!: trace_intros)
qed

lemma org_marker_last_witness:
  "guarded (hub_ok \<lparr>hc_base = ''hub'', hc_token = ''t'', hc_ca = '''', hc_insecure = False\<rparr> perses_register_path)
     marks_namespace (register_backends org_with_hub
       \<lparr>hc_base = ''hub'', hc_token = ''t'', hc_ca = '''', hc_insecure = False\<rparr> acme
       \<lparr>pf_url = '''', pf_service = plain_service_spec (''monitoring'', ''prom'') db_service,
         pf_bearer_token = '''', pf_tls_ca = ''''\<rparr> ''7'' ''s'' :: (response list, unit) M)"
  by (rule org_marker_last [THEN conjunct2]) (simp add: acme_def sget_def registered_key_def ace_org_id_key_def)

fun copied_into :: "string \<Rightarrow> object \<Rightarrow> bool" where
  \<comment> \<open>a copy that cannot become a source and that the organization's own backend serves\<close>
  "copied_into mon (OGrafanaDashboard d) = (\<not> is_dashboard_source (gd_meta d) \<and> gd_ref d = Some (mon, ab_grafana))"
| "copied_into mon (OPersesDashboard d) = (\<not> is_dashboard_source (pd_meta d) \<and> pd_ref d = Some (mon, ab_perses))"
| "copied_into mon _ = False"

fun strays :: "string \<Rightarrow> event \<Rightarrow> bool" where
  \<comment> \<open>an access that is not the making of a copy in the monitoring namespace\<close>
  "strays mon (Get K k, _) = (fst k \<noteq> mon)"
| "strays mon (CreateQ ob, _) = (fst (obj_key ob) \<noteq> mon \<or> \<not> copied_into mon ob)"
| "strays mon (PatchQ b ob, _) = (obj_key ob \<noteq> obj_key b \<or> \<not> copied_into mon ob)"
| "strays mon (q, _) = is_write q"

lemma copied_into_set_rversion: "copied_into mon (set_rversion v ob) = copied_into mon ob"
  by (cases ob) (simp_all add: set_rversion_def is_dashboard_source_def)

lemma copy_meta_key [simp]: "meta_key (copy_meta C src c m) = meta_key m"
  by (simp add: copy_meta_def Let_def meta_key_def)

lemma copy_is_no_source [simp]: "\<not> is_dashboard_source (copy_meta C src c m)"
  by (simp add: copy_meta_def Let_def is_dashboard_source_def)

lemma obj_key_meta: "obj_key ob = meta_key (obj_meta ob)"
  by (simp add: obj_key_def)

lemma never_strays_copies:
  "never (strays mon) (create_or_patch v_gd (empty_grafana_dashboard mon n) (copied_grafana C mon src bytes))"
  "never (strays mon) (create_or_patch v_pd (empty_perses_dashboard mon n) (copied_perses C mon srcp bytes))"
  by (intro trace_intros; simp add: v_gd_def v_pd_def copied_into_set_rversion copied_grafana_def
      copied_perses_def empty_grafana_dashboard_def empty_perses_dashboard_def; simp add: obj_key_meta set_rversion_def meta_key_def copy_meta_def Let_def new_meta_def)+

text \<open>
  C26: copying dashboards never leaves the organization's monitoring namespace: whatever the server
  answers, it creates objects only there, patches only what it read there without renaming it, and
  every dashboard it writes carries the source annotation, so that it is never copied again, and
  names the organization's own Grafana or Perses.
\<close>

theorem copies_stay_home:
  "never (strays (om_name (ns_meta mon))) (copy_dashboards ns mon :: ('s, unit) M)"
proof -
  have g: "never (strays (om_name (ns_meta mon))) (copy_grafana n (om_name (ns_meta mon)) d :: ('s, gerr list) M)" for n d
    unfolding copy_grafana_def
    by (auto simp: Let_def split: option.split sum.split intro!: trace_intros never_strays_copies)
  have p: "never (strays (om_name (ns_meta mon))) (copy_perses (om_name (ns_meta mon)) d :: ('s, gerr list) M)" for d
    unfolding copy_perses_def
    by (auto simp: Let_def split: option.split sum.split intro!: trace_intros never_strays_copies)
  show ?thesis
    unfolding copy_dashboards_def copy_grafana_dashboards_def copy_perses_dashboards_def by (auto intro!: trace_intros g p)
qed

fun provisions :: "event \<Rightarrow> bool" where
  "provisions (CreateQ _, _) = True"
| "provisions (PatchQ _ ob, _) = (kind_of ob \<noteq> KNamespace)"
| "provisions _ = False"

fun fresh_active :: "key \<Rightarrow> event \<Rightarrow> bool" where
  \<comment> \<open>the API server, asked past the cache, returned a live client organization\<close>
  "fresh_active k (GetUncached K k', a) = (K = KNamespace \<and> k' = k \<and>
     (case the_obj v_ns a of Some ns \<Rightarrow> is_active_client_org ns | None \<Rightarrow> False))"
| "fresh_active k _ = False"

lemma guarded_fresh:
  "(\<And>x. \<not> is_active_client_org x \<Longrightarrow> guarded (fresh_active k) provisions (f x)) \<Longrightarrow>
   guarded (fresh_active k) provisions (fetch_result (kget_uncached v_ns k) f)"
  by (rule guarded_read_result [where P = is_active_client_org])
     (auto simp: kget_uncached_def the_obj_def intro!: holds_answer split: response.splits)

lemma never_provisions_deletion: "never provisions (handle_deletion R ns org)"
  unfolding handle_deletion_def unregister_org_def
  by (auto split: option.split intro!: trace_intros)

text \<open>
  C25: nothing is provisioned for a client organization, neither the namespace, the role binding,
  the AppBindings nor a copied dashboard, before the API server itself, and not only the cache,
  has returned the namespace as a live client organization.  A stale cache therefore cannot
  recreate what a teardown just deleted.
\<close>

theorem provisioning_rereads:
  "guarded (fresh_active k) provisions (org_reconcile R k :: ('s, requeue) M)"
proof -
  have sync: "guarded (fresh_active k) provisions (org_sync R k ns org :: ('s, requeue) M)" for ns org
    unfolding org_sync_def by (rule guarded_fresh) (simp add: guarded_skip)
  have mark: "never provisions (mark_cleaned_up ns :: ('s, unit) M)" for ns
    unfolding mark_cleaned_up_def by (intro trace_intros) simp
  have pre: "never provisions (kget v_ns k :: ('s, namespace) M)" "never provisions (prom_ready :: ('s, bool) M)"
    "never provisions (with_prom federated_rancher :: ('s, bool) M)"
    by (intro trace_intros; simp)+
  show ?thesis
    unfolding org_reconcile_def Let_def org_terminate_def
    by (intro guarded_fetch_result guarded_bnd guarded_if guarded_skip guarded_fail sync
        pre [THEN guarded_never] mark [THEN guarded_never] never_provisions_deletion [THEN guarded_never])
qed

text \<open>
  A single Perses dashboard anywhere in the cluster whose model has no display section makes
  the copying fail for every client organization: the loop never gets past it, because the code
  dereferences the missing section.
\<close>

theorem perses_display_panics:
  assumes d: "d \<in> set pds" "is_dashboard_source (pd_meta d)" "pd_model d = Some raw"
    and b: "dec_perses (codecs E) raw = Inr b" "pb_display b = None"
  shows "\<exists>r es w'. collect_all (copy_perses mon) pds E w = (r, es, w') \<and> (\<forall>x. r \<noteq> Ok x)"
  using d(1)
proof (induction pds arbitrary: w)
  case (Cons e pds)
  have run: "\<exists>p. copy_perses mon d E w = (Panic p, [], w)"
    using d b by (simp add: copy_perses_def bnd_def pures_def panic_def)
  obtain r es w1 where e: "copy_perses mon e E w = (r, es, w1)" by (cases "copy_perses mon e E w")
  show ?case
  proof (cases "d = e")
    case True
    then show ?thesis using run by (auto simp: bnd_def)
  next
    case False
    then obtain r2 es2 w2 where "collect_all (copy_perses mon) pds E w1 = (r2, es2, w2)" "\<forall>x. r2 \<noteq> Ok x"
      using Cons by fastforce
    then show ?thesis using e by (cases r; cases r2) (auto simp: bnd_def)
  qed
qed simp

lemma perses_display_panics_witness:
  "\<exists>r es w'. collect_all (copy_perses ''acme-monitoring'')
     [(empty_perses_dashboard ''demo'' ''pg'')\<lparr>pd_model := Some ''{}''\<rparr>] script_env (start []) = (r, es, w') \<and>
     (\<forall>x. r \<noteq> Ok x)"
  by (rule perses_display_panics [where raw = "''{}''"])
     (auto simp: script_env_def plain_codec_def empty_perses_dashboard_def is_dashboard_source_def new_meta_def
       has_suffix_def)

text \<open>
  On a Rancher cluster with project Prometheus a client organization's namespace that carries
  the finalizer cannot be deleted any more: every run fails right after reading it, before the
  teardown and without a single write.
\<close>

theorem federated_cluster_blocks_teardown:
  assumes d: "w_prom w = Some d" "federated_rancher d"
    and ns: "kget v_ns k E w = (Ok ns, es, w1)" "w_prom w1 = w_prom w"
    and org: "sget (om_labels (ns_meta ns)) client_org_key \<noteq> ''''"
      "sget (om_annotations (ns_meta ns)) ace_org_id_key \<noteq> ''''"
  shows "\<exists>e w'. org_reconcile R k E w = (Err e, es, w')"
  using assms
  by (simp add: org_reconcile_def fetch_result_def bnd_def attempt_def Let_def prom_ready_set with_prom_set ret_def
      fail_def)

lemma federated_cluster_blocks_teardown_witness:
  "\<exists>e w'. org_reconcile org_with_hub ('''', ''acme'') script_env
       ((start [RObj (ONamespace acme)])\<lparr>w_prom := Some RancherProm\<rparr>) =
     (Err e, [(Get KNamespace ('''', ''acme''), RObj (ONamespace acme))], w')"
  by (rule federated_cluster_blocks_teardown [where ns = acme and d = RancherProm
        and ?w1.0 = "(start [])\<lparr>w_prom := Some RancherProm\<rparr>"])
     (simp_all add: start_def federated_rancher_def kget_def answer_def bnd_def send_def script_env_def ret_def
        the_obj_def v_ns_def acme_def sget_def client_org_key_def ace_org_id_key_def)

fun labels_trickster :: "event \<Rightarrow> bool" where
  \<comment> \<open>a write after which the service account passes the controller's event filter\<close>
  "labels_trickster (CreateQ (OServiceAccount s), _) = trickster_predicate (sa_meta s)"
| "labels_trickster (PatchQ (OServiceAccount b) (OServiceAccount s), _) =
     (\<not> trickster_predicate (sa_meta b) \<and> trickster_predicate (sa_meta s))"
| "labels_trickster _ = False"

lemma labels_writes: "labels_trickster e \<Longrightarrow> write_kind (fst e) = Some KServiceAccount"
  by (induction e rule: labels_trickster.induct) auto

lemma never_labels: "writes_only (- {KServiceAccount}) m \<Longrightarrow> never labels_trickster m"
  by (erule writes_only_outside) (use labels_writes in auto)

lemma never_labels_credentials: "never labels_trickster (prom_credentials R prom state)"
proof -
  have f: "never labels_trickster (find_token sec st)" for sec st
    by (rule never_labels [OF wo_find_token])
  show ?thesis
    unfolding prom_credentials_def
    by (auto simp: v_sa_def trickster_predicate_def set_rversion_def new_meta_def intro!: trace_intros f)
qed

text \<open>
  The watch on service accounts that should bring every client organization up to date when
  the hub's token changes never fires: its filter asks for a label that nothing the Prometheus
  controller writes puts on the service account (it keeps the mark as an annotation of the role
  binding).
\<close>

theorem token_watch_never_fires:
  "never labels_trickster (prom_reconcile R k)"
proof -
  have cluster: "never labels_trickster (setup_cluster R p d)" for p d
    unfolding setup_cluster_def
    by (auto intro!: trace_intros never_labels_credentials
        never_labels [OF wo_roles(1)] never_labels [OF wo_roles(2)] never_labels [OF wo_create_preset]
        never_labels [OF wo_hub_config] never_labels [OF wo_register_prometheus])
  have lab: "never labels_trickster (ensure_external_labels prom)" for prom
    by (rule never_labels) (auto simp: ensure_external_labels_def split: sum.split intro!: trace_intros)
  have fin: "never labels_trickster (create_or_patch v_prom p (\<lambda>ob _. keep_finalizer ob))" for p
    by (rule never_labels) (auto intro!: trace_intros)
  have sync: "never labels_trickster (prom_sync R prom d)" for prom d
    unfolding prom_sync_def case_prod_unfold by (intro never_bnd lab fin cluster)
  have del: "never labels_trickster (prom_delete R prom d)" for prom d
    by (rule never_labels)
       (auto simp: prom_delete_def unregister_all_def Let_def split: option.split intro!: trace_intros)
  show ?thesis
    unfolding prom_reconcile_def by (auto intro!: trace_intros sync del)
qed

end
