(* ===== verification/Url_Query.thy ===== *)
theory Url_Query imports Prelude begin

section \<open>Query strings (pkg/registry/ui/dashboardgroup)\<close>

text \<open>
  The variables of a dashboard become the query of its link.  \<open>url.Values\<close>, its encoding and
  \<open>url.QueryEscape\<close> are modelled as the Go library defines them; \<open>addVars\<close> and
  \<open>upsertDatasourceVar\<close> are the program's.  \<open>parse_query\<close> reads a query string back.
\<close>

subsection \<open>Escaping\<close>

definition unreserved :: "char \<Rightarrow> bool" where
  "unreserved c = (let n = (of_char c :: nat) in
     48 \<le> n \<and> n \<le> 57 \<or> 65 \<le> n \<and> n \<le> 90 \<or> 97 \<le> n \<and> n \<le> 122 \<or> n \<in> {45, 46, 95, 126})"

definition hex_digit :: "nat \<Rightarrow> char" where
  "hex_digit n = char_of (if n < 10 then 48 + n else 55 + n)"

definition hex_value :: "char \<Rightarrow> nat option" where
  "hex_value c = (let n = (of_char c :: nat) in
     if 48 \<le> n \<and> n \<le> 57 then Some (n - 48)
     else if 65 \<le> n \<and> n \<le> 70 then Some (n - 55)
     else if 97 \<le> n \<and> n \<le> 102 then Some (n - 87)
     else None)"

definition escape_char :: "char \<Rightarrow> string" where
  "escape_char c =
     (if unreserved c then [c]
      else if c = CHR '' '' then ''+''
      else (let n = (of_char c :: nat) in [CHR ''%'', hex_digit (n div 16), hex_digit (n mod 16)]))"

definition query_escape :: "string \<Rightarrow> string" where
  "query_escape s = concat (map escape_char s)"

fun query_unescape :: "string \<Rightarrow> string option" where
  "query_unescape [] = Some []"
| "query_unescape (c # cs) =
     (if c = CHR ''%'' then (case cs of
        a # b # rest \<Rightarrow> (case (hex_value a, hex_value b) of
          (Some x, Some y) \<Rightarrow> map_option ((#) (char_of (16 * x + y))) (query_unescape rest)
        | _ \<Rightarrow> None)
      | _ \<Rightarrow> None)
      else map_option ((#) (if c = CHR ''+'' then CHR '' '' else c)) (query_unescape cs))"

lemma hex_value_digit: "n < 16 \<Longrightarrow> hex_value (hex_digit n) = Some n"
  by (auto simp: hex_value_def hex_digit_def Let_def)

lemma unescape_escape_char: "query_unescape (escape_char c @ s) = map_option ((#) c) (query_unescape s)"
proof (cases "unreserved c \<or> c = CHR '' ''")
  case True
  then show ?thesis by (auto simp: escape_char_def unreserved_def)
next
  case False
  have "(of_char c :: nat) < 256" by (rule nat_of_char_less_256)
  then have "(of_char c :: nat) div 16 < 16" by (simp add: less_mult_imp_div_less)
  moreover have "16 * ((of_char c :: nat) div 16) + of_char c mod 16 = of_char c" by simp
  ultimately show ?thesis
    using False by (simp add: escape_char_def Let_def hex_value_digit)
qed

lemma query_unescape_escape: "query_unescape (query_escape s) = Some s"
  by (induction s) (simp_all add: query_escape_def unescape_escape_char)

lemma hex_digit_unreserved: "n < 16 \<Longrightarrow> unreserved (hex_digit n)"
  by (auto simp: unreserved_def hex_digit_def Let_def)

lemma escape_chars: "x \<in> set (query_escape s) \<Longrightarrow> unreserved x \<or> x = CHR ''%'' \<or> x = CHR ''+''"
proof -
  have "(of_char c :: nat) < 256" for c :: char by (rule nat_of_char_less_256)
  then have "(of_char c :: nat) div 16 < 16" for c :: char by (simp add: less_mult_imp_div_less)
  then show "x \<in> set (query_escape s) \<Longrightarrow> unreserved x \<or> x = CHR ''%'' \<or> x = CHR ''+''"
    by (auto simp: query_escape_def escape_char_def Let_def hex_digit_unreserved split: if_splits)
qed

lemma escape_separators: "CHR ''&'' \<notin> set (query_escape s)" "CHR ''='' \<notin> set (query_escape s)"
  using escape_chars by (fastforce simp: unreserved_def)+

subsection \<open>\<open>url.Values\<close>\<close>

type_synonym url_values = "(string \<times> string list) list"

definition vals_add :: "string \<Rightarrow> string \<Rightarrow> url_values \<Rightarrow> url_values" where
  "vals_add k v q = AList.update k ((case map_of q k of None \<Rightarrow> [] | Some vs \<Rightarrow> vs) @ [v]) q"

definition vals_set :: "string \<Rightarrow> string \<Rightarrow> url_values \<Rightarrow> url_values" where
  "vals_set k v q = AList.update k [v] q"

definition query_pairs :: "url_values \<Rightarrow> (string \<times> string) list" where
  \<comment> \<open>sorted by key, the values of a key in the order they were added\<close>
  "query_pairs q = concat (map (\<lambda>(k, vs). map (Pair k) vs) (sort_by (\<lambda>a b. str_less (fst a) (fst b)) q))"

definition encode_pair :: "string \<times> string \<Rightarrow> string" where
  "encode_pair = (\<lambda>(k, v). query_escape k @ ''='' @ query_escape v)"

definition encode_values :: "url_values \<Rightarrow> string" where
  "encode_values q = join ''&'' (map encode_pair (query_pairs q))"

subsection \<open>Dashboard variables\<close>

datatype var_type = SourceVar | TargetVar | OtherVarType string

record dash_var =
  dv_name :: string
  dv_value :: string
  dv_type :: var_type

definition var_name :: "dash_var \<Rightarrow> string" where
  "var_name v = (if has_prefix (dv_name v) ''var-'' then dv_name v else ''var-'' @ dv_name v)"

definition is_datasource_var :: "dash_var \<Rightarrow> bool" where
  "is_datasource_var v = (dv_type v = SourceVar \<and> dv_name v = ''datasource'')"

definition overwrite_datasource :: "string \<Rightarrow> dash_var list \<Rightarrow> dash_var list" where
  \<comment> \<open>the loop of \<open>upsertDatasourceVar\<close>, which writes into the caller's slice\<close>
  "overwrite_datasource ds vars = map (\<lambda>v. if is_datasource_var v then v\<lparr>dv_value := ds\<rparr> else v) vars"

definition upsert_datasource_var :: "dash_var list \<Rightarrow> string \<Rightarrow> dash_var list" where
  "upsert_datasource_var vars ds =
     (if list_ex is_datasource_var vars then overwrite_datasource ds vars
      else vars @ [\<lparr>dv_name = ''datasource'', dv_value = ds, dv_type = SourceVar\<rparr>])"

definition source_values :: "url_values \<Rightarrow> dash_var list \<Rightarrow> url_values" where
  "source_values q vars = fold (\<lambda>v. vals_add (var_name v) (dv_value v)) (filter (\<lambda>v. dv_type v \<noteq> TargetVar) vars) q"

definition raw_pair :: "dash_var \<Rightarrow> string" where
  \<comment> \<open>the value of a target variable is not escaped\<close>
  "raw_pair v = query_escape (var_name v) @ ''='' @ dv_value v"

definition add_vars :: "url_values \<Rightarrow> dash_var list \<Rightarrow> string" where
  "add_vars q vars =
     (let tgt = filter (\<lambda>v. dv_type v = TargetVar) vars;
          src = filter (\<lambda>v. dv_type v \<noteq> TargetVar) vars;
          raw = encode_values (source_values q vars) in
      if tgt = [] then raw
      else raw @ (if src \<noteq> [] then ''&'' else ''?'') @ join ''&'' (map raw_pair tgt))"

subsection \<open>Reading a query back\<close>

fun split_on :: "char \<Rightarrow> string \<Rightarrow> string list" where
  "split_on c [] = [[]]"
| "split_on c (x # xs) = (if x = c then [] # split_on c xs
     else (case split_on c xs of p # ps \<Rightarrow> (x # p) # ps | [] \<Rightarrow> [[x]]))"

definition parse_pair :: "string \<Rightarrow> (string \<times> string) option" where
  "parse_pair s = (case cut (CHR ''='') s of
     None \<Rightarrow> None
   | Some (k, v) \<Rightarrow> (case (query_unescape k, query_unescape v) of
       (Some k', Some v') \<Rightarrow> Some (k', v') | _ \<Rightarrow> None))"

definition parse_query :: "string \<Rightarrow> (string \<times> string) list option" where
  "parse_query s = those (map parse_pair (split_on (CHR ''&'') s))"

lemma split_on_plain: "c \<notin> set s \<Longrightarrow> split_on c s = [s]"
  by (induction s) auto

lemma split_on_append: "c \<notin> set s \<Longrightarrow> split_on c (s @ c # t) = s # split_on c t"
  by (induction s) auto

lemma split_on_join:
  "xs \<noteq> [] \<Longrightarrow> list_all (\<lambda>x. c \<notin> set x) xs \<Longrightarrow> split_on c (join [c] xs) = xs"
  by (induction "[c]" xs rule: join.induct) (simp_all add: split_on_plain split_on_append)

lemma join_append: "xs \<noteq> [] \<Longrightarrow> ys \<noteq> [] \<Longrightarrow> join sep (xs @ ys) = join sep xs @ sep @ join sep ys"
proof (induction sep xs rule: join.induct)
  case (2 sep x)
  then show ?case by (cases ys) simp_all
qed simp_all

lemma cut_first: "c \<notin> set a \<Longrightarrow> cut c (a @ c # b) = Some (a, b)"
  by (simp add: cut_Some_iff)

lemma parse_encode_pair: "parse_pair (encode_pair p) = Some p"
  by (cases p) (simp add: parse_pair_def encode_pair_def cut_first escape_separators query_unescape_escape)

lemma encode_pair_separator: "CHR ''&'' \<notin> set (encode_pair p)"
  by (cases p) (simp add: encode_pair_def escape_separators)

definition readable :: "dash_var \<Rightarrow> bool" where
  \<comment> \<open>an unescaped value that can stand in a query\<close>
  "readable v = (CHR ''&'' \<notin> set (dv_value v) \<and> query_unescape (dv_value v) \<noteq> None)"

definition target_pair :: "dash_var \<Rightarrow> string \<times> string" where
  "target_pair v = (var_name v, the (query_unescape (dv_value v)))"

lemma parse_raw_pair: "readable v \<Longrightarrow> parse_pair (raw_pair v) = Some (target_pair v)"
  by (auto simp: parse_pair_def raw_pair_def target_pair_def readable_def cut_first escape_separators
      query_unescape_escape)

lemma raw_pair_separator: "readable v \<Longrightarrow> CHR ''&'' \<notin> set (raw_pair v)"
  by (simp add: raw_pair_def readable_def escape_separators)

lemma distinct_vals_add: "distinct (map fst q) \<Longrightarrow> distinct (map fst (vals_add k v q))"
  by (simp add: vals_add_def distinct_update)

lemma query_pairs_iff:
  "distinct (map fst q) \<Longrightarrow> (k, v) \<in> set (query_pairs q) \<longleftrightarrow> (\<exists>vs. map_of q k = Some vs \<and> v \<in> set vs)"
  by (force simp: query_pairs_def map_of_eq_Some_iff)

lemma in_vals_add:
  "distinct (map fst q) \<Longrightarrow> (k, v) \<in> set (query_pairs (vals_add k' v' q)) \<longleftrightarrow>
     (k, v) \<in> set (query_pairs q) \<or> (k, v) = (k', v')"
proof -
  assume d: "distinct (map fst q)"
  have "map_of (vals_add k' v' q) = (map_of q)(k' \<mapsto> (case map_of q k' of None \<Rightarrow> [] | Some vs \<Rightarrow> vs) @ [v'])"
    by (simp add: vals_add_def update_conv')
  then show ?thesis
    by (simp only: query_pairs_iff [OF d] query_pairs_iff [OF distinct_vals_add [OF d]])
       (auto split: option.splits)
qed

lemma in_source_values:
  "distinct (map fst q) \<Longrightarrow> p \<in> set (query_pairs (source_values q vars)) \<longleftrightarrow>
     p \<in> set (query_pairs q) \<or> p \<in> (\<lambda>v. (var_name v, dv_value v)) ` {v \<in> set vars. dv_type v \<noteq> TargetVar}"
proof (induction vars arbitrary: q)
  case (Cons v vars)
  then show ?case
    by (cases p) (auto simp: source_values_def distinct_vals_add in_vals_add)
qed (simp add: source_values_def)

lemma upsert_has_datasource:
  "\<exists>v \<in> set (upsert_datasource_var vars ds). is_datasource_var v \<and> dv_value v = ds"
proof (cases "list_ex is_datasource_var vars")
  case True
  then obtain v where v: "v \<in> set vars" "is_datasource_var v" by (auto simp: list_ex_iff)
  then have "v\<lparr>dv_value := ds\<rparr> \<in> set (upsert_datasource_var vars ds)"
    using True by (force simp: upsert_datasource_var_def overwrite_datasource_def)
  then show ?thesis using v by (intro bexI [of _ "v\<lparr>dv_value := ds\<rparr>"]) (simp_all add: is_datasource_var_def)
qed (auto simp: upsert_datasource_var_def is_datasource_var_def)

lemma upsert_targets:
  "filter (\<lambda>v. dv_type v = TargetVar) (upsert_datasource_var vars ds) = filter (\<lambda>v. dv_type v = TargetVar) vars"
proof -
  have "filter (\<lambda>v. dv_type v = TargetVar) (overwrite_datasource ds vars) = filter (\<lambda>v. dv_type v = TargetVar) vars"
    unfolding overwrite_datasource_def by (induction vars) (auto simp: is_datasource_var_def)
  then show ?thesis by (simp add: upsert_datasource_var_def)
qed

lemma add_vars_pieces:
  assumes "query_pairs (source_values q vars) \<noteq> []" "filter (\<lambda>v. dv_type v \<noteq> TargetVar) vars \<noteq> []"
  shows "add_vars q vars = join ''&'' (map encode_pair (query_pairs (source_values q vars)) @
    map raw_pair (filter (\<lambda>v. dv_type v = TargetVar) vars))"
  using assms join_append [of "map encode_pair (query_pairs (source_values q vars))"
      "map raw_pair (filter (\<lambda>v. dv_type v = TargetVar) vars)" "''&''"]
  by (auto simp: add_vars_def Let_def encode_values_def)

text \<open>
  C17: the query of a link reads back as what was put into it: every parameter of the link and every
  source variable exactly, then the target variables; the datasource the server chose is always
  among them, whatever the request said.  Only the values of target variables, which are not
  escaped, have to be well formed.
\<close>

theorem link_query_reads_back:
  assumes "distinct (map fst q)" "list_all (\<lambda>v. dv_type v = TargetVar \<longrightarrow> readable v) vars"
  shows "parse_query (add_vars q (upsert_datasource_var vars ds)) =
      Some (query_pairs (source_values q (upsert_datasource_var vars ds)) @
        map target_pair (filter (\<lambda>v. dv_type v = TargetVar) vars)) \<and>
    (''var-datasource'', ds) \<in> set (query_pairs (source_values q (upsert_datasource_var vars ds)))"
proof -
  let ?vs = "upsert_datasource_var vars ds"
  let ?ps = "query_pairs (source_values q ?vs)" and ?ts = "filter (\<lambda>v. dv_type v = TargetVar) vars"
  obtain d where d: "d \<in> set ?vs" "is_datasource_var d" "dv_value d = ds"
    using upsert_has_datasource by blast
  then have n: "var_name d = ''var-datasource''" "dv_type d \<noteq> TargetVar"
    by (auto simp: is_datasource_var_def var_name_def has_prefix_def)
  then have mem: "(''var-datasource'', ds) \<in> set ?ps"
    using in_source_values [OF assms(1)] d by force
  note t = upsert_targets [of vars ds]
  have "add_vars q ?vs = join ''&'' (map encode_pair ?ps @ map raw_pair ?ts)"
    by (rule add_vars_pieces [of q ?vs, unfolded t]) (use mem d n in \<open>auto simp: filter_empty_conv\<close>)
  moreover have "split_on CHR ''&'' (join ''&'' (map encode_pair ?ps @ map raw_pair ?ts)) =
      map encode_pair ?ps @ map raw_pair ?ts"
    using assms(2) mem
    by (intro split_on_join) (auto simp: list_all_iff encode_pair_separator raw_pair_separator)
  moreover have "those (map parse_pair (map encode_pair ?ps @ map raw_pair ?ts)) = Some (?ps @ map target_pair ?ts)"
  proof -
    have eq: "map parse_pair (map encode_pair ?ps @ map raw_pair ?ts) = map Some (?ps @ map target_pair ?ts)"
      using assms(2) by (auto simp: parse_encode_pair parse_raw_pair list_all_iff)
    show ?thesis unfolding eq by (rule those_Somes)
  qed
  ultimately show ?thesis using mem by (simp add: parse_query_def)
qed

definition pod_var :: dash_var where
  "pod_var = \<lparr>dv_name = ''pod'', dv_value = ''${pod}'', dv_type = TargetVar\<rparr>"

lemma link_query_reads_back_witness:
  "(''var-datasource'', ''my cluster'') \<in> set (the (parse_query (add_vars [(''orgId'', [''1''])]
     (upsert_datasource_var [pod_var] ''my cluster''))))"
proof -
  have "readable pod_var" by (simp add: readable_def pod_var_def)
  then have "list_all (\<lambda>v. dv_type v = TargetVar \<longrightarrow> readable v) [pod_var]" by simp
  from link_query_reads_back [of "[(''orgId'', [''1''])]", OF _ this] show ?thesis by simp
qed

end
