(* ===== verification/Dashboard_Group.thy ===== *)
theory Dashboard_Group imports Namespace_Ctl Perses_Dashboard_Ctl Url_Query begin

section \<open>Dashboard links (pkg/registry/ui/dashboardgroup)\<close>

text \<open>
  The aggregated API answers a request for a group of dashboards with links into Grafana or Perses.
  \<open>create_group\<close> is \<open>Storage.Create\<close>: it chooses the datasource, and for each dashboard finds the
  Grafana and the Perses object, asks the authorizer, and builds the link or the links of the panels.
  The iteration order of a Go map is the order of the association list that models it.
\<close>

subsection \<open>Requests\<close>

record user_info =
  us_name :: string
  us_extra :: "(string \<times> string list) list"

record dash_ref =
  \<comment> \<open>\<open>DashboardRef\<close>\<close>
  dr_object :: "key option"
  dr_title :: string

record panel_request =
  pq_title :: string
  pq_width :: int

record dash_request =
  dq_ref :: dash_ref
  dq_vars :: "dash_var list"
  dq_panels :: "panel_request list"

record group_request =
  rg_dashboards :: "dash_request list"
  rg_refresh :: string
  rg_range :: "(string \<times> string) option"
  rg_embed :: bool
  rg_app :: "key option"

record panel_link =
  pk_title :: string
  pk_url :: string
  pk_width :: int

record dash_response =
  dp_ref :: dash_ref
  dp_url :: string
  dp_panels :: "panel_link list"

subsection \<open>The datasource\<close>

definition app_namespace :: "key option \<Rightarrow> dash_var list \<Rightarrow> string" where
  "app_namespace app vars =
     (if app \<noteq> None \<and> fst (the app) \<noteq> '''' then fst (the app)
      else (case find (\<lambda>v. dv_type v = SourceVar \<and> dv_name v = ''namespace'') vars of
        Some v \<Rightarrow> dv_value v
      | None \<Rightarrow> ''''))"

definition group_datasource :: "group_request \<Rightarrow> ('s, string) M" where
  \<comment> \<open>\<open>datasource\<close>\<close>
  "group_datasource rq =
     bnd cluster_metadata (\<lambda>md.
     bnd (with_prom federated) (\<lambda>fed.
     if \<not> fed then ret (md_name md) else
     (case rg_dashboards rq of
        [] \<Rightarrow> panic ''index out of range [0] with length 0''
      | d # _ \<Rightarrow>
          (let ns = app_namespace (rg_app rq) (dq_vars d) in
           if ns = '''' then ret (md_name md) else
           bnd (get_project_id ''kube-system'') (\<lambda>sys.
           bnd (get_project_id ns) (\<lambda>pid.
           ret (case (pid, sys) of
              (Some p, Some s) \<Rightarrow> if p \<noteq> s then md_name md @ ''-'' @ p else md_name md
            | _ \<Rightarrow> md_name md)))))))"

subsection \<open>Finding the dashboards\<close>

definition title_key :: string where "title_key = ''.dashboard.title''"

definition use_client_org :: "user_info \<Rightarrow> ('s, string option) M" where
  \<comment> \<open>\<open>useClientOrgDashboard\<close>: the monitoring namespace of the user's client organization\<close>
  "use_client_org u = (case map_of (us_extra u) ace_org_id_key of
     Some [org] \<Rightarrow>
       bnd (klist v_ns (all_opts\<lparr>lo_labels := [(client_org_key, ''true'')]\<rparr>)) (\<lambda>nss.
       ret (map_option (\<lambda>ns. monitoring_namespace (om_name (ns_meta ns)))
         (find (\<lambda>ns. sget (om_annotations (ns_meta ns)) ace_org_id_key = org) nss)))
   | _ \<Rightarrow> ret None)"

definition find_titled ::
    "'a view \<Rightarrow> ('a \<Rightarrow> objmeta) \<Rightarrow> string \<Rightarrow> string \<Rightarrow> string \<Rightarrow> user_info \<Rightarrow> string \<Rightarrow> ('s, 'a) M" where
  \<comment> \<open>the dashboard with a title, in the client organization's namespace or with the default backend\<close>
  "find_titled v mt default_key resource backend u title =
     bnd (use_client_org u) (\<lambda>org.
     (let t = (case org of None \<Rightarrow> title | Some _ \<Rightarrow> client_dashboard_title title);
          opts = (case org of
            Some ns \<Rightarrow> all_opts\<lparr>lo_namespace := Some ns, lo_fields := [(title_key, t)]\<rparr>
          | None \<Rightarrow> all_opts\<lparr>lo_fields := [(default_key, ''true''), (title_key, t)]\<rparr>) in
      bnd (klist v opts) (\<lambda>ds. case ds of
        [] \<Rightarrow> fail (ApiErr NotFound (resource @ '' \"No dashboard with title '' @ t @ '' uses the default '' @ backend
          @ ''\" not found''))
      | [d] \<Rightarrow> ret d
      | _ \<Rightarrow> fail (ApiErr BadRequest (''multiple dashboards '' @ join '','' (map (key_string \<circ> meta_key \<circ> mt) ds) @
          '' with title '' @ t @ '' uses the default '' @ backend)))))"

definition find_grafana_dashboard :: "user_info \<Rightarrow> dash_ref \<Rightarrow> ('s, grafana_dashboard) M" where
  "find_grafana_dashboard u r = (case dr_object r of
     Some k \<Rightarrow> if fst k = '''' then fail (Plain ''missing namespace for Dashboard'') else kget v_gd k
   | None \<Rightarrow>
       if dr_title r \<noteq> ''''
       then find_titled v_gd gd_meta default_grafana_key ''GrafanaDashboard.openviz.dev'' ''Grafana'' u (dr_title r)
       else ret (empty_grafana_dashboard '''' ''''))"

definition find_perses_dashboard :: "user_info \<Rightarrow> dash_ref \<Rightarrow> ('s, perses_dashboard) M" where
  \<comment> \<open>a missing object is the zero value\<close>
  "find_perses_dashboard u r = (case dr_object r of
     Some k \<Rightarrow>
       if fst k = '''' then fail (Plain ''missing namespace for Dashboard'') else
       bnd (attempt (kget v_pd k)) (\<lambda>x. case x of
         Inl e \<Rightarrow> if is_not_found e then ret (empty_perses_dashboard '''' '''') else fail e
       | Inr d \<Rightarrow> ret d)
   | None \<Rightarrow>
       if dr_title r \<noteq> ''''
       then find_titled v_pd pd_meta default_perses_key ''PersesDashboard.openviz.dev'' ''Perses'' u (dr_title r)
       else ret (empty_perses_dashboard '''' ''''))"

subsection \<open>Authorization\<close>

definition dashboards_resource :: string where "dashboards_resource = ''grafanadashboards.openviz.dev''"
definition apps_resource :: string where "apps_resource = ''appbindings.appcatalog.appscode.com''"

definition internal_error :: "gerr \<Rightarrow> gerr" where
  "internal_error e = ApiErr Internal (''Internal error occurred: '' @ err_msg e)"

definition authorize :: "user_info \<Rightarrow> string \<Rightarrow> key \<Rightarrow> ('s, unit) M" where
  \<comment> \<open>may the user get the object; anything but a permission is a refusal\<close>
  "authorize u resource k = bnd (send (AuthorizeQ (us_name u) resource k)) (\<lambda>a. case a of
     RErr e \<Rightarrow> fail (internal_error e)
   | RBool True \<Rightarrow> ret ()
   | RName why \<Rightarrow> fail (ApiErr Forbidden (resource @ '' \"'' @ key_string k @ ''\" is forbidden: '' @ why))
   | _ \<Rightarrow> fail (ApiErr Forbidden (resource @ '' \"'' @ key_string k @ ''\" is forbidden: '')))"

subsection \<open>Links\<close>

definition parse_host :: "string \<Rightarrow> ('s, url) M" where
  "parse_host h = bnd pures (\<lambda>C. lift_sum (case url_parse C h of
     Inl m \<Rightarrow> Inl (internal_error (Plain m)) | Inr u \<Rightarrow> Inr u))"

definition joined_path :: "codec \<Rightarrow> string \<Rightarrow> string list \<Rightarrow> string" where
  \<comment> \<open>\<open>path.Join\<close> of several elements\<close>
  "joined_path C p els = foldl (path_join C) p els"

definition refresh_or_default :: "string \<Rightarrow> string" where
  "refresh_or_default r = (if r = '''' then ''30s'' else r)"

definition grafana_base :: "string \<Rightarrow> string \<Rightarrow> gdash_ref \<Rightarrow> group_request \<Rightarrow> ('s, url \<times> url_values) M" where
  \<comment> \<open>the common part of a link to a dashboard (kind d) and to a panel (kind d-solo)\<close>
  "grafana_base host kd d rq =
     bnd (parse_host host) (\<lambda>u.
     bnd (need (gr_uid d)) (\<lambda>uid.
     bnd (need (gr_slug d)) (\<lambda>slug.
     bnd (need (gr_org_id d)) (\<lambda>org.
     bnd pures (\<lambda>C.
     (let (since, until) = (case rg_range rq of None \<Rightarrow> (''now-3h'', ''now'') | Some r \<Rightarrow> r) in
      ret (u\<lparr>u_path := joined_path C (u_path u) [kd, uid, slug]\<rparr>,
        vals_add ''to'' until (vals_add ''from'' since (vals_add ''refresh'' (refresh_or_default (rg_refresh rq))
          (vals_add ''orgId'' (itoa org) []))))))))))"

definition link_url :: "url \<Rightarrow> url_values \<Rightarrow> dash_var list \<Rightarrow> ('s, string) M" where
  "link_url u q vars = bnd pures (\<lambda>C. ret (url_string C (u\<lparr>u_query := add_vars q vars\<rparr>)))"

definition wanted :: "panel_request list \<Rightarrow> string \<Rightarrow> bool" where
  \<comment> \<open>\<open>includePanel\<close>\<close>
  "wanted ps t = (ps = [] \<or> t \<in> pq_title ` set ps)"

definition panel_width :: "panel_request list \<Rightarrow> string \<Rightarrow> int" where
  \<comment> \<open>of two requests for one title the later counts; an absent one is 0\<close>
  "panel_width ps t = (case find (\<lambda>p. pq_title p = t) (rev ps) of None \<Rightarrow> 0 | Some p \<Rightarrow> pq_width p)"

definition embedded_panel ::
    "string \<Rightarrow> gdash_ref \<Rightarrow> group_request \<Rightarrow> dash_request \<Rightarrow> board_panel \<Rightarrow> ('s, panel_link option) M" where
  \<comment> \<open>\<open>toEmbeddedPanel\<close>\<close>
  "embedded_panel host d rq dq p =
     (if \<not> wanted (dq_panels dq) (bp_title p) then ret None else
      bnd (grafana_base host ''d-solo'' d rq) (\<lambda>(u, q).
      bnd (link_url u (vals_add ''panelId'' (itoa (bp_id p)) q) (dq_vars dq)) (\<lambda>l.
      ret (Some \<lparr>pk_title = bp_title p, pk_url = l, pk_width = panel_width (dq_panels dq) (bp_title p)\<rparr>))))"

fun gather :: "('a \<Rightarrow> ('s, 'b option) M) \<Rightarrow> 'a list \<Rightarrow> ('s, 'b list) M" where
  \<comment> \<open>a loop that appends what each step yields\<close>
  "gather f [] = ret []"
| "gather f (x # xs) = bnd (f x) (\<lambda>y. bnd (gather f xs) (\<lambda>ys. ret (case y of None \<Rightarrow> ys | Some z \<Rightarrow> z # ys)))"

fun board_links ::
    "string \<Rightarrow> gdash_ref \<Rightarrow> group_request \<Rightarrow> dash_request \<Rightarrow> board_panel option list \<Rightarrow> ('s, panel_link list) M" where
  \<comment> \<open>the panels of a board; a row stands for the panels in it, and a nil panel panics\<close>
  "board_links host d rq dq [] = ret []"
| "board_links host d rq dq (None # ps) = panic ''invalid memory address or nil pointer dereference''"
| "board_links host d rq dq (Some p # ps) =
     bnd (gather (embedded_panel host d rq dq) (if bp_type p = ''row'' then bp_panels p else [p])) (\<lambda>ls.
     bnd (board_links host d rq dq ps) (\<lambda>rest. ret (ls @ rest)))"

fun perses_refs :: "panel_request list \<Rightarrow> (string \<times> perses_panel option) list \<Rightarrow> smap \<Rightarrow> ('s, smap) M" where
  \<comment> \<open>\<open>refByTitle\<close>: the panels by title\<close>
  "perses_refs rps [] refs = ret refs"
| "perses_refs rps ((r, None) # ps) refs = panic ''invalid memory address or nil pointer dereference''"
| "perses_refs rps ((r, Some p) # ps) refs =
     perses_refs rps ps (if wanted rps (pn_title p) then sput (pn_title p) r refs else refs)"

definition selected_panels :: "panel_request list \<Rightarrow> smap \<Rightarrow> string list" where
  "selected_panels rps refs =
     (if rps = [] then map snd refs
      else map (sget refs) (filter (shas refs) (map pq_title rps)))"

definition perses_path :: "codec \<Rightarrow> url \<Rightarrow> pdash_ref \<Rightarrow> url" where
  "perses_path C u d = u\<lparr>u_path := joined_path C (u_path u)
     [''projects'', pr_project d, ''folders'', pr_folder d, ''dashboards'', pr_name d]\<rparr>"

definition embedded_perses ::
    "perses_board \<Rightarrow> string \<Rightarrow> pdash_ref \<Rightarrow> group_request \<Rightarrow> dash_request \<Rightarrow> string \<Rightarrow> ('s, panel_link option) M" where
  \<comment> \<open>\<open>toEmbeddedPersesPanels\<close>: one link that selects the panels\<close>
  "embedded_perses b host d rq dq ds =
     bnd (perses_refs (dq_panels dq) (pb_panels b) []) (\<lambda>refs.
     (let sel = selected_panels (dq_panels dq) refs in
      if sel = [] then ret None else
      bnd (parse_host host) (\<lambda>u.
      bnd pures (\<lambda>C.
      bnd (link_url (perses_path C u d)
          (vals_add ''var-datasource'' ds (vals_add ''refresh'' (refresh_or_default (rg_refresh rq))
            (vals_set ''selectedPanels'' (json_enc C (AArr (map AStr sel))) []))) (dq_vars dq)) (\<lambda>l.
      ret (Some \<lparr>pk_title = pr_name d, pk_url = l, pk_width = 0\<rparr>))))))"

definition perses_link :: "string \<Rightarrow> pdash_ref \<Rightarrow> group_request \<Rightarrow> dash_request \<Rightarrow> string \<Rightarrow> ('s, string) M" where
  "perses_link host d rq dq ds =
     bnd (parse_host host) (\<lambda>u.
     bnd pures (\<lambda>C.
     link_url (perses_path C u d)
       (vals_add ''refresh'' (refresh_or_default (rg_refresh rq)) (vals_add ''start'' ''1h''
         (vals_add ''var-datasource'' ds []))) (dq_vars dq)))"

subsection \<open>A dashboard's response\<close>

definition backends_of ::
    "user_info \<Rightarrow> dash_ref \<Rightarrow> ('s, grafana_dashboard \<times> gdash_ref \<times> perses_dashboard \<times> app_binding \<times> app_binding) M" where
  \<comment> \<open>the first half of \<open>getDashboardLink\<close>: both dashboards, permission, both backends, permission\<close>
  "backends_of u r =
     bnd (find_grafana_dashboard u r) (\<lambda>d.
     bnd (find_perses_dashboard u r) (\<lambda>pd.
     seq (authorize u dashboards_resource (meta_key (gd_meta d)))
     (case gs_dashboard (gd_status d) of
        None \<Rightarrow> fail (ApiErr BadRequest (''Status.Dashboard field is missing in GrafanaDashboard '' @
          key_string (meta_key (gd_meta d))))
      | Some st \<Rightarrow>
          bnd (get_grafana (with_namespace (om_namespace (gd_meta d)) (gd_ref d))) (\<lambda>g.
          bnd (get_perses (perses_ref_of pd)) (\<lambda>ps.
          seq (authorize u apps_resource (meta_key (ab_meta g)))
          (ret (d, st, pd, g, ps)))))))"

definition models_of ::
    "grafana_dashboard \<Rightarrow> perses_dashboard \<Rightarrow> app_binding \<Rightarrow> app_binding
      \<Rightarrow> ('s, string \<times> string \<times> board \<times> perses_board option \<times> string) M" where
  \<comment> \<open>addresses, decoded models and the Perses datasource; None stands for the zero model\<close>
  "models_of d pd g ps =
     bnd pures (\<lambda>C.
     bnd (lift_sum (app_url C g)) (\<lambda>gh.
     bnd (lift_sum (app_url C ps)) (\<lambda>ph.
     bnd (lift_sum (case gd_model d of
         None \<Rightarrow> Inl (ApiErr BadRequest (''GrafanaDashboard '' @ key_string (meta_key (gd_meta d)) @ '' is missing a model''))
       | Some raw \<Rightarrow> (case dec_board C raw of
           Inl m \<Rightarrow> Inl (Plain (''failed to unmarshal model for GrafanaDashboard '' @ key_string (meta_key (gd_meta d)) @
             '', reason: '' @ m))
         | Inr b \<Rightarrow> Inr b))) (\<lambda>b.
     bnd (lift_sum (case pd_model pd of
         None \<Rightarrow> Inr None
       | Some raw \<Rightarrow> (case dec_perses C raw of
           Inl m \<Rightarrow> Inl (Plain (''failed to unmarshal model for PersesDashboard '' @ key_string (meta_key (pd_meta pd)) @
             '', reason: '' @ m))
         | Inr pb \<Rightarrow> Inr (Some pb)))) (\<lambda>pb.
     bnd (lift_sum (case perses_params C ps of
         Inl m \<Rightarrow> Inl (Plain (''failed to unmarshal PersesConfiguration '' @ key_string (meta_key (ab_meta ps)) @
           '', reason: '' @ m))
       | Inr cfg \<Rightarrow> Inr (pc_datasource cfg))) (\<lambda>ds.
     ret (gh, ph, b, pb, ds)))))))"

definition no_board :: perses_board where
  "no_board = \<lparr>pb_name = '''', pb_project = '''', pb_project_id = 0, pb_folder = '''', pb_folder_id = 0,
     pb_display = None, pb_vars = [], pb_panels = [], pb_rest = ''''\<rparr>"

definition embedded_links :: "string \<Rightarrow> gdash_ref \<Rightarrow> board \<Rightarrow> (perses_board \<times> string \<times> pdash_ref) option
     \<Rightarrow> group_request \<Rightarrow> dash_request \<Rightarrow> string \<Rightarrow> ('s, panel_link list) M" where
  \<comment> \<open>the links of an embedded request: to Perses when it has the dashboard, else to the panels in Grafana\<close>
  "embedded_links gh st b perses rq dq ds = (case perses of
     Some (pb, ph, pst) \<Rightarrow>
       bnd (embedded_perses pb ph pst rq dq ds) (\<lambda>l. ret (case l of None \<Rightarrow> [] | Some l \<Rightarrow> [l]))
   | None \<Rightarrow> board_links gh st rq dq (bo_panels b))"

definition whole_link :: "string \<Rightarrow> gdash_ref \<Rightarrow> (perses_board \<times> string \<times> pdash_ref) option
     \<Rightarrow> group_request \<Rightarrow> dash_request \<Rightarrow> string \<Rightarrow> ('s, string) M" where
  \<comment> \<open>the link to a whole dashboard; the one to Grafana is built even when Perses takes its place\<close>
  "whole_link gh st perses rq dq ds =
     bnd (grafana_base gh ''d'' st rq) (\<lambda>(u1, q).
     bnd (link_url u1 q (dq_vars dq)) (\<lambda>l.
     (case perses of None \<Rightarrow> ret l | Some (pb, ph, pst) \<Rightarrow> perses_link ph pst rq dq ds)))"

definition dashboard_link :: "user_info option \<Rightarrow> group_request \<Rightarrow> dash_request \<Rightarrow> ('s, dash_response) M" where
  \<comment> \<open>\<open>getDashboardLink\<close>\<close>
  "dashboard_link user rq dq = (case user of
     None \<Rightarrow> fail (ApiErr BadRequest ''missing user info'')
   | Some u \<Rightarrow>
       bnd (backends_of u (dq_ref dq)) (\<lambda>(d, st, pd, g, ps).
       bnd (models_of d pd g ps) (\<lambda>(gh, ph, b, pb, ds).
       (let perses = (if ph = '''' then None else map_option (\<lambda>pst. (case pb of None \<Rightarrow> no_board | Some b \<Rightarrow> b, ph, pst))
              (ps_dashboard (pd_status pd))) in
        if rg_embed rq then
          bnd (embedded_links gh st b perses rq dq ds) (\<lambda>ls.
          ret \<lparr>dp_ref = dq_ref dq, dp_url = '''', dp_panels = ls\<rparr>)
        else
          bnd (whole_link gh st perses rq dq ds) (\<lambda>l.
          ret \<lparr>dp_ref = dq_ref dq, dp_url = l, dp_panels = []\<rparr>)))))"

fun group_links :: "user_info option \<Rightarrow> group_request \<Rightarrow> string \<Rightarrow> dash_request list \<Rightarrow> ('s, dash_response list) M" where
  \<comment> \<open>the loop of \<open>Create\<close>: the first error ends it\<close>
  "group_links user rq ds [] = ret []"
| "group_links user rq ds (dq # dqs) =
     bnd (dashboard_link user rq (dq\<lparr>dq_vars := upsert_datasource_var (dq_vars dq) ds\<rparr>)) (\<lambda>r.
     bnd (group_links user rq ds dqs) (\<lambda>rs. ret (r # rs)))"

definition create_group ::
    "user_info option \<Rightarrow> group_request option \<Rightarrow> ('s, group_request \<times> dash_response list) M" where
  \<comment> \<open>\<open>Create\<close>: the request comes back with its datasource variables overwritten\<close>
  "create_group user request = (case request of
     None \<Rightarrow> fail (ApiErr BadRequest ''missing apirequest'')
   | Some rq \<Rightarrow>
       bnd (attempt prom_ready) (\<lambda>r. case r of
         Inl e \<Rightarrow> fail (internal_error e)
       | Inr ready \<Rightarrow>
           if \<not> ready then fail (ApiErr Unavailable ''prometheus is not ready'') else
           bnd (group_datasource rq) (\<lambda>ds.
           bnd (group_links user rq ds (rg_dashboards rq)) (\<lambda>rs.
           ret (rq\<lparr>rg_dashboards := map (\<lambda>d. d\<lparr>dq_vars := overwrite_datasource ds (dq_vars d)\<rparr>) (rg_dashboards rq)\<rparr>,
             rs)))))"

subsection \<open>What each part can send\<close>

lemma never_pure_links [trace_intros]:
  "never q (parse_host h)" "never q (link_url u vs vars)"
  unfolding parse_host_def link_url_def by (intro trace_intros)+

lemma never_need_pointer [trace_intros]: "never q (need x)"
  unfolding need_def by (auto split: option.split intro: trace_intros)

lemma never_grafana_base [trace_intros]: "never q (grafana_base h kd d rq)"
  unfolding grafana_base_def by (auto simp: Let_def split: prod.split intro!: trace_intros)

lemma never_gather [trace_intros]: "(\<And>x. never q (f x)) \<Longrightarrow> never q (gather f xs)"
  by (induction xs) (auto intro!: trace_intros)

lemma never_board_links [trace_intros]: "never q (board_links h d rq dq ps)"
proof (induction ps)
  case (Cons p ps)
  have e: "never q (embedded_panel h d rq dq b)" for b
    unfolding embedded_panel_def by (auto intro!: trace_intros)
  show ?case by (cases p) (auto intro!: trace_intros e Cons)
qed (auto intro: trace_intros)

lemma never_perses_refs [trace_intros]: "never q (perses_refs rps ps refs)"
  by (induction rps ps refs rule: perses_refs.induct) (auto intro: trace_intros)

lemma never_perses_links [trace_intros]:
  "never q (embedded_perses b h d rq dq ds)" "never q (perses_link h d rq dq ds)"
  unfolding embedded_perses_def perses_link_def by (auto simp: Let_def intro!: trace_intros)

lemma never_links [trace_intros]:
  "never q (embedded_links gh st b perses rq dq ds)" "never q (whole_link gh st perses rq dq ds)"
  unfolding embedded_links_def whole_link_def by (auto split: option.split intro!: trace_intros)

lemma never_models_of [trace_intros]: "never q (models_of d pd g ps)"
  unfolding models_of_def by (intro trace_intros)

lemma never_authorize [trace_intros]:
  "(\<And>a. \<not> q (AuthorizeQ (us_name u) r k, a)) \<Longrightarrow> never q (authorize u r k)"
  unfolding authorize_def by (auto split: response.split bool.split intro!: trace_intros)

lemma never_find_titled [trace_intros]:
  assumes "\<And>opts a. \<not> q (ListQ KNamespace opts, a)" "\<And>opts a. \<not> q (ListQ (vkind v) opts, a)"
  shows "never q (find_titled v mt dk res be u t)"
proof -
  have "never q (use_client_org u)"
    unfolding use_client_org_def
    by (auto simp: v_ns_def assms split: option.split list.split intro!: trace_intros)
  then show ?thesis
    unfolding find_titled_def Let_def
    by (auto simp: assms split: list.split intro!: trace_intros)
qed

lemma never_backends_of [trace_intros]:
  assumes "\<And>K opts a. \<not> q (ListQ K opts, a)" "\<And>K k a. \<not> q (Get K k, a)" "\<And>n r k a. \<not> q (AuthorizeQ n r k, a)"
  shows "never q (backends_of u r)"
  unfolding backends_of_def find_grafana_dashboard_def find_perses_dashboard_def
  by (auto simp: assms split: option.split sum.split intro!: trace_intros)

lemma never_dashboard_link [trace_intros]:
  assumes "\<And>K opts a. \<not> q (ListQ K opts, a)" "\<And>K k a. \<not> q (Get K k, a)" "\<And>n r k a. \<not> q (AuthorizeQ n r k, a)"
  shows "never q (dashboard_link user rq dq)"
  unfolding dashboard_link_def
  by (auto simp: Let_def assms split: option.split intro!: trace_intros)

lemma never_create_group:
  assumes "\<And>K opts a. \<not> q (ListQ K opts, a)" "\<And>K k a. \<not> q (Get K k, a)" "\<And>n r k a. \<not> q (AuthorizeQ n r k, a)"
    "\<And>g k a. \<not> q (RestMapping g k, a)" "\<And>a. \<not> q (ClusterMetadataQ, a)"
  shows "never q (create_group user request)"
proof -
  have g: "never q (group_links user rq ds dqs)" for rq ds dqs
    by (induction dqs) (auto simp: assms intro!: trace_intros)
  have d: "never q (group_datasource rq)" for rq
    unfolding group_datasource_def Let_def
    by (auto simp: assms split: list.split intro!: trace_intros)
  show ?thesis
    unfolding create_group_def
    by (auto simp: assms split: option.split sum.split intro!: trace_intros g d)
qed

subsection \<open>Properties\<close>

lemma holds_authorize:
  "holds (authorize u r k) (\<lambda>res es. case res of Ok _ \<Rightarrow> (AuthorizeQ (us_name u) r k, RBool True) \<in> set es | _ \<Rightarrow> True)"
  unfolding authorize_def
proof (rule holds_bnd [where \<Psi> = "\<lambda>r1 es. \<exists>a. r1 = Ok a \<and> es = [(AuthorizeQ (us_name u) r k, a)]"])
  fix a :: response and es :: "event list" assume "\<exists>b. Ok a = Ok b \<and> es = [(AuthorizeQ (us_name u) r k, b)]"
  then show "holds (case a of RErr e \<Rightarrow> fail (internal_error e) | RBool True \<Rightarrow> ret ()
      | RName why \<Rightarrow> fail (ApiErr Forbidden (r @ '' \"'' @ key_string k @ ''\" is forbidden: '' @ why))
      | _ \<Rightarrow> fail (ApiErr Forbidden (r @ '' \"'' @ key_string k @ ''\" is forbidden: '')))
    (\<lambda>res es'. case res of Ok _ \<Rightarrow> (AuthorizeQ (us_name u) r k, RBool True) \<in> set (es @ es') | _ \<Rightarrow> True)"
    by (auto split: response.split bool.split)
qed (auto intro: holds_send)

definition permits :: "user_info \<Rightarrow> grafana_dashboard \<Rightarrow> app_binding \<Rightarrow> event list \<Rightarrow> bool" where
  \<comment> \<open>the authorizer allowed the user to get the dashboard and the AppBinding\<close>
  "permits u d g es = ((AuthorizeQ (us_name u) dashboards_resource (meta_key (gd_meta d)), RBool True) \<in> set es \<and>
     (AuthorizeQ (us_name u) apps_resource (meta_key (ab_meta g)), RBool True) \<in> set es)"

lemma holds_bnd_ok:
  \<comment> \<open>a claim about successful runs only\<close>
  assumes "holds m (\<lambda>r es. case r of Ok x \<Rightarrow> P x es | _ \<Rightarrow> True)"
    and "\<And>x es. P x es \<Longrightarrow> holds (f x) (\<lambda>r es'. case r of Ok y \<Rightarrow> Q y (es @ es') | _ \<Rightarrow> True)"
  shows "holds (bnd m f) (\<lambda>r es. case r of Ok y \<Rightarrow> Q y es | _ \<Rightarrow> True)"
  by (rule holds_bnd [OF assms(1)]) (use assms(2) in auto)

lemma holds_bnd_ok_skip:
  assumes "\<And>x es. holds (f x) (\<lambda>r es'. case r of Ok y \<Rightarrow> Q y (es @ es') | _ \<Rightarrow> True)"
  shows "holds (bnd m f) (\<lambda>r es. case r of Ok y \<Rightarrow> Q y es | _ \<Rightarrow> True)"
  by (rule holds_bnd_any) (use assms in auto)

lemma holds_backends_of:
  "holds (backends_of u r) (\<lambda>res es. case res of Ok (d, st, pd, g, ps) \<Rightarrow> permits u d g es | _ \<Rightarrow> True)"
  unfolding backends_of_def
proof (rule holds_bnd_ok_skip, rule holds_bnd_ok_skip, rule holds_bnd_ok [OF holds_authorize])
  fix d :: grafana_dashboard and pd :: perses_dashboard and es1 es2 es3 :: "event list" and x :: unit
  assume A: "(AuthorizeQ (us_name u) dashboards_resource (meta_key (gd_meta d)), RBool True) \<in> set es3"
  show "holds (case gs_dashboard (gd_status d) of
      None \<Rightarrow> fail (ApiErr BadRequest (''Status.Dashboard field is missing in GrafanaDashboard '' @
          key_string (meta_key (gd_meta d))))
    | Some st \<Rightarrow> bnd (get_grafana (with_namespace (om_namespace (gd_meta d)) (gd_ref d))) (\<lambda>g.
        bnd (get_perses (perses_ref_of pd)) (\<lambda>ps.
        seq (authorize u apps_resource (meta_key (ab_meta g)))
        (ret (d, st, pd, g, ps)))))
    (\<lambda>res es'. case res of Ok y \<Rightarrow> (case y of (d, st, pd, g, ps) \<Rightarrow>
       permits u d g (es1 @ es2 @ es3 @ es')) | _ \<Rightarrow> True)"
  proof (cases "gs_dashboard (gd_status d)")
    case (Some st)
    show ?thesis
      unfolding Some option.case
      by (rule holds_bnd_ok_skip, rule holds_bnd_ok_skip, rule holds_bnd_ok [OF holds_authorize])
         (use A in \<open>auto simp: permits_def\<close>)
  qed simp
qed


fun leaves_cluster :: "event \<Rightarrow> bool" where
  "leaves_cluster (HttpQ _, _) = True"
| "leaves_cluster (GrafanaQ _ _, _) = True"
| "leaves_cluster (q, _) = is_write q"

text \<open>
  A call for a group of dashboards only reads: it writes no object and sends no request to
  Grafana, Perses or the hub.
\<close>

theorem group_only_reads: "never leaves_cluster (create_group user request)"
  by (rule never_create_group) simp_all

lemma dashboard_link_ref: "returns (\<lambda>r. dp_ref r = dq_ref dq) (dashboard_link user rq dq)"
  unfolding dashboard_link_def
  by (auto simp: Let_def split: option.split intro!: returns_fail returns_bnd returns_ret)

lemma group_links_refs: "returns (\<lambda>rs. map dp_ref rs = map dq_ref dqs) (group_links user rq ds dqs)"
proof (induction dqs)
  case (Cons dq dqs)
  show ?case
    unfolding group_links.simps
    by (rule returns_bnd_from [OF dashboard_link_ref], rule returns_bnd_from [OF Cons], rule returns_ret) simp
qed (simp add: returns_ret)

text \<open>
  A successful answer has one response for each dashboard of the request, in the request's
  order, and the request it echoes asks for the same dashboards and panels.
\<close>

theorem group_answers_in_order:
  "returns (\<lambda>(rq', rs). map dp_ref rs = map dq_ref (rg_dashboards rq) \<and>
      map dq_ref (rg_dashboards rq') = map dq_ref (rg_dashboards rq) \<and>
      map dq_panels (rg_dashboards rq') = map dq_panels (rg_dashboards rq)) (create_group user (Some rq))"
  unfolding create_group_def option.case
  by (rule returns_bnd)
     (auto split: sum.split intro!: returns_fail returns_bnd returns_bnd_from [OF group_links_refs] returns_ret)

text \<open>
  C31: for a user of a client organization a dashboard given by title is looked for only in the
  monitoring namespace of that organization.
\<close>

theorem client_org_confined:
  assumes "map_of (us_extra u) ace_org_id_key = Some [org]"
    and "klist v_ns (all_opts\<lparr>lo_labels := [(client_org_key, ''true'')]\<rparr>) E w = (Ok nss, es, w1)"
    and "find (\<lambda>ns. sget (om_annotations (ns_meta ns)) ace_org_id_key = org) nss = Some n"
  shows "\<exists>a. fst (snd (find_titled v mt dk res be u title E w)) =
     es @ [(ListQ (vkind v) (all_opts\<lparr>lo_namespace := Some (monitoring_namespace (om_name (ns_meta n))),
       lo_fields := [(title_key, client_dashboard_title title)]\<rparr>), a)]"
proof -
  have use: "use_client_org u E w = (Ok (Some (monitoring_namespace (om_name (ns_meta n)))), es, w1)"
    using assms by (simp add: use_client_org_def bnd_def ret_def)
  have one: "\<exists>r a w2. klist v opts E w1 = (r, [(ListQ (vkind v) opts, a)], w2)" for opts
    by (auto simp: klist_def answer_def send_def bnd_def fail_def ret_def split: prod.split response.split option.split)
  let ?opts = "all_opts\<lparr>lo_namespace := Some (monitoring_namespace (om_name (ns_meta n))),
       lo_fields := [(title_key, client_dashboard_title title)]\<rparr>"
  obtain r a w2 where k: "klist v ?opts E w1 = (r, [(ListQ (vkind v) ?opts, a)], w2)"
    using one by blast
  show ?thesis
  proof (cases r)
    case (Ok ds)
    then show ?thesis
      using use k by (auto simp: find_titled_def Let_def bnd_def ret_def fail_def split: list.split)
  qed (use use k in \<open>simp_all add: find_titled_def Let_def bnd_def\<close>)
qed

definition acme_user :: user_info where
  "acme_user = \<lparr>us_name = ''ann'', us_extra = [(ace_org_id_key, [''7''])]\<rparr>"

definition acme_namespace :: namespace where
  "acme_namespace = \<lparr>ns_meta = (new_meta '''' ''acme'')\<lparr>om_annotations := [(ace_org_id_key, ''7'')]\<rparr>\<rparr>"

lemma client_org_confined_witness:
  "\<exists>e a. fst (snd (find_titled v_gd gd_meta default_grafana_key ''GrafanaDashboard'' ''Grafana'' acme_user
      ''KubeDB / Pods'' script_env (start [RObjs [ONamespace acme_namespace]]))) =
    [e, (ListQ KGrafanaDashboard (all_opts\<lparr>lo_namespace := Some ''acme-monitoring'',
      lo_fields := [(title_key, client_dashboard_title ''KubeDB / Pods'')]\<rparr>), a)]"
proof -
  let ?q = "ListQ KNamespace (all_opts\<lparr>lo_labels := [(client_org_key, ''true'')]\<rparr>)"
  have "klist v_ns (all_opts\<lparr>lo_labels := [(client_org_key, ''true'')]\<rparr>) script_env
      (start [RObjs [ONamespace acme_namespace]]) =
      (Ok [acme_namespace], [(?q, RObjs [ONamespace acme_namespace])], start [])"
    by (simp add: klist_def answer_def send_def bnd_def ret_def script_env_def start_def v_ns_def the_list_def)
  then have "\<exists>a. fst (snd (find_titled v_gd gd_meta default_grafana_key ''GrafanaDashboard'' ''Grafana'' acme_user
      ''KubeDB / Pods'' script_env (start [RObjs [ONamespace acme_namespace]]))) =
    [(?q, RObjs [ONamespace acme_namespace])] @ [(ListQ (vkind v_gd) (all_opts\<lparr>lo_namespace := Some (monitoring_namespace
      (om_name (ns_meta acme_namespace))), lo_fields := [(title_key, client_dashboard_title ''KubeDB / Pods'')]\<rparr>), a)]"
    by (rule client_org_confined [rotated])
       (simp_all add: acme_user_def acme_namespace_def new_meta_def sget_def)
  moreover have "vkind v_gd = KGrafanaDashboard" "monitoring_namespace (om_name (ns_meta acme_namespace)) = ''acme-monitoring''"
    by (simp_all add: v_gd_def monitoring_namespace_def acme_namespace_def new_meta_def)
  ultimately show ?thesis by auto
qed

text \<open>On a federated cluster a request without dashboards panics instead of answering with none.\<close>

lemma empty_group_panics:
  "\<exists>p es w'. create_group user (Some rq) script_env ((start [RMetadata md])\<lparr>w_prom := Some RancherProm\<rparr>) =
     (Panic p, es, w')" if "rg_dashboards rq = []"
  using that
  by (simp add: create_group_def group_datasource_def prom_ready_set attempt_def bnd_def cluster_metadata_def answer_def
      send_def script_env_def start_def ret_def with_prom_def get_world_def panic_def)

text \<open>The Perses dashboard and its AppBinding are not submitted to the authorizer.\<close>

lemma perses_not_authorized:
  "never (\<lambda>(q, _). \<exists>n r k. q = AuthorizeQ n r k \<and> r \<noteq> dashboards_resource \<and> r \<noteq> apps_resource)
     (dashboard_link user rq dq)"
  unfolding dashboard_link_def backends_of_def find_grafana_dashboard_def find_perses_dashboard_def
  by (auto simp: Let_def split: option.split sum.split intro!: trace_intros)

end
