(* ===== verification/Indexes.thy ===== *)
theory Indexes imports Grafana_Client begin

section \<open>Field indexes (pkg/apiserver, pkg/cmds/server)\<close>

text \<open>
  The cached client answers a list with matching fields from indexes whose functions the program
  registers at start-up: default AppBindings by annotation, dashboards by their backend and by
  title.  The locale \<open>cached_client\<close> is the contract of the client, which the lookup of the default
  AppBinding relies on; an informer's store that uses the program's index functions interprets it.
\<close>

definition default_index :: "string \<Rightarrow> objmeta \<Rightarrow> string list" where
  "default_index k m = (if sget (om_annotations m) k = ''true'' then [''true''] else [])"

definition backend_index :: "string \<Rightarrow> key option \<Rightarrow> ('s, string list) M" where
  \<comment> \<open>the index of dashboards by default backend; the key of the reference is used as it is\<close>
  "backend_index dk r = (case r of
     None \<Rightarrow> ret [''true'']
   | Some k \<Rightarrow> bnd (attempt (kget v_ab k)) (\<lambda>x. ret (case x of
       Inl _ \<Rightarrow> []
     | Inr ab \<Rightarrow> default_index dk (ab_meta ab))))"

definition grafana_backend_index :: "grafana_dashboard \<Rightarrow> ('s, string list) M" where
  "grafana_backend_index d = backend_index default_grafana_key (gd_ref d)"

definition perses_backend_index :: "perses_dashboard \<Rightarrow> ('s, string list) M" where
  "perses_backend_index d = backend_index default_perses_key (pd_ref d)"

definition grafana_title_index :: "codec \<Rightarrow> grafana_dashboard \<Rightarrow> string list" where
  \<comment> \<open>only the field \<open>title\<close> of the model is decoded; an absent or null one is the empty string\<close>
  "grafana_title_index C d = (case gd_model d of
     None \<Rightarrow> []
   | Some raw \<Rightarrow> (case json_dec C raw of
       Inr (AObj flds) \<Rightarrow> (case map_of flds ''title'' of
           Some (AStr t) \<Rightarrow> [t]
         | None \<Rightarrow> ['''']
         | Some ANull \<Rightarrow> ['''']
         | Some _ \<Rightarrow> [])
     | Inr ANull \<Rightarrow> ['''']
     | _ \<Rightarrow> []))"

definition perses_title_index :: "codec \<Rightarrow> perses_dashboard \<Rightarrow> ('s, string list) M" where
  \<comment> \<open>the display is a pointer\<close>
  "perses_title_index C d = (case pd_model d of
     None \<Rightarrow> ret []
   | Some raw \<Rightarrow> (case dec_perses C raw of
       Inl _ \<Rightarrow> ret []
     | Inr b \<Rightarrow> (case pb_display b of
         None \<Rightarrow> panic ''invalid memory address or nil pointer dereference''
       | Some (name, _) \<Rightarrow> ret [name])))"

subsection \<open>The default AppBinding\<close>

locale cached_client =
  fixes exec_of :: "request \<Rightarrow> 's \<Rightarrow> response \<times> 's" and bindings :: "'s \<Rightarrow> app_binding list"
    and index :: "string \<Rightarrow> app_binding \<Rightarrow> string list"
  assumes list_indexed: "exec_of (ListQ KAppBinding (all_opts\<lparr>lo_fields := [(f, v)]\<rparr>)) s =
    (RObjs (map OAppBinding (filter (\<lambda>ab. v \<in> set (index f ab)) (bindings s))), s)"
begin

lemma klist_indexed:
  assumes "exec E = exec_of"
  shows "klist v_ab (all_opts\<lparr>lo_fields := [(f, v)]\<rparr>) E w =
    (Ok (filter (\<lambda>ab. v \<in> set (index f ab)) (bindings (w_ext w))),
     [(ListQ KAppBinding (all_opts\<lparr>lo_fields := [(f, v)]\<rparr>),
       RObjs (map OAppBinding (filter (\<lambda>ab. v \<in> set (index f ab)) (bindings (w_ext w)))))], w)"
proof -
  have t: "those (map (unwrap v_ab) (map OAppBinding xs)) = Some xs" for xs
    by (induction xs) (simp_all add: v_ab_def)
  have k: "vkind v_ab = KAppBinding" by (simp add: v_ab_def)
  show ?thesis
    using t by (simp add: klist_def answer_def send_def bnd_def ret_def assms list_indexed the_list_def k del: map_map)
qed

lemma find_default:
  assumes "exec E = exec_of"
  shows "outcome_of (find_binding f what None E w) = Ok ab \<longleftrightarrow>
    filter (\<lambda>ab. ''true'' \<in> set (index f ab)) (bindings (w_ext w)) = [ab]"
  using klist_indexed [OF assms, of f "''true''" w]
  by (auto simp: find_binding_def bnd_def outcome_of_def ret_def fail_def split: list.splits)

lemma find_default_fails:
  assumes "exec E = exec_of"
  shows "(\<exists>ab. outcome_of (find_binding f what None E w) = Ok ab) \<or>
    (\<exists>e. outcome_of (find_binding f what None E w) = Err e \<and>
      (is_not_found e \<longleftrightarrow> filter (\<lambda>ab. ''true'' \<in> set (index f ab)) (bindings (w_ext w)) = []))"
  using klist_indexed [OF assms, of f "''true''" w]
  by (auto simp: find_binding_def bnd_def outcome_of_def ret_def fail_def split: list.splits)

end

fun informer_exec :: "request \<Rightarrow> app_binding list \<Rightarrow> response \<times> app_binding list" where
  \<comment> \<open>a cache of AppBindings with the program's indexes\<close>
  "informer_exec (ListQ K opts) s =
     (if K = KAppBinding
      then (RObjs (map OAppBinding (filter (\<lambda>ab. list_all (\<lambda>(f, v). v \<in> set (default_index f (ab_meta ab)))
        (lo_fields opts)) s)), s)
      else (RErr (ApiErr NotFound ''no such kind''), s))"
| "informer_exec _ s = (RErr (ApiErr NotFound ''not found''), s)"

interpretation informer: cached_client informer_exec "\<lambda>s. s" "\<lambda>f ab. default_index f (ab_meta ab)"
  by unfold_locales simp

definition informer_env :: "codec \<Rightarrow> app_binding list env" where
  "informer_env C = \<lparr>exec = informer_exec, codecs = C\<rparr>"

definition marked :: "string \<Rightarrow> app_binding \<Rightarrow> bool" where
  "marked k ab = (sget (om_annotations (ab_meta ab)) k = ''true'')"

text \<open>
  Without a reference a client reaches exactly the AppBinding that is marked as default: there
  has to be one and only one; with none the error is not found, with several it is another one.
\<close>

theorem default_binding_found:
  "(outcome_of (get_grafana None (informer_env C) (start bs)) = Ok ab \<longleftrightarrow> filter (marked default_grafana_key) bs = [ab]) \<and>
   (outcome_of (get_perses None (informer_env C) (start bs)) = Ok ab \<longleftrightarrow> filter (marked default_perses_key) bs = [ab]) \<and>
   ((\<exists>e. outcome_of (get_grafana None (informer_env C) (start bs)) = Err e \<and> is_not_found e) \<longleftrightarrow>
      filter (marked default_grafana_key) bs = [])"
proof -
  have e: "exec (informer_env C) = informer_exec" by (simp add: informer_env_def)
  have m: "filter (\<lambda>ab. ''true'' \<in> set (default_index k (ab_meta ab))) bs = filter (marked k) bs" for k
    by (rule filter_cong) (simp_all add: default_index_def marked_def)
  have w: "w_ext (start bs) = bs" by (simp add: start_def)
  note f = informer.find_default [OF e, of _ _ "start bs", unfolded w m]
  have n: "(\<exists>x. outcome_of (find_binding k what None (informer_env C) (start bs)) = Err x \<and> is_not_found x) \<longleftrightarrow>
      filter (marked k) bs = []" for k what
    using informer.find_default_fails [OF e, of k what "start bs", unfolded w m] f [of k what]
    by (metis list.distinct(1) outcome.distinct(1) outcome.inject(2))
  show ?thesis
    unfolding get_grafana_def get_perses_def using f n by simp
qed

text \<open>The title of a Perses dashboard without a display section is not an empty one: indexing it panics.\<close>

lemma untitled_perses_panics:
  "pd_model d = Some raw \<Longrightarrow> dec_perses C raw = Inr b \<Longrightarrow> pb_display b = None \<Longrightarrow>
   \<exists>p. perses_title_index C d = panic p"
  by (rule exI) (simp add: perses_title_index_def)

end
