(* ===== verification/Alertmanager_Ctl.thy ===== *)
theory Alertmanager_Ctl imports Detector Meta_Util begin

section \<open>The Alertmanager controller (pkg/controllers/alertmanager)\<close>

text \<open>
  \<open>AlertmanagerReconciler\<close> makes an Alertmanager select the configurations that carry the operator's
  label, and keeps one such configuration with the receiver given to the operator, to which the inbox
  service is added when the cluster has it.
\<close>

definition inbox_group :: string where "inbox_group = ''inbox.monitoring.appscode.com''"
definition amcfg_name :: string where "amcfg_name = ''alertmanager-config''"
definition amcfg_key :: string where "amcfg_key = ''monitoring.appscode.com/alertmanager-config-generator''"
definition amcfg_value :: string where "amcfg_value = ''monitoring-operator''"

record am_reconciler =
  \<comment> \<open>\<open>AlertmanagerReconciler\<close>: the receivers and the route of \<open>cfg\<close>\<close>
  ar_cluster_uid :: string
  ar_receivers :: "receiver list"
  ar_route :: "route option"

subsection \<open>Validation\<close>

definition complete_email :: "email_config \<Rightarrow> bool" where
  "complete_email c = (ec_to c \<noteq> '''' \<and> ec_from c \<noteq> '''' \<and> ec_smarthost c \<noteq> '''' \<and>
     (case ec_password c of None \<Rightarrow> False | Some k \<Rightarrow> ks_name k \<noteq> '''' \<and> ks_key k \<noteq> ''''))"

definition email_errors :: "nat \<times> email_config \<Rightarrow> string list" where
  "email_errors = (\<lambda>(i, c). if complete_email c then [] else
     [''emailConfigs['' @ itoa (int i) @ ''] requires to, from, smarthost, and authPassword.name/key''])"

definition webhook_errors :: "nat \<times> webhook_config \<Rightarrow> string list" where
  "webhook_errors = (\<lambda>(i, c).
     (if wc_url c = None \<and> wc_url_secret c = None
      then [''webhookConfigs['' @ itoa (int i) @ ''] requires url or urlSecret''] else []) @
     (case wc_url_secret c of None \<Rightarrow> [] | Some k \<Rightarrow>
       if ks_name k = '''' \<or> ks_key k = ''''
       then [''webhookConfigs['' @ itoa (int i) @ ''].urlSecret requires name and key''] else []))"

definition receiver_errors :: "receiver \<Rightarrow> string list" where
  "receiver_errors r =
     (if rc_name r = '''' then [''receiver name must be specified''] else []) @
     concat (map email_errors (List.enumerate 0 (rc_emails r))) @
     concat (map webhook_errors (List.enumerate 0 (rc_webhooks r)))"

definition validate_config :: "receiver list \<Rightarrow> route option \<Rightarrow> gerr option" where
  \<comment> \<open>\<open>errors.Join\<close> puts each error on a line of its own\<close>
  "validate_config rs rt =
     (if length rs \<noteq> 1 then Some (Plain ''exactly one receiver is required'')
      else if rt \<noteq> None then Some (Plain ''alertmanager config route is managed by the controller'')
      else (case receiver_errors (hd rs) of
        [] \<Rightarrow> None
      | errs \<Rightarrow> Some (Plain (join [char_of (10 :: nat)] errs))))"

subsection \<open>The configuration\<close>

definition inbox_webhook :: "key \<Rightarrow> webhook_config" where
  "inbox_webhook svc = \<lparr>wc_send_resolved = Some True,
     wc_url = Some (''https://'' @ snd svc @ ''.'' @ fst svc @ ''.svc:443/alerts''),
     wc_url_secret = None, wc_insecure = Some True, wc_max_alerts = 0\<rparr>"

definition with_inbox :: "api_service option \<Rightarrow> receiver \<Rightarrow> ('s, receiver) M" where
  "with_inbox apisvc r = (case apisvc of
     None \<Rightarrow> ret r
   | Some s \<Rightarrow> (case as_service s of
       None \<Rightarrow> panic ''invalid memory address or nil pointer dereference''
     | Some svc \<Rightarrow> ret (r\<lparr>rc_webhooks := rc_webhooks r @ [inbox_webhook svc]\<rparr>)))"

definition watchdog_route :: "receiver \<Rightarrow> sub_route" where
  "watchdog_route r = \<lparr>sr_receiver = rc_name r,
     sr_matchers = [\<lparr>mt_name = ''alertname'', mt_value = ''Watchdog'', mt_type = ''=''\<rparr>], sr_repeat = ''24h''\<rparr>"

definition am_route :: "receiver \<Rightarrow> route" where
  "am_route r = \<lparr>rt_group_by = [''alertname'', ''app'', ''app_namespace'', ''job'', ''k8s_kind''],
     rt_group_wait = ''10s'', rt_group_interval = ''1m'', rt_receiver = rc_name r, rt_repeat = ''1h'',
     rt_continue = True, rt_routes = [watchdog_route r]\<rparr>"

definition generated_config :: "receiver \<Rightarrow> am_config \<Rightarrow> am_config" where
  "generated_config r c = c\<lparr>
     ac_meta := (ac_meta c)\<lparr>om_labels := sput amcfg_key amcfg_value (om_labels (ac_meta c))\<rparr>,
     ac_receivers := [r], ac_route := Some (am_route r)\<rparr>"

definition empty_config :: "string \<Rightarrow> am_config" where
  "empty_config ns = \<lparr>ac_meta = new_meta ns amcfg_name, ac_receivers = [], ac_route = None\<rparr>"

definition delete_config :: "key \<Rightarrow> ('s, unit) M" where
  "delete_config k = ignore_not_found (kdelete v_amcfg k)"

definition setup_alertmanager :: "am_reconciler \<Rightarrow> alertmanager \<Rightarrow> api_service option \<Rightarrow> ('s, unit) M" where
  \<comment> \<open>\<open>SetupClusterForAlertmanager\<close>\<close>
  "setup_alertmanager R am apisvc =
     (case validate_config (ar_receivers R) (ar_route R) of
        Some e \<Rightarrow> fail e
      | None \<Rightarrow>
          bnd (with_inbox apisvc (hd (ar_receivers R))) (\<lambda>r.
          if rc_emails r = [] \<and> rc_webhooks r = [] then delete_config (om_namespace (am_meta am), amcfg_name)
          else seq (create_or_patch v_amcfg (empty_config (om_namespace (am_meta am))) (\<lambda>c _. generated_config r c))
            (ret ())))"

subsection \<open>Reconcile\<close>

definition inbox_service :: "('s, api_service option) M" where
  \<comment> \<open>\<open>GetInboxAPIService\<close>\<close>
  "inbox_service = bnd (klist v_apisvc all_opts) (\<lambda>ss. ret (find (\<lambda>s. as_group s = inbox_group) ss))"

definition marked_selector :: "label_selector option \<Rightarrow> label_selector" where
  "marked_selector sel = (case sel of
     None \<Rightarrow> \<lparr>match_labels = [(amcfg_key, amcfg_value)], match_exprs = []\<rparr>
   | Some s \<Rightarrow> s\<lparr>match_labels := sput amcfg_key amcfg_value (match_labels s)\<rparr>)"

definition selecting_am :: "alertmanager \<Rightarrow> alertmanager" where
  "selecting_am am = am\<lparr>am_cfg_selector := Some (marked_selector (am_cfg_selector am)), am_strategy := ''None''\<rparr>"

definition am_reconcile :: "am_reconciler \<Rightarrow> key \<Rightarrow> ('s, unit) M" where
  "am_reconcile R k =
     fetch (kget v_am k) (\<lambda>am.
     bnd am_ready (\<lambda>ready.
     if \<not> ready then ret ()
     else if om_deleting (am_meta am) then ret ()
     else bnd inbox_service (\<lambda>apisvc.
     bnd (kpatch v_am am (selecting_am am)) (\<lambda>am1.
     setup_alertmanager R am1 apisvc))))"

definition all_alertmanagers :: "('s, key list) M" where
  \<comment> \<open>\<open>stateHandler\<close>\<close>
  "all_alertmanagers = bnd (attempt (klist v_am all_opts)) (\<lambda>r. ret (case r of
     Inl _ \<Rightarrow> []
   | Inr ams \<Rightarrow> map (meta_key \<circ> am_meta) ams))"

definition inbox_predicate :: "api_service \<Rightarrow> bool" where
  "inbox_predicate s = (as_group s = inbox_group)"

subsection \<open>Properties\<close>

definition complete_webhook :: "webhook_config \<Rightarrow> bool" where
  "complete_webhook c = ((wc_url c \<noteq> None \<or> wc_url_secret c \<noteq> None) \<and>
     (case wc_url_secret c of None \<Rightarrow> True | Some k \<Rightarrow> ks_name k \<noteq> '''' \<and> ks_key k \<noteq> ''''))"

definition valid_receiver :: "receiver \<Rightarrow> bool" where
  "valid_receiver r = (rc_name r \<noteq> '''' \<and> list_all complete_email (rc_emails r) \<and>
     list_all complete_webhook (rc_webhooks r))"

lemma enumerated_errors:
  assumes "\<And>i x. f (i, x) = [] \<longleftrightarrow> P x"
  shows "concat (map f (List.enumerate n xs)) = [] \<longleftrightarrow> list_all P xs"
  by (induction xs arbitrary: n) (simp_all add: assms del: concat_eq_Nil_conv)

lemma receiver_errors_Nil: "receiver_errors r = [] \<longleftrightarrow> valid_receiver r"
proof -
  have e: "email_errors (i, c) = [] \<longleftrightarrow> complete_email c" for i c
    by (simp add: email_errors_def)
  have w: "webhook_errors (i, c) = [] \<longleftrightarrow> complete_webhook c" for i c
    by (auto simp: webhook_errors_def complete_webhook_def split: option.split)
  show ?thesis
    by (simp only: receiver_errors_def append_is_Nil_conv enumerated_errors [of email_errors, OF e]
        enumerated_errors [of webhook_errors, OF w] valid_receiver_def) simp
qed

text \<open>
  The operator's Alertmanager configuration is accepted exactly when it has one receiver, which
  is named, whose emails all have addresses and a password, whose webhooks all have a target, and no
  route.
\<close>

theorem validate_config_exact:
  "validate_config rs rt = None \<longleftrightarrow> rt = None \<and> (\<exists>r. rs = [r] \<and> valid_receiver r)"
proof (cases rs)
  case (Cons r rs')
  then show ?thesis
    by (cases "receiver_errors r") (auto simp: validate_config_def receiver_errors_Nil [symmetric])
qed (simp add: validate_config_def)

definition proper_config :: "am_config \<Rightarrow> bool" where
  \<comment> \<open>labelled, one complete receiver with a target, and a route that leads to it\<close>
  "proper_config c = (sget (om_labels (ac_meta c)) amcfg_key = amcfg_value \<and>
     (\<exists>r. ac_receivers c = [r] \<and> valid_receiver r \<and> \<not> (rc_emails r = [] \<and> rc_webhooks r = []) \<and>
        ac_route c = Some (am_route r)))"

fun improper_config :: "event \<Rightarrow> bool" where
  \<comment> \<open>a write of a configuration that would not work\<close>
  "improper_config (CreateQ (OAlertmanagerConfig c), _) = (\<not> proper_config c)"
| "improper_config (PatchQ _ (OAlertmanagerConfig c), _) = (\<not> proper_config c)"
| "improper_config _ = False"

fun config_write :: "event \<Rightarrow> bool" where
  "config_write (q, _) = (write_kind q = Some KAlertmanagerConfig)"

fun now_selecting :: "event \<Rightarrow> bool" where
  \<comment> \<open>the API server took an Alertmanager that selects the operator's label and adds no matcher of its own\<close>
  "now_selecting (PatchQ _ (OAlertmanager am), a) = (\<not> failed a \<and> am_strategy am = ''None'' \<and>
     (\<exists>s. am_cfg_selector am = Some (marked_selector s)))"
| "now_selecting _ = False"

lemma returns_with_inbox:
  "valid_receiver r \<Longrightarrow> returns valid_receiver (with_inbox apisvc r)"
  unfolding with_inbox_def
  by (auto simp: valid_receiver_def complete_webhook_def inbox_webhook_def split: option.split
      intro!: returns_ret returns_panic)

lemma never_improper_setup: "never improper_config (setup_alertmanager R am apisvc)"
proof (cases "validate_config (ar_receivers R) (ar_route R)")
  case None
  then obtain r where r: "ar_receivers R = [r]" "receiver_errors r = []"
    by (auto simp: validate_config_def length_Suc_conv split: if_splits list.splits)
  have w: "never improper_config (if rc_emails r1 = [] \<and> rc_webhooks r1 = [] then delete_config k
      else seq (create_or_patch v_amcfg c (\<lambda>c _. generated_config r1 c)) (ret ()))"
    if "valid_receiver r1" for r1 k c
    using that
    by (auto simp: v_amcfg_def delete_config_def generated_config_def proper_config_def set_rversion_def
        intro!: trace_intros)
  have i: "never improper_config (with_inbox apisvc r1)" for r1
    unfolding with_inbox_def by (auto split: option.split intro: trace_intros)
  show ?thesis
    unfolding setup_alertmanager_def None option.case
    by (rule never_bnd_returns [OF returns_with_inbox i w]) (use r receiver_errors_Nil in simp_all)
qed (simp add: setup_alertmanager_def trace_intros)

lemma emits_now_selecting: "emits now_selecting (kpatch v_am am (selecting_am am))"
  unfolding kpatch_def by (rule emits_answer) (auto simp: v_am_def selecting_am_def)


lemma collect_sput:
  "collect f ls' = Inr rs \<Longrightarrow> ls' = sput k v ls \<Longrightarrow> \<exists>r \<in> set rs. f (k, v) = Inr r"
proof (induction ls arbitrary: ls' rs)
  case Nil
  then show ?case by (auto simp: sput_def split: sum.splits)
next
  case (Cons x ls)
  then show ?case by (cases x) (auto simp: sput_def split: sum.splits if_splits)
qed

text \<open>
  An Alertmanager that the controller has patched selects only configurations with the
  operator's label, whatever else its selector asks for; and one that had no selector selects every
  configuration with that label.
\<close>

theorem am_selector_exact:
  assumes "selector_of C (Some (marked_selector sel)) = Inr S"
  shows "(sel_matches S ls \<longrightarrow> map_of ls amcfg_key = Some amcfg_value) \<and>
     (sel = None \<longrightarrow> map_of ls amcfg_key = Some amcfg_value \<longrightarrow> sel_matches S ls)"
proof -
  have req: "req_matches r ls \<longleftrightarrow> map_of ls amcfg_key = Some amcfg_value"
    if "new_requirement C amcfg_key OpIn [amcfg_value] = Inr r" for r
    using that by (auto simp: new_requirement_def req_matches_def shas_def sget_def split: if_splits option.splits)
  obtain rs1 rs2 where S: "S = SelAll (rs1 @ rs2)"
    and rs1: "collect (\<lambda>(k, v). new_requirement C k OpIn [v]) (match_labels (marked_selector sel)) = Inr rs1"
    and rs2: "collect (expr_requirement C) (match_exprs (marked_selector sel)) = Inr rs2"
    using assms by (auto simp: selector_of_def split: sum.splits)
  have "match_labels (marked_selector sel) = sput amcfg_key amcfg_value (case sel of None \<Rightarrow> [] | Some s \<Rightarrow> match_labels s)"
    by (simp add: marked_selector_def sput_def split: option.split)
  from collect_sput [OF rs1 this] obtain r
    where r: "r \<in> set rs1" "new_requirement C amcfg_key OpIn [amcfg_value] = Inr r"
    by auto
  show ?thesis
  proof (intro conjI impI)
    show "map_of ls amcfg_key = Some amcfg_value" if "sel_matches S ls"
      using that r req S by (auto simp: list_all_iff)
    show "sel_matches S ls" if "sel = None" "map_of ls amcfg_key = Some amcfg_value"
      using that rs1 rs2 S req by (auto simp: marked_selector_def split: sum.splits)
  qed
qed

lemma am_selector_exact_witness:
  "\<not> sel_matches (SelAll [\<lparr>rq_key = amcfg_key, rq_op = OpIn, rq_values = [amcfg_value]\<rparr>]) [(''team'', ''a'')]"
proof -
  have "selector_of plain_codec (Some (marked_selector None)) =
      Inr (SelAll [\<lparr>rq_key = amcfg_key, rq_op = OpIn, rq_values = [amcfg_value]\<rparr>])"
    by (simp add: selector_of_def marked_selector_def new_requirement_def plain_codec_def)
  from am_selector_exact [OF this, of "[(''team'', ''a'')]"] show ?thesis
    by (simp add: amcfg_key_def)
qed

end
