(* ===== verification/Wiring.thy ===== *)
theory Wiring imports Namespace_Ctl Perses_Dashboard_Ctl Grafana_Datasource_Ctl Alertmanager_Ctl begin

section \<open>Controllers and the events that wake them\<close>

text \<open>
  Each \<open>SetupWithManager\<close> of the repository builds a controller: a name, the kind it is for, further
  kinds it watches, and the handler that runs for each key in its queue.  Here a controller is a
  value, and \<open>deliver\<close> says which keys an object that was created, changed or deleted puts into its
  queue.  The builder of the controller runtime is translated as far as the repository uses it.
\<close>

subsection \<open>The builder\<close>

fun kind_name :: "kind \<Rightarrow> string" where
  "kind_name KService = ''Service''"
| "kind_name KEndpoints = ''Endpoints''"
| "kind_name KSecret = ''Secret''"
| "kind_name KServiceAccount = ''ServiceAccount''"
| "kind_name KClusterRole = ''ClusterRole''"
| "kind_name KRoleBinding = ''RoleBinding''"
| "kind_name KNamespace = ''Namespace''"
| "kind_name KConfigMap = ''ConfigMap''"
| "kind_name KAppBinding = ''AppBinding''"
| "kind_name KChartPreset = ''ChartPreset''"
| "kind_name KClusterChartPreset = ''ClusterChartPreset''"
| "kind_name KPrometheus = ''Prometheus''"
| "kind_name KServiceMonitor = ''ServiceMonitor''"
| "kind_name KAlertmanager = ''Alertmanager''"
| "kind_name KAlertmanagerConfig = ''AlertmanagerConfig''"
| "kind_name KAPIService = ''APIService''"
| "kind_name KGrafanaDashboard = ''GrafanaDashboard''"
| "kind_name KGrafanaDatasource = ''GrafanaDatasource''"
| "kind_name KPersesDashboard = ''PersesDashboard''"

definition lower_char :: "char \<Rightarrow> char" where
  "lower_char c = (if 65 \<le> (of_char c :: nat) \<and> (of_char c :: nat) \<le> 90
     then char_of ((of_char c :: nat) + 32) else c)"

definition to_lower :: "string \<Rightarrow> string" where
  \<comment> \<open>\<open>strings.ToLower\<close> on ASCII\<close>
  "to_lower s = map lower_char s"

record 's watch =
  wa_kind :: kind
  wa_filter :: "object \<Rightarrow> ('s, bool) M"
  wa_keys :: "object \<Rightarrow> ('s, key list) M"

record 's controller =
  ct_named :: string                  \<comment> \<open>the argument of \<open>Named\<close>\<close>
  ct_for :: "'s watch"
  ct_watches :: "'s watch list"
  ct_workers :: nat                   \<comment> \<open>\<open>MaxConcurrentReconciles\<close>\<close>
  ct_reconcile :: "key \<Rightarrow> ('s, requeue) M"

definition controller_name :: "'s controller \<Rightarrow> string" where
  \<comment> \<open>\<open>getControllerName\<close>\<close>
  "controller_name c = (if ct_named c \<noteq> '''' then ct_named c
     else to_lower (kind_name (wa_kind (ct_for c))))"

definition typed :: "'a view \<Rightarrow> ('a \<Rightarrow> ('s, 'b) M) \<Rightarrow> object \<Rightarrow> ('s, 'b) M" where
  \<comment> \<open>the type assertion a filter or a map function starts with\<close>
  "typed v f ob = (case unwrap v ob of None \<Rightarrow> panic ''interface conversion'' | Some x \<Rightarrow> f x)"

definition on_meta :: "(objmeta \<Rightarrow> bool) \<Rightarrow> object \<Rightarrow> ('s, bool) M" where
  "on_meta p ob = ret (p (obj_meta ob))"

definition every_event :: "object \<Rightarrow> ('s, bool) M" where
  "every_event ob = ret True"

definition own_key :: "object \<Rightarrow> ('s, key list) M" where
  \<comment> \<open>\<open>EnqueueRequestForObject\<close>, the handler of \<open>For\<close>\<close>
  "own_key ob = ret [obj_key ob]"

definition managed :: "kind \<Rightarrow> (object \<Rightarrow> ('s, bool) M) \<Rightarrow> (key \<Rightarrow> ('s, requeue) M) \<Rightarrow> 's controller" where
  \<comment> \<open>\<open>NewControllerManagedBy(mgr).For(...)\<close>\<close>
  "managed K p h = \<lparr>ct_named = '''', ct_for = \<lparr>wa_kind = K, wa_filter = p, wa_keys = own_key\<rparr>, ct_watches = [],
     ct_workers = 1, ct_reconcile = h\<rparr>"

definition watching :: "kind \<Rightarrow> (object \<Rightarrow> ('s, bool) M) \<Rightarrow> (object \<Rightarrow> ('s, key list) M) \<Rightarrow> 's controller \<Rightarrow> 's controller" where
  "watching K p h c = c\<lparr>ct_watches := ct_watches c @ [\<lparr>wa_kind = K, wa_filter = p, wa_keys = h\<rparr>]\<rparr>"

definition named :: "string \<Rightarrow> 's controller \<Rightarrow> 's controller" where
  "named n c = c\<lparr>ct_named := n\<rparr>"

definition no_result :: "('s, unit) M \<Rightarrow> ('s, requeue) M" where
  \<comment> \<open>a handler that always returns the empty \<open>ctrl.Result\<close>\<close>
  "no_result m = seq m (ret 0)"

subsection \<open>Delivery\<close>

fun woken :: "'s watch list \<Rightarrow> object \<Rightarrow> ('s, key list) M" where
  "woken [] ob = ret []"
| "woken (w # ws) ob =
     bnd (if wa_kind w = kind_of ob
          then bnd (wa_filter w ob) (\<lambda>ok. if ok then wa_keys w ob else ret []) else ret []) (\<lambda>ks.
     bnd (woken ws ob) (\<lambda>rest. ret (ks @ rest)))"

definition deliver :: "'s controller \<Rightarrow> object \<Rightarrow> ('s, key list) M" where
  "deliver c ob = woken (ct_for c # ct_watches c) ob"

definition watched_kinds :: "'s controller \<Rightarrow> kind list" where
  "watched_kinds c = map wa_kind (ct_for c # ct_watches c)"

definition setup_with_manager :: "'s controller \<Rightarrow> ('t, unit) M" where
  \<comment> \<open>\<open>Complete\<close>: registers the name and starts the watches\<close>
  "setup_with_manager c =
     answer (SetupQ (controller_name c) (watched_kinds c)) the_done"

subsection \<open>The controllers\<close>

definition dashboard_controller :: "requeue \<Rightarrow> 's controller" where
  "dashboard_controller after =
     watching KAppBinding every_event (typed v_ab dashboards_for_binding)
       (managed KGrafanaDashboard (typed v_gd dashboard_predicate) (dashboard_reconcile after))"

definition perses_controller :: "requeue \<Rightarrow> 's controller" where
  "perses_controller after =
     watching KAppBinding every_event (typed v_ab perses_for_binding)
       (managed KPersesDashboard (typed v_pd perses_predicate) (perses_reconcile after))"

definition datasource_controller :: "'s controller" where
  "datasource_controller = managed KGrafanaDatasource every_event (\<lambda>k. no_result (datasource_reconcile k))"

definition alertmanager_controller :: "am_reconciler \<Rightarrow> 's controller" where
  "alertmanager_controller R =
     watching KAPIService (typed v_apisvc (\<lambda>s. ret (inbox_predicate s))) (\<lambda>_. all_alertmanagers)
       (managed KAlertmanager every_event (\<lambda>k. no_result (am_reconcile R k)))"

definition prometheus_controller :: "prom_reconciler \<Rightarrow> 's controller" where
  "prometheus_controller R =
     (let c = watching KConfigMap (on_meta prom_config_map_predicate) (\<lambda>_. all_prometheuses)
                (managed KPrometheus every_event (\<lambda>k. no_result (prom_reconcile R k))) in
      if rp_rancher_secret R \<noteq> ''''
      then watching KSecret (on_meta (prom_secret_predicate R)) (\<lambda>_. all_prometheuses) c else c)"

definition org_controller :: "org_reconciler \<Rightarrow> 's controller" where
  "org_controller R =
     (named ''namespace''
       (watching KServiceAccount (on_meta trickster_predicate) (\<lambda>_. orgs_for_token)
         (managed KNamespace (on_meta org_predicate) (org_reconcile R))))\<lparr>ct_workers := 2\<rparr>"

definition token_controller :: "string \<Rightarrow> string \<Rightarrow> 's controller" where
  "token_controller self n =
     managed KSecret (on_meta (token_predicate self n)) (\<lambda>k. bnd (token_reconcile k) (\<lambda>d. ret (sint d)))"

definition auto_controller :: "'s controller" where
  "auto_controller =
     watching KPrometheus every_event (\<lambda>_. service_monitors_for_prometheus [(prometheus_key, ''auto'')])
       (named ''servicemonitor-auto''
         (managed KServiceMonitor (typed v_sm (\<lambda>m. ret (auto_predicate m))) (\<lambda>k. no_result (auto_reconcile k))))"

definition federation_controller :: "'s controller" where
  "federation_controller =
     watching KPrometheus every_event (\<lambda>_. service_monitors_for_prometheus [(prometheus_key, ''federated'')])
       (watching KService every_event (\<lambda>ob. service_monitors_for_service (obj_meta ob))
         (named ''servicemonitor-federation''
           (managed KServiceMonitor (typed v_sm (\<lambda>m. ret (federated_predicate m)))
             (\<lambda>k. no_result (federation_reconcile k)))))"

lemmas controller_defs = dashboard_controller_def perses_controller_def datasource_controller_def
  alertmanager_controller_def prometheus_controller_def org_controller_def token_controller_def
  auto_controller_def federation_controller_def managed_def watching_def named_def

lemma controller_names [simp]:
  "controller_name (dashboard_controller after :: 's controller) = ''grafanadashboard''"
  "controller_name (perses_controller after :: 's controller) = ''persesdashboard''"
  "controller_name (datasource_controller :: 's controller) = ''grafanadatasource''"
  "controller_name (alertmanager_controller A :: 's controller) = ''alertmanager''"
  "controller_name (prometheus_controller P :: 's controller) = ''prometheus''"
  "controller_name (org_controller R :: 's controller) = ''namespace''"
  "controller_name (token_controller self n :: 's controller) = ''secret''"
  "controller_name (auto_controller :: 's controller) = ''servicemonitor-auto''"
  "controller_name (federation_controller :: 's controller) = ''servicemonitor-federation''"
  by (simp_all add: controller_defs controller_name_def to_lower_def lower_char_def Let_def char_of_def
      of_char_def bit_Suc_0_iff)

lemma controller_kinds [simp]:
  "watched_kinds (dashboard_controller after :: 's controller) = [KGrafanaDashboard, KAppBinding]"
  "watched_kinds (perses_controller after :: 's controller) = [KPersesDashboard, KAppBinding]"
  "watched_kinds (datasource_controller :: 's controller) = [KGrafanaDatasource]"
  "watched_kinds (alertmanager_controller A :: 's controller) = [KAlertmanager, KAPIService]"
  "watched_kinds (prometheus_controller P :: 's controller) =
     [KPrometheus, KConfigMap] @ (if rp_rancher_secret P \<noteq> '''' then [KSecret] else [])"
  "watched_kinds (org_controller R :: 's controller) = [KNamespace, KServiceAccount]"
  "watched_kinds (token_controller self n :: 's controller) = [KSecret]"
  "watched_kinds (auto_controller :: 's controller) = [KServiceMonitor, KPrometheus]"
  "watched_kinds (federation_controller :: 's controller) = [KServiceMonitor, KService, KPrometheus]"
  by (simp_all add: watched_kinds_def controller_defs Let_def)

end
