(* ===== verification/Settled_Writes.thy ===== *)
theory Settled_Writes imports Wiring begin

section \<open>Writes settle\<close>

text \<open>
  Controllers watch what they write, so a write that changes the object again on every run never ends.
  The locale \<open>settling\<close> states what keeps \<open>CreateOrPatch\<close> from it: the transform keeps the object's name,
  and leaves an object alone that the server stored as its result.  It is interpreted for the
  transforms of the controllers; on a well-behaved API server a second run then sends an empty patch.
\<close>

locale settling =
  fixes v :: "'a view" and f :: "'a \<Rightarrow> bool \<Rightarrow> 'a"
  assumes view: "typed_view v"
    and keeps_key: "obj_key (wrap v (f y c)) = obj_key (wrap v y)"
    and settled: "desired (wrap v z) = desired (wrap v (f y c)) \<Longrightarrow> f z False = z"
begin

lemma second_write:
  assumes srv: "api_server X stored" and E: "exec E = X"
    and run: "create_or_patch v x f E w = (Ok (vb, z), es, w')"
  shows "\<exists>r a w''. create_or_patch v x f E w' =
     (r, [(Get (vkind v) (obj_key (wrap v x)), RObj (wrap v z)), (PatchQ (wrap v z) (wrap v z), a)], w'')"
proof -
  let ?old = "stored (w_ext w) (vkind v) (obj_key (wrap v x))"
  have st: "stored (w_ext w') (vkind v) (obj_key (wrap v x)) = Some (wrap v z)"
    and d: "desired (wrap v z) = desired (wrap v (case ?old of None \<Rightarrow> f x True | Some ob \<Rightarrow> f (the (unwrap v ob)) False))"
    using api_server.create_or_patch_stores [OF srv E view, of x f w] run keeps_key by auto
  have "f z False = z" using d by (cases ?old) (auto intro: settled)
  then show ?thesis
    using api_server.kget_found [OF srv E view st]
    by (auto simp: create_or_patch_def bnd_def attempt_def kpatch_def answer_def send_def ret_def fail_def pures_def
        split: prod.split response.split option.split)
qed

end

subsection \<open>Maps\<close>

lemma sput_same: "map_of m k = Some x \<Longrightarrow> sput k x m = m"
  unfolding sput_def by (induction m) auto

lemma sputs_same: "(\<And>k x. (k, x) \<in> set ins \<Longrightarrow> map_of m k = Some x) \<Longrightarrow> sputs m ins = m"
  by (induction m ins rule: sputs.induct) (simp_all add: sput_same)

lemma overwrite_twice [simp]:
  "distinct (map fst ins) \<Longrightarrow> overwrite_keys (overwrite_keys m ins) ins = overwrite_keys m ins"
  unfolding overwrite_keys_def by (rule sputs_same) (simp add: map_of_sputs map_add_def)

lemma sdel_sput: "sdel k (sput k' x m) = (if k = k' then sdel k m else sput k' x (sdel k m))"
  unfolding sdel_def sput_def by (induction m) auto

lemma sdel_sputs: "sdel k (sputs m ins) = sputs (sdel k m) (filter (\<lambda>p. fst p \<noteq> k) ins)"
  by (induction m ins rule: sputs.induct) (auto simp: sdel_sput)

lemma sdel_twice [simp]: "sdel k (sdel k m) = sdel k m"
  unfolding sdel_def by (induction m) auto

lemma distinct_labels_for [simp]: "distinct (map fst (fst (labels_for_selector sel)))"
proof -
  have l: "distinct (map fst (label_of_expr ls x))" if "distinct (map fst ls)" for ls x
    using that by (auto simp: sput_def sdel_def distinct_update distinct_delete split: sel_op.split list.split)
  have "distinct (map fst (foldl label_of_expr ls xs))" if "distinct (map fst ls)" for ls xs
    using that by (induction xs arbitrary: ls) (simp_all add: l del: label_of_expr.simps)
  then show ?thesis
    by (auto simp: labels_for_selector_def distinct_map_of_sputs split: option.split)
qed

lemma unmarked_twice:
  assumes "distinct (map fst ins)"
  shows "sdel k (overwrite_keys (sdel k (overwrite_keys m ins)) ins) = sdel k (overwrite_keys m ins)"
proof -
  have "distinct (map fst (filter (\<lambda>p. fst p \<noteq> k) ins))" using assms by (simp add: distinct_map_filter)
  then show ?thesis
    using overwrite_twice [of "filter (\<lambda>p. fst p \<noteq> k) ins" "sdel k m"] by (simp add: overwrite_keys_def sdel_sputs)
qed

subsection \<open>The transforms\<close>

text \<open>What the server stores differs from what it was given only in the metadata it manages.\<close>

definition same_meta :: "objmeta \<Rightarrow> objmeta \<Rightarrow> bool" where
  "same_meta m n = (m = n\<lparr>om_uid := om_uid m, om_generation := om_generation m, om_rversion := om_rversion m\<rparr>)"

lemma same_metaI:
  "m\<lparr>om_uid := [], om_generation := 0, om_rversion := []\<rparr> = n\<lparr>om_uid := [], om_generation := 0, om_rversion := []\<rparr> \<Longrightarrow> same_meta m n"
  by (cases m; cases n) (simp add: same_meta_def)

lemma desired_wrap:
  "desired (wrap v_sm m) = desired (wrap v_sm m1) \<Longrightarrow> \<exists>n. m = m1\<lparr>sm_meta := n\<rparr> \<and> same_meta n (sm_meta m1)"
  "desired (wrap v_service s) = desired (wrap v_service s1) \<Longrightarrow> \<exists>n. s = s1\<lparr>sv_meta := n\<rparr> \<and> same_meta n (sv_meta s1)"
  "desired (wrap v_amcfg c) = desired (wrap v_amcfg c1) \<Longrightarrow> \<exists>n. c = c1\<lparr>ac_meta := n\<rparr> \<and> same_meta n (ac_meta c1)"
  "desired (wrap v_rb b) = desired (wrap v_rb b1) \<Longrightarrow> \<exists>n. b = b1\<lparr>rb_meta := n\<rparr> \<and> same_meta n (rb_meta b1)"
  "desired (wrap v_gd d) = desired (wrap v_gd d1) \<Longrightarrow> \<exists>n. d = d1\<lparr>gd_meta := n\<rparr> \<and> same_meta n (gd_meta d1)"
  "desired (wrap v_pd p) = desired (wrap v_pd p1) \<Longrightarrow> \<exists>n. p = p1\<lparr>pd_meta := n\<rparr> \<and> same_meta n (pd_meta p1)"
  "desired (wrap v_ab a) = desired (wrap v_ab a1) \<Longrightarrow> \<exists>n. a = a1\<lparr>ab_meta := n\<rparr> \<and> same_meta n (ab_meta a1)"
  "desired (wrap v_prom q) = desired (wrap v_prom q1) \<Longrightarrow> \<exists>n. q = q1\<lparr>pm_meta := n\<rparr> \<and> same_meta n (pm_meta q1)"
proof -
  show "desired (wrap v_sm m) = desired (wrap v_sm m1) \<Longrightarrow> \<exists>n. m = m1\<lparr>sm_meta := n\<rparr> \<and> same_meta n (sm_meta m1)"
    by (cases m; cases m1) (auto simp: desired_def v_sm_def intro: same_metaI)
  show "desired (wrap v_service s) = desired (wrap v_service s1) \<Longrightarrow> \<exists>n. s = s1\<lparr>sv_meta := n\<rparr> \<and> same_meta n (sv_meta s1)"
    by (cases s; cases s1) (auto simp: desired_def v_service_def intro: same_metaI)
  show "desired (wrap v_amcfg c) = desired (wrap v_amcfg c1) \<Longrightarrow> \<exists>n. c = c1\<lparr>ac_meta := n\<rparr> \<and> same_meta n (ac_meta c1)"
    by (cases c; cases c1) (auto simp: desired_def v_amcfg_def intro: same_metaI)
  show "desired (wrap v_rb b) = desired (wrap v_rb b1) \<Longrightarrow> \<exists>n. b = b1\<lparr>rb_meta := n\<rparr> \<and> same_meta n (rb_meta b1)"
    by (cases b; cases b1) (auto simp: desired_def v_rb_def intro: same_metaI)
  show "desired (wrap v_gd d) = desired (wrap v_gd d1) \<Longrightarrow> \<exists>n. d = d1\<lparr>gd_meta := n\<rparr> \<and> same_meta n (gd_meta d1)"
    by (cases d; cases d1) (auto simp: desired_def v_gd_def intro: same_metaI)
  show "desired (wrap v_pd p) = desired (wrap v_pd p1) \<Longrightarrow> \<exists>n. p = p1\<lparr>pd_meta := n\<rparr> \<and> same_meta n (pd_meta p1)"
    by (cases p; cases p1) (auto simp: desired_def v_pd_def intro: same_metaI)
  show "desired (wrap v_ab a) = desired (wrap v_ab a1) \<Longrightarrow> \<exists>n. a = a1\<lparr>ab_meta := n\<rparr> \<and> same_meta n (ab_meta a1)"
    by (cases a; cases a1) (auto simp: desired_def v_ab_def intro: same_metaI)
  show "desired (wrap v_prom q) = desired (wrap v_prom q1) \<Longrightarrow> \<exists>n. q = q1\<lparr>pm_meta := n\<rparr> \<and> same_meta n (pm_meta q1)"
    by (cases q; cases q1) (auto simp: desired_def v_prom_def intro: same_metaI)
qed

lemma same_metaD:
  assumes "same_meta n m"
  shows "om_labels n = om_labels m \<and> om_annotations n = om_annotations m \<and> om_finalizers n = om_finalizers m \<and>
    om_owners n = om_owners m"
  using assms by (cases n; cases m; simp add: same_meta_def)

lemma meta_unchanged [simp]:
  "om_labels n = l \<Longrightarrow> n\<lparr>om_labels := l\<rparr> = n" "om_annotations n = a \<Longrightarrow> n\<lparr>om_annotations := a\<rparr> = n"
  "om_finalizers n = z \<Longrightarrow> n\<lparr>om_finalizers := z\<rparr> = n" "om_owners n = ow \<Longrightarrow> n\<lparr>om_owners := ow\<rparr> = n"
  by auto

interpretation prom_labels: settling v_sm "\<lambda>m _. with_prom_labels p m" for p
proof
  fix z y c assume "desired (wrap v_sm z) = desired (wrap v_sm (with_prom_labels p y))"
  then show "with_prom_labels p z = z"
    by (auto dest!: desired_wrap same_metaD simp: with_prom_labels_def)
qed (auto simp: with_prom_labels_def v_sm_def obj_key_def meta_key_def intro: view_sm.typed_view_axioms)

interpretation monitor_copy: settling v_sm "\<lambda>m _. copied_monitor p src nss m" for p src nss
proof
  fix z y c assume "desired (wrap v_sm z) = desired (wrap v_sm (copied_monitor p src nss y))"
  then show "copied_monitor p src nss z = z"
    by (auto dest!: desired_wrap same_metaD simp: copied_monitor_def unmarked_twice)
qed (auto simp: copied_monitor_def unmarked_twice v_sm_def obj_key_def meta_key_def intro: view_sm.typed_view_axioms)

interpretation am_config: settling v_amcfg "\<lambda>x _. generated_config r x" for r
proof
  fix z y c assume "desired (wrap v_amcfg z) = desired (wrap v_amcfg (generated_config r y))"
  then show "generated_config r z = z"
    by (auto dest!: desired_wrap same_metaD simp: generated_config_def sput_same)
qed (auto simp: generated_config_def sput_same v_amcfg_def obj_key_def meta_key_def intro: view_amcfg.typed_view_axioms)

interpretation org_role: settling v_rb "\<lambda>x _. org_role_binding org x" for org
proof
  fix z y c assume "desired (wrap v_rb z) = desired (wrap v_rb (org_role_binding org y))"
  then show "org_role_binding org z = z"
    by (auto dest!: desired_wrap same_metaD simp: org_role_binding_def)
qed (auto simp: org_role_binding_def v_rb_def obj_key_def meta_key_def intro: view_rb.typed_view_axioms)

interpretation rb_markers: settling v_rb "\<lambda>x _. apply_markers st tok x" for st tok
proof
  fix z y c assume "desired (wrap v_rb z) = desired (wrap v_rb (apply_markers st tok y))"
  then show "apply_markers st tok z = z"
    by (auto dest!: desired_wrap same_metaD simp: apply_markers_def Let_def sput_same sdel_sput registered_key_def token_id_key_def split: option.splits)
qed (auto simp: apply_markers_def Let_def sput_same v_rb_def obj_key_def meta_key_def intro: view_rb.typed_view_axioms)

interpretation org_app: settling v_ab "\<lambda>x _. org_binding ty n u ca ps x" for ty n u ca ps
proof
  fix z y c assume "desired (wrap v_ab z) = desired (wrap v_ab (org_binding ty n u ca ps y))"
  then show "org_binding ty n u ca ps z = z"
    by (auto dest!: desired_wrap same_metaD simp: org_binding_def)
qed (auto simp: org_binding_def v_ab_def obj_key_def meta_key_def intro: view_ab.typed_view_axioms)

interpretation grafana_copy: settling v_gd "copied_grafana C mon src bytes" for C mon src bytes
proof
  fix z y c assume "desired (wrap v_gd z) = desired (wrap v_gd (copied_grafana C mon src bytes y c))"
  then show "copied_grafana C mon src bytes z False = z"
    by (auto dest!: desired_wrap same_metaD simp: copied_grafana_def copy_meta_def Let_def sput_same src_hash_key_def src_ref_key_def split: if_splits)
qed (auto simp: copied_grafana_def copy_meta_def Let_def sput_same v_gd_def obj_key_def meta_key_def intro: view_gd.typed_view_axioms)

interpretation perses_copy: settling v_pd "copied_perses C mon src bytes" for C mon src bytes
proof
  fix z y c assume "desired (wrap v_pd z) = desired (wrap v_pd (copied_perses C mon src bytes y c))"
  then show "copied_perses C mon src bytes z False = z"
    by (auto dest!: desired_wrap same_metaD simp: copied_perses_def copy_meta_def Let_def sput_same src_hash_key_def src_ref_key_def split: if_splits)
qed (auto simp: copied_perses_def copy_meta_def Let_def sput_same v_pd_def obj_key_def meta_key_def intro: view_pd.typed_view_axioms)

interpretation prom_keep: settling v_prom "\<lambda>x _. keep_finalizer x"
proof
  fix z y c assume "desired (wrap v_prom z) = desired (wrap v_prom (keep_finalizer y))"
  then show "keep_finalizer z = z"
    by (auto dest!: desired_wrap same_metaD simp: keep_finalizer_def add_finalizer_def)
qed (auto simp: keep_finalizer_def add_finalizer_def v_prom_def obj_key_def meta_key_def intro: view_prom.typed_view_axioms)

interpretation prom_drop: settling v_prom "\<lambda>x _. drop_finalizer x"
proof
  fix z y c assume "desired (wrap v_prom z) = desired (wrap v_prom (drop_finalizer y))"
  then show "drop_finalizer z = z"
    by (auto dest!: desired_wrap same_metaD simp: drop_finalizer_def remove_finalizer_def)
qed (auto simp: drop_finalizer_def remove_finalizer_def v_prom_def obj_key_def meta_key_def intro: view_prom.typed_view_axioms)

interpretation dashboard_keep: settling v_gd "\<lambda>x _. finalized_dashboard x"
proof
  fix z y c assume "desired (wrap v_gd z) = desired (wrap v_gd (finalized_dashboard y))"
  then show "finalized_dashboard z = z"
    by (auto dest!: desired_wrap same_metaD simp: finalized_dashboard_def add_finalizer_def)
qed (auto simp: finalized_dashboard_def add_finalizer_def v_gd_def obj_key_def meta_key_def intro: view_gd.typed_view_axioms)

interpretation perses_keep: settling v_pd "\<lambda>x _. finalized_perses x"
proof
  fix z y c assume "desired (wrap v_pd z) = desired (wrap v_pd (finalized_perses y))"
  then show "finalized_perses z = z"
    by (auto dest!: desired_wrap same_metaD simp: finalized_perses_def add_finalizer_def)
qed (auto simp: finalized_perses_def add_finalizer_def v_pd_def obj_key_def meta_key_def intro: view_pd.typed_view_axioms)

subsection \<open>Properties\<close>

definition writes_once :: "'a view \<Rightarrow> ('a \<Rightarrow> bool \<Rightarrow> 'a) \<Rightarrow> bool" where
  \<comment> \<open>on every well-behaved API server, after a successful \<open>CreateOrPatch\<close> the next one reads the object
     and sends a patch that changes nothing\<close>
  "writes_once v f = (\<forall>X stored (E :: mem_store env) x w vb z es w'.
     api_server X stored \<longrightarrow> exec E = X \<longrightarrow> create_or_patch v x f E w = (Ok (vb, z), es, w') \<longrightarrow>
     map fst (fst (snd (create_or_patch v x f E w'))) =
       [Get (vkind v) (obj_key (wrap v x)), PatchQ (wrap v z) (wrap v z)])"

lemma writes_onceI: "settling v f \<Longrightarrow> writes_once v f"
  unfolding writes_once_def by (auto dest!: settling.second_write)


end
