(* ===== verification/Shared_Objects.thy ===== *)
theory Shared_Objects imports Client begin

section \<open>Objects of the API server under interleaved runs\<close>

text \<open>
  Many parties work on the objects of the API server at once: the runs of a controller for different
  keys, the other controllers, users, and the server itself, which removes an object that is being
  deleted when its last finalizer goes.  This theory has the server's objects of one kind, the steps
  that an answered request can be, and the states that interleavings of runs and foreign steps reach.
  Patches are merge patches: they change what differs between the object they are computed from and
  the new one, whatever the server holds by then.  A request whose answer is an error may have taken
  effect.  Runs for one key do not overlap (the queue of the controller runtime), and a run can stop
  anywhere (the process dies).

  The locale \<open>finalized_resource\<close> is the contract between a controller that keeps an object in another
  service for each API object, the parties around it, and its finalizer: as long as an API object
  records such an object and is not being deleted, it holds the finalizer.
\<close>

text \<open>Keys stay whole in this theory.\<close>

declare split_paired_All [simp del] split_paired_Ex [simp del]

subsection \<open>Resources\<close>

record 'm resource =
  re_kind :: kind
  re_finalizer :: string
  re_mark :: "object \<Rightarrow> 'm option"   \<comment> \<open>what the status records of the object in the other service\<close>

abbreviation finalizers :: "object \<Rightarrow> string list" where
  "finalizers ob \<equiv> om_finalizers (obj_meta ob)"

abbreviation deleting :: "object \<Rightarrow> bool" where
  "deleting ob \<equiv> om_deleting (obj_meta ob)"

definition held :: "'m resource \<Rightarrow> object \<Rightarrow> bool" where
  "held R ob = (re_finalizer R \<in> set (finalizers ob))"

definition grants :: "'m resource \<Rightarrow> object \<Rightarrow> object \<Rightarrow> bool" where
  \<comment> \<open>the patch from b to n carries a mark\<close>
  "grants R b n = (re_mark R n \<noteq> None \<and> re_mark R n \<noteq> re_mark R b)"

fun records :: "'m resource \<Rightarrow> key \<Rightarrow> event \<Rightarrow> bool" where
  "records R k (StatusPatchQ b n, _) = (kind_of n = re_kind R \<and> obj_key n = k \<and> grants R b n)"
| "records R k _ = False"

fun strips :: "'m resource \<Rightarrow> key \<Rightarrow> event \<Rightarrow> bool" where
  \<comment> \<open>a patch that changes the finalizers and does not keep this one: a merge patch replaces the list\<close>
  "strips R k (PatchQ b n, _) =
     (kind_of n = re_kind R \<and> obj_key n = k \<and> finalizers n \<noteq> finalizers b \<and> \<not> held R n)"
| "strips R k _ = False"

fun secures :: "'m resource \<Rightarrow> key \<Rightarrow> event \<Rightarrow> bool" where
  \<comment> \<open>afterwards the server's object holds the finalizer\<close>
  "secures R k (Get K k', RObj ob) = (K = re_kind R \<and> k' = k \<and> held R ob)"
| "secures R k (CreateQ n, RObj ob) = (kind_of n = re_kind R \<and> obj_key n = k \<and> held R n)"
| "secures R k (PatchQ b n, RObj ob) =
     (kind_of n = re_kind R \<and> obj_key n = k \<and> finalizers n \<noteq> finalizers b \<and> held R n)"
| "secures R k _ = False"

fun reads_deleting :: "'m resource \<Rightarrow> key \<Rightarrow> event \<Rightarrow> bool" where
  "reads_deleting R k (Get K k', RObj ob) = (K = re_kind R \<and> k' = k \<and> deleting ob)"
| "reads_deleting R k _ = False"

fun misfiled :: "'m resource \<Rightarrow> event \<Rightarrow> bool" where
  \<comment> \<open>an answer with an object of another name than the one asked for\<close>
  "misfiled R (Get K k, RObj ob) = (K = re_kind R \<and> obj_key ob \<noteq> k)"
| "misfiled R (CreateQ n, RObj ob) = (kind_of n = re_kind R \<and> obj_key ob \<noteq> obj_key n)"
| "misfiled R (PatchQ b n, RObj ob) = (kind_of n = re_kind R \<and> obj_key ob \<noteq> obj_key n)"
| "misfiled R (StatusPatchQ b n, RObj ob) = (kind_of n = re_kind R \<and> obj_key ob \<noteq> obj_key n)"
| "misfiled R _ = False"

subsection \<open>Steps of the server\<close>

type_synonym objects = "key \<Rightarrow> object option"

definition persist :: "object \<Rightarrow> object option" where
  \<comment> \<open>an object that is being deleted goes with its last finalizer\<close>
  "persist ob = (if deleting ob \<and> finalizers ob = [] then None else Some ob)"

definition same_object :: "object \<Rightarrow> object \<Rightarrow> bool" where
  "same_object c y = (kind_of y = kind_of c \<and> obj_key y = obj_key c)"

definition created :: "'m resource \<Rightarrow> object \<Rightarrow> object \<Rightarrow> bool" where
  \<comment> \<open>the server drops the status of a new object\<close>
  "created R n y = (same_object n y \<and> \<not> deleting y \<and> finalizers y = finalizers n \<and> re_mark R y = None)"

definition patched :: "'m resource \<Rightarrow> object \<Rightarrow> object \<Rightarrow> object \<Rightarrow> object \<Rightarrow> bool" where
  \<comment> \<open>the patch from b to n turns c into y; the status is a subresource\<close>
  "patched R b n c y = (same_object c y \<and> deleting y = deleting c \<and> re_mark R y = re_mark R c \<and>
     finalizers y = (if finalizers n = finalizers b then finalizers c else finalizers n))"

definition status_patched :: "'m resource \<Rightarrow> object \<Rightarrow> object \<Rightarrow> object \<Rightarrow> object \<Rightarrow> bool" where
  "status_patched R b n c y = (same_object c y \<and> deleting y = deleting c \<and> finalizers y = finalizers c \<and>
     (re_mark R y \<noteq> None \<longrightarrow> re_mark R c \<noteq> None \<or> grants R b n))"

definition deleted :: "'m resource \<Rightarrow> object \<Rightarrow> object \<Rightarrow> bool" where
  \<comment> \<open>a deletion marks the object\<close>
  "deleted R c y = (same_object c y \<and> deleting y \<and> finalizers y = finalizers c \<and> re_mark R y = re_mark R c)"

definition confirms :: "response \<Rightarrow> object \<Rightarrow> bool" where
  \<comment> \<open>the answer to a write that took effect can get lost\<close>
  "confirms a y = (a = RObj y \<or> (\<exists>e. a = RErr e))"

definition wiped :: "'m resource \<Rightarrow> object option \<Rightarrow> object option \<Rightarrow> bool" where
  "wiped R b a = (a = b \<or> (\<exists>c y. b = Some c \<and> deleted R c y \<and> a = persist y))"

inductive serves :: "'m resource \<Rightarrow> objects \<Rightarrow> event \<Rightarrow> objects \<Rightarrow> bool" for R where
  read: "s k = Some ob \<Longrightarrow> serves R s (Get (re_kind R) k, RObj ob) s"
| elsewhere: "write_kind q \<noteq> Some (re_kind R) \<Longrightarrow> (\<And>k. q \<noteq> Get (re_kind R) k) \<Longrightarrow> serves R s (q, a) s"
| refused: "serves R s (q, RErr e) s"
| create: "kind_of n = re_kind R \<Longrightarrow> s (obj_key n) = None \<Longrightarrow> created R n y \<Longrightarrow> confirms a y \<Longrightarrow>
    serves R s (CreateQ n, a) (s(obj_key n := Some y))"
| patch: "kind_of n = re_kind R \<Longrightarrow> s (obj_key n) = Some c \<Longrightarrow> patched R b n c y \<Longrightarrow> confirms a y \<Longrightarrow>
    serves R s (PatchQ b n, a) (s(obj_key n := persist y))"
| status: "kind_of n = re_kind R \<Longrightarrow> s (obj_key n) = Some c \<Longrightarrow> status_patched R b n c y \<Longrightarrow> confirms a y \<Longrightarrow>
    serves R s (StatusPatchQ b n, a) (s(obj_key n := Some y))"
| delete: "s k = Some c \<Longrightarrow> deleted R c y \<Longrightarrow> a = RDone \<or> a = RErr e \<Longrightarrow>
    serves R s (DeleteQ (re_kind R) k, a) (s(k := persist y))"
| delete_all: "(\<And>k. if fst k = ns then wiped R (s k) (s' k) else s' k = s k) \<Longrightarrow>
    a = RDone \<or> a = RErr e \<Longrightarrow> serves R s (DeleteAllOfQ (re_kind R) ns, a) s'"

definition filed :: "'m resource \<Rightarrow> objects \<Rightarrow> bool" where
  "filed R s = (\<forall>k ob. s k = Some ob \<longrightarrow> kind_of ob = re_kind R \<and> obj_key ob = k)"

lemma persist_Some:
  "persist y = Some z \<longleftrightarrow> z = y \<and> \<not> (deleting y \<and> finalizers y = [])"
  "Some z = persist y \<longleftrightarrow> z = y \<and> \<not> (deleting y \<and> finalizers y = [])"
  by (auto simp: persist_def)

lemma wiped_all: "(\<And>k. if fst k = ns then wiped R (s k) (s' k) else s' k = s k) \<Longrightarrow> wiped R (s k) (s' k)"
  by (metis wiped_def)

lemmas served_defs = created_def patched_def status_patched_def deleted_def same_object_def

lemma filedI: "(\<And>k ob. s k = Some ob \<Longrightarrow> kind_of ob = re_kind R \<and> obj_key ob = k) \<Longrightarrow> filed R s"
  by (simp add: filed_def)

lemma filedD: "filed R s \<Longrightarrow> s k = Some ob \<Longrightarrow> kind_of ob = re_kind R \<and> obj_key ob = k"
  by (simp add: filed_def)

lemma serves_filed: "serves R s e s' \<Longrightarrow> filed R s \<Longrightarrow> filed R s'"
proof (induction rule: serves.induct)
  case (delete_all ns s s' a e)
  show ?case
  proof (rule filedI)
    fix k ob assume "s' k = Some ob"
    then show "kind_of ob = re_kind R \<and> obj_key ob = k"
      using wiped_all [OF delete_all(1), of k] filedD [OF \<open>filed R s\<close>, of k]
      by (auto simp: wiped_def served_defs persist_Some)
  qed
next
  case (patch n s c b y a)
  show ?case
    by (rule filedI) (use patch filedD [OF \<open>filed R s\<close>] in \<open>auto simp: served_defs persist_Some split: if_splits\<close>)
next
  case (create n s y a)
  show ?case
    by (rule filedI) (use create filedD [OF \<open>filed R s\<close>] in \<open>auto simp: served_defs split: if_splits\<close>)
next
  case (status n s c b y a)
  show ?case
    by (rule filedI) (use status filedD [OF \<open>filed R s\<close>] in \<open>auto simp: served_defs split: if_splits\<close>)
next
  case (delete s k c y a e)
  show ?case
    by (rule filedI) (use delete filedD [OF \<open>filed R s\<close>] in \<open>auto simp: served_defs persist_Some split: if_splits\<close>)
qed

lemma misfiled_request:
  "misfiled R e \<Longrightarrow> write_kind (fst e) = Some (re_kind R) \<or> (\<exists>k. fst e = Get (re_kind R) k)"
  by (induction R e rule: misfiled.induct) auto

lemma served_in_place: "serves R s e s' \<Longrightarrow> filed R s \<Longrightarrow> \<not> misfiled R e"
proof (induction rule: serves.induct)
  case (elsewhere q s a)
  then show ?case using misfiled_request [of R "(q, a)"] by auto
qed (auto simp: served_defs confirms_def dest: filedD elim!: misfiled.elims)

subsection \<open>What steps keep\<close>

definition secured :: "'m resource \<Rightarrow> objects \<Rightarrow> key \<Rightarrow> bool" where
  "secured R s k = (\<exists>ob. s k = Some ob \<and> held R ob)"

definition doomed :: "'m resource \<Rightarrow> objects \<Rightarrow> key \<Rightarrow> bool" where
  "doomed R s k = (\<forall>ob. s k = Some ob \<longrightarrow> deleting ob \<or> re_mark R ob = None)"

definition sound :: "'m resource \<Rightarrow> objects \<Rightarrow> key \<Rightarrow> bool" where
  \<comment> \<open>an object with a mark that is not being deleted holds the finalizer\<close>
  "sound R s k = (\<forall>ob. s k = Some ob \<longrightarrow> re_mark R ob \<noteq> None \<longrightarrow> \<not> deleting ob \<longrightarrow> held R ob)"

lemma secured_stays:
  "serves R s e s' \<Longrightarrow> \<not> strips R k e \<Longrightarrow> secured R s k \<Longrightarrow> secured R s' k"
proof (induction rule: serves.induct)
  case (patch n s c b y a)
  then show ?case
    by (cases "obj_key n = k"; cases "finalizers n = finalizers b")
       (auto simp: secured_def served_defs persist_Some held_def)
next
  case (delete_all ns s s' a e)
  show ?case
    using wiped_all [OF delete_all(1), of k] delete_all(3-)
    by (auto simp: secured_def wiped_def served_defs persist_Some held_def)
qed (auto simp: secured_def served_defs persist_Some held_def)

lemma doomed_stays:
  "serves R s e s' \<Longrightarrow> \<not> records R k e \<Longrightarrow> doomed R s k \<Longrightarrow> doomed R s' k"
proof (induction rule: serves.induct)
  case (delete_all ns s s' a e)
  show ?case
    using wiped_all [OF delete_all(1), of k] delete_all(3-)
    by (auto simp: doomed_def wiped_def served_defs persist_Some held_def)
qed (auto simp: doomed_def served_defs persist_Some)

lemma secures_secured: "serves R s e s' \<Longrightarrow> secures R k e \<Longrightarrow> secured R s' k"
  by (induction rule: serves.induct)
     (auto simp: secured_def served_defs persist_Some held_def confirms_def elim!: secures.elims)

lemma reads_doomed: "serves R s e s' \<Longrightarrow> reads_deleting R k e \<Longrightarrow> doomed R s' k"
  by (induction rule: serves.induct) (auto simp: doomed_def elim!: reads_deleting.elims)

lemma sound_stays:
  "serves R s e s' \<Longrightarrow> sound R s k \<Longrightarrow> (strips R k e \<Longrightarrow> doomed R s k) \<Longrightarrow>
   (records R k e \<Longrightarrow> secured R s k) \<Longrightarrow> sound R s' k"
proof (induction rule: serves.induct)
  case (patch n s c b y a)
  then show ?case
    by (cases "obj_key n = k"; cases "finalizers n = finalizers b"; cases "held R n")
       (auto simp: sound_def doomed_def served_defs persist_Some held_def)
next
  case (delete_all ns s s' a e)
  show ?case
    using wiped_all [OF delete_all(1), of k] delete_all(3-)
    by (auto simp: sound_def wiped_def served_defs persist_Some held_def)
next
  case (status n s c b y a)
  then show ?case
    by (cases "obj_key n = k") (auto simp: sound_def secured_def served_defs held_def)
qed (auto simp: sound_def served_defs persist_Some held_def)

subsection \<open>Runs of the controller\<close>

definition off :: "'m resource \<Rightarrow> key \<Rightarrow> event \<Rightarrow> bool" where
  \<comment> \<open>touches the mark or the finalizer of another object\<close>
  "off R k e = (\<exists>j. j \<noteq> k \<and> (records R j e \<or> strips R j e))"

definition tears_down :: "'m resource \<Rightarrow> key \<Rightarrow> event list \<Rightarrow> bool" where
  \<comment> \<open>records nothing, and takes the finalizer off only an object it has read as being deleted\<close>
  "tears_down R k es = (precedes (misfiled R) (\<lambda>e. off R k e \<or> records R k e) es \<and>
     precedes (\<lambda>e. misfiled R e \<or> reads_deleting R k e) (strips R k) es)"

definition sets_up :: "'m resource \<Rightarrow> key \<Rightarrow> event list \<Rightarrow> bool" where
  \<comment> \<open>keeps the finalizer, and records only after the object was seen or made to hold it\<close>
  "sets_up R k es = (precedes (misfiled R) (\<lambda>e. off R k e \<or> strips R k e) es \<and>
     precedes (\<lambda>e. misfiled R e \<or> secures R k e) (records R k) es)"

definition lawful :: "'m resource \<Rightarrow> key \<Rightarrow> event list \<Rightarrow> bool" where
  "lawful R k es = (tears_down R k es \<or> sets_up R k es)"

definition run_of :: "('s, 'a) M \<Rightarrow> event list \<Rightarrow> bool" where
  "run_of m es = (\<exists>E w r w'. m E w = (r, es, w'))"

lemma run_of_holds: "holds m (\<lambda>_ es. P es) \<Longrightarrow> run_of m es \<Longrightarrow> P es"
  unfolding run_of_def by (auto dest: holdsD)

lemma run_of_never: "never q m \<Longrightarrow> run_of m es \<Longrightarrow> e \<in> set es \<Longrightarrow> \<not> q e"
  unfolding never_def by (drule (1) run_of_holds) blast

subsection \<open>Interleavings\<close>

record cluster =
  cl_objects :: objects
  cl_runs :: "key \<Rightarrow> event list"     \<comment> \<open>what is left of the run for each key\<close>

inductive evolves :: "'m resource \<Rightarrow> (key \<Rightarrow> event list \<Rightarrow> bool) \<Rightarrow> (event \<Rightarrow> bool) \<Rightarrow> cluster \<Rightarrow> bool"
  for R own foreign where
  boot: "evolves R own foreign \<lparr>cl_objects = \<lambda>_. None, cl_runs = \<lambda>_. []\<rparr>"
| start_run: "evolves R own foreign S \<Longrightarrow> cl_runs S k = [] \<Longrightarrow> own k es \<Longrightarrow>
    evolves R own foreign (S\<lparr>cl_runs := (cl_runs S)(k := es)\<rparr>)"
| own_step: "evolves R own foreign S \<Longrightarrow> cl_runs S k = e # es \<Longrightarrow> serves R (cl_objects S) e s \<Longrightarrow>
    evolves R own foreign \<lparr>cl_objects = s, cl_runs = (cl_runs S)(k := es)\<rparr>"
| crash: "evolves R own foreign S \<Longrightarrow> evolves R own foreign (S\<lparr>cl_runs := \<lambda>_. []\<rparr>)"
| foreign_step: "evolves R own foreign S \<Longrightarrow> foreign e \<Longrightarrow> serves R (cl_objects S) e s \<Longrightarrow>
    evolves R own foreign (S\<lparr>cl_objects := s\<rparr>)"

definition leak_free :: "'m resource \<Rightarrow> (key \<Rightarrow> event list \<Rightarrow> bool) \<Rightarrow> (event \<Rightarrow> bool) \<Rightarrow> bool" where
  \<comment> \<open>in every state that interleavings reach, each object with a mark holds the finalizer, unless it is being deleted\<close>
  "leak_free R own foreign = (\<forall>S. evolves R own foreign S \<longrightarrow> (\<forall>k. sound R (cl_objects S) k))"

definition pending :: "'m resource \<Rightarrow> objects \<Rightarrow> key \<Rightarrow> event list \<Rightarrow> bool" where
  \<comment> \<open>what a run that has begun can still do\<close>
  "pending R s k es =
     (precedes (misfiled R) (\<lambda>e. off R k e \<or> records R k e) es \<and>
        (doomed R s k \<or> precedes (\<lambda>e. misfiled R e \<or> reads_deleting R k e) (strips R k) es) \<or>
      precedes (misfiled R) (\<lambda>e. off R k e \<or> strips R k e) es \<and>
        (secured R s k \<or> precedes (\<lambda>e. misfiled R e \<or> secures R k e) (records R k) es))"

lemma pending_lawful: "lawful R k es \<Longrightarrow> pending R s k es"
  by (auto simp: lawful_def tears_down_def sets_up_def pending_def)

lemma pending_Nil: "pending R s k []"
  by (simp add: pending_def)

lemma pending_stays:
  "serves R s e s' \<Longrightarrow> \<not> records R k e \<Longrightarrow> \<not> strips R k e \<Longrightarrow> pending R s k es \<Longrightarrow> pending R s' k es"
  unfolding pending_def using secured_stays doomed_stays by blast

lemma pending_step:
  assumes p: "pending R s k (e # es)" and s: "serves R s e s'" and m: "\<not> misfiled R e"
  shows "pending R s' k es" "strips R k e \<Longrightarrow> doomed R s k" "records R k e \<Longrightarrow> secured R s k"
    and "j \<noteq> k \<Longrightarrow> \<not> records R j e \<and> \<not> strips R j e"
proof -
  have disjoint: "\<not> (strips R k e \<and> reads_deleting R k e)" "\<not> (records R k e \<and> secures R k e)"
    by (auto elim!: strips.elims records.elims)
  show "strips R k e \<Longrightarrow> doomed R s k" "records R k e \<Longrightarrow> secured R s k"
    using p m disjoint by (auto simp: pending_def)
  show "j \<noteq> k \<Longrightarrow> \<not> records R j e \<and> \<not> strips R j e"
    using p m by (auto simp: pending_def off_def)
  show "pending R s' k es"
    using p m secured_stays [OF s, of k] doomed_stays [OF s, of k] secures_secured [OF s, of k] reads_doomed [OF s, of k]
    by (auto simp: pending_def)
qed

locale finalized_resource =
  fixes R :: "'m resource" and own :: "key \<Rightarrow> event list \<Rightarrow> bool" and foreign :: "event \<Rightarrow> bool"
  assumes own_lawful: "own k es \<Longrightarrow> lawful R k es"
    and foreign_harmless: "foreign e \<Longrightarrow> \<not> records R k e \<and> \<not> strips R k e"
begin

lemma interleaving_invariant:
  assumes "evolves R own foreign S"
  shows "filed R (cl_objects S) \<and> (\<forall>k. sound R (cl_objects S) k \<and> pending R (cl_objects S) k (cl_runs S k))"
  using assms
proof induction
  case boot
  then show ?case by (simp add: filed_def sound_def pending_Nil)
next
  case (start_run S k es)
  then show ?case by (simp add: pending_lawful own_lawful)
next
  case (own_step S k e es s)
  then have m: "\<not> misfiled R e" using served_in_place by blast
  have p: "pending R (cl_objects S) k (e # es)" using own_step by metis
  note step = pending_step [OF p \<open>serves R (cl_objects S) e s\<close> m]
  have "sound R s j" for j
    using own_step.IH sound_stays [OF \<open>serves R (cl_objects S) e s\<close>, of j] step(2,3) step(4) [of j] by (cases "j = k") auto
  moreover have "pending R s j (((cl_runs S)(k := es)) j)" for j
    using own_step.IH step(1) step(4) [of j] pending_stays [OF \<open>serves R (cl_objects S) e s\<close>, of j] by (cases "j = k") auto
  ultimately show ?case using own_step.IH serves_filed [OF \<open>serves R (cl_objects S) e s\<close>] by simp
next
  case (crash S)
  then show ?case by (simp add: pending_Nil)
next
  case (foreign_step S e s)
  note h = foreign_harmless [OF \<open>foreign e\<close>] and v = \<open>serves R (cl_objects S) e s\<close>
  have "sound R s k" "pending R s k (cl_runs S k)" for k
    using foreign_step.IH sound_stays [OF v, of k] pending_stays [OF v, of k] h [of k] by auto
  then show ?case using foreign_step.IH serves_filed [OF v] by simp
qed

lemma no_leak: "leak_free R own foreign"
  using interleaving_invariant unfolding leak_free_def by blast

end

declare split_paired_All [simp] split_paired_Ex [simp]

end
