(* ===== verification/Stale_Reads.thy ===== *)
theory Stale_Reads imports Shared_Objects begin

section \<open>Reads from a cache that lags behind\<close>

text \<open>
  The manager's client answers \<open>Get\<close> from the informer's cache, which learns of every version of an
  object in order, but late, while its writes go to the server.  Here a run reads what the cache shows,
  and the cache catches up one version at a time, whenever it likes.  What is left of a guarantee is
  that the versions still to come are consistent with the one shown: the locale \<open>stale_resource\<close> is the
  contract of \<open>finalized_resource\<close> for such runs, and its invariant that no mark is left without the
  finalizer holds of the server's objects all the same.

  Two things are asked of the environment.  A name is used again only once the cache has seen that its
  last object is gone: merge patches carry no uid, so a run that has read the old object would write to
  the new one.  And nobody else puts the controller's finalizer on an object that does not have it.
\<close>

declare split_paired_All [simp del] split_paired_Ex [simp del]

subsection \<open>Traces\<close>

fun adds :: "'m resource \<Rightarrow> key \<Rightarrow> event \<Rightarrow> bool" where
  \<comment> \<open>a write after which the object can hold the finalizer though it did not\<close>
  "adds R k (CreateQ n, _) = (kind_of n = re_kind R \<and> obj_key n = k \<and> held R n)"
| "adds R k (PatchQ b n, _) =
     (kind_of n = re_kind R \<and> obj_key n = k \<and> finalizers n \<noteq> finalizers b \<and> held R n)"
| "adds R k _ = False"

definition meddles :: "'m resource \<Rightarrow> key \<Rightarrow> event \<Rightarrow> bool" where
  \<comment> \<open>touches the mark or the finalizer of another object\<close>
  "meddles R k e = (\<exists>j. j \<noteq> k \<and> (records R j e \<or> strips R j e \<or> adds R j e))"

definition only_strips :: "'m resource \<Rightarrow> key \<Rightarrow> event list \<Rightarrow> bool" where
  "only_strips R k es = precedes (misfiled R) (\<lambda>e. meddles R k e \<or> records R k e \<or> adds R k e) es"

definition never_strips :: "'m resource \<Rightarrow> key \<Rightarrow> event list \<Rightarrow> bool" where
  "never_strips R k es = precedes (misfiled R) (\<lambda>e. meddles R k e \<or> strips R k e) es"

definition secures_first :: "'m resource \<Rightarrow> key \<Rightarrow> event list \<Rightarrow> bool" where
  "secures_first R k es = precedes (\<lambda>e. misfiled R e \<or> secures R k e) (records R k) es"

fun orderly :: "'m resource \<Rightarrow> key \<Rightarrow> event list \<Rightarrow> bool" where
  \<comment> \<open>a run begins with the read of its object, and what that shows decides how it goes on\<close>
  "orderly R k [] = True"
| "orderly R k ((q, a) # es) = (q = Get (re_kind R) k \<and> (case a of
     RObj ob \<Rightarrow> obj_key ob \<noteq> k \<or> (if deleting ob then only_strips R k es
       else never_strips R k es \<and> (held R ob \<or> secures_first R k es))
   | _ \<Rightarrow> es = []))"

subsection \<open>Versions\<close>

type_synonym views = "key \<Rightarrow> object option list"
  \<comment> \<open>for each key, what the cache shows, and the versions it has yet to learn of\<close>

definition stored :: "views \<Rightarrow> objects" where
  "stored V = (\<lambda>k. last (V k))"

definition shown :: "views \<Rightarrow> objects" where
  "shown V = (\<lambda>k. hd (V k))"

definition extended :: "views \<Rightarrow> objects \<Rightarrow> views" where
  "extended V s = (\<lambda>k. if s k = last (V k) then V k else V k @ [s k])"

definition in_turn :: "views \<Rightarrow> objects \<Rightarrow> bool" where
  \<comment> \<open>a name is used again once the cache shows that it is free\<close>
  "in_turn V s = (\<forall>k. stored V k = None \<longrightarrow> s k \<noteq> None \<longrightarrow> V k = [None])"

definition version :: "views \<Rightarrow> key \<Rightarrow> object \<Rightarrow> bool" where
  "version V k ob = (Some ob \<in> set (V k))"

record lagging =
  la_views :: views
  la_runs :: "key \<Rightarrow> event list"

inductive lags :: "'m resource \<Rightarrow> (key \<Rightarrow> event list \<Rightarrow> bool) \<Rightarrow> (objects \<Rightarrow> event \<Rightarrow> bool) \<Rightarrow> lagging \<Rightarrow> bool"
  for R own foreign where
  boot: "lags R own foreign \<lparr>la_views = \<lambda>_. [None], la_runs = \<lambda>_. []\<rparr>"
| start_run: "lags R own foreign S \<Longrightarrow> la_runs S k = [] \<Longrightarrow> own k es \<Longrightarrow>
    lags R own foreign (S\<lparr>la_runs := (la_runs S)(k := es)\<rparr>)"
| cached_read: "lags R own foreign S \<Longrightarrow> la_runs S k = (Get (re_kind R) j, a) # es \<Longrightarrow>
    (\<And>ob. a = RObj ob \<Longrightarrow> shown (la_views S) j = Some ob) \<Longrightarrow>
    lags R own foreign (S\<lparr>la_runs := (la_runs S)(k := es)\<rparr>)"
| own_step: "lags R own foreign S \<Longrightarrow> la_runs S k = e # es \<Longrightarrow> (\<And>j. fst e \<noteq> Get (re_kind R) j) \<Longrightarrow>
    serves R (stored (la_views S)) e s \<Longrightarrow> in_turn (la_views S) s \<Longrightarrow>
    lags R own foreign \<lparr>la_views = extended (la_views S) s, la_runs = (la_runs S)(k := es)\<rparr>"
| catch_up: "lags R own foreign S \<Longrightarrow> la_views S k = v # w # vs \<Longrightarrow>
    lags R own foreign (S\<lparr>la_views := (la_views S)(k := w # vs)\<rparr>)"
| crash: "lags R own foreign S \<Longrightarrow> lags R own foreign (S\<lparr>la_runs := \<lambda>_. []\<rparr>)"
| foreign_step: "lags R own foreign S \<Longrightarrow> foreign (stored (la_views S)) e \<Longrightarrow>
    serves R (stored (la_views S)) e s \<Longrightarrow> in_turn (la_views S) s \<Longrightarrow>
    lags R own foreign (S\<lparr>la_views := extended (la_views S) s\<rparr>)"

definition stale_leak_free :: "'m resource \<Rightarrow> (key \<Rightarrow> event list \<Rightarrow> bool) \<Rightarrow> (objects \<Rightarrow> event \<Rightarrow> bool) \<Rightarrow> bool" where
  "stale_leak_free R own foreign = (\<forall>S. lags R own foreign S \<longrightarrow> (\<forall>k. sound R (stored (la_views S)) k))"

subsection \<open>What is known of the versions\<close>

fun one_life :: "object option list \<Rightarrow> bool" where
  \<comment> \<open>after a version that is being deleted there are only such versions, and the end\<close>
  "one_life [] = True"
| "one_life (v # vs) = ((\<forall>ob. v = Some ob \<longrightarrow> deleting ob \<longrightarrow> (\<forall>y. Some y \<in> set vs \<longrightarrow> deleting y)) \<and> one_life vs)"

definition trusted :: "'m resource \<Rightarrow> views \<Rightarrow> key \<Rightarrow> bool" where
  \<comment> \<open>a finalizer that the cache shows or will show is there\<close>
  "trusted R V k = ((\<exists>ob. version V k ob \<and> held R ob) \<longrightarrow> secured R (stored V) k)"

definition ending :: "views \<Rightarrow> key \<Rightarrow> bool" where
  "ending V k = (\<forall>ob. version V k ob \<longrightarrow> deleting ob)"

definition blank :: "'m resource \<Rightarrow> object option \<Rightarrow> bool" where
  "blank R x = (\<forall>ob. x = Some ob \<longrightarrow> \<not> held R ob \<and> re_mark R ob = None)"

definition all_blank :: "'m resource \<Rightarrow> views \<Rightarrow> key \<Rightarrow> bool" where
  "all_blank R V k = (\<forall>v \<in> set (V k). blank R v)"

definition known :: "'m resource \<Rightarrow> views \<Rightarrow> bool" where
  \<comment> \<open>what holds of the views whatever the runs are up to\<close>
  "known R V = (\<forall>k. V k \<noteq> [] \<and> one_life (V k) \<and> sound R (stored V) k \<and> (trusted R V k \<or> ending V k) \<and>
     (\<forall>ob. version V k ob \<longrightarrow> kind_of ob = re_kind R \<and> obj_key ob = k))"

definition in_flight :: "'m resource \<Rightarrow> views \<Rightarrow> key \<Rightarrow> event list \<Rightarrow> bool" where
  \<comment> \<open>what a run that has begun can still do\<close>
  "in_flight R V k es = (orderly R k es \<or>
     only_strips R k es \<and> (ending V k \<or> all_blank R V k) \<or>
     never_strips R k es \<and> trusted R V k \<and> (secured R (stored V) k \<or> secures_first R k es))"

lemma knownD:
  assumes "known R V"
  shows "V k \<noteq> []" "one_life (V k)" "sound R (stored V) k" "trusted R V k \<or> ending V k"
    "version V k ob \<Longrightarrow> kind_of ob = re_kind R" "version V k ob \<Longrightarrow> obj_key ob = k"
  using assms by (auto simp: known_def)

lemma stored_version: "V k \<noteq> [] \<Longrightarrow> stored V k = Some ob \<Longrightarrow> version V k ob"
  by (metis stored_def version_def last_in_set)

lemma shown_version: "V k \<noteq> [] \<Longrightarrow> shown V k = Some ob \<Longrightarrow> version V k ob"
  by (metis shown_def version_def hd_in_set)

lemma known_filed: "known R V \<Longrightarrow> filed R (stored V)"
  by (rule filedI) (meson knownD stored_version)

lemma one_life_append:
  "one_life (vs @ [y]) \<longleftrightarrow> one_life vs \<and> (\<forall>ob z. Some ob \<in> set vs \<longrightarrow> deleting ob \<longrightarrow> y = Some z \<longrightarrow> deleting z)"
proof (induction vs)
  case (Cons v vs)
  show ?case unfolding append_Cons one_life.simps Cons.IH by (simp, blast)
qed simp

lemma one_life_last: "one_life vs \<Longrightarrow> Some ob \<in> set vs \<Longrightarrow> deleting ob \<Longrightarrow> last vs = Some y \<Longrightarrow> deleting y"
proof (induction vs)
  case (Cons v vs)
  then show ?case using last_in_set [of vs] by (cases "vs = []") auto
qed simp

lemma one_life_head: "one_life vs \<Longrightarrow> vs \<noteq> [] \<Longrightarrow> hd vs = Some ob \<Longrightarrow> deleting ob \<Longrightarrow> Some y \<in> set vs \<Longrightarrow> deleting y"
  by (cases vs) auto

lemma extended_simps [simp]:
  "V k \<noteq> [] \<Longrightarrow> set (extended V s k) = insert (s k) (set (V k))"
  "V k \<noteq> [] \<Longrightarrow> extended V s k \<noteq> []"
  by (auto simp: extended_def)

lemma stored_extended [simp]: "(\<And>k. V k \<noteq> []) \<Longrightarrow> stored (extended V s) = s"
  by (auto simp: stored_def extended_def fun_eq_iff)

lemma version_extended: "V k \<noteq> [] \<Longrightarrow> version (extended V s) k ob \<longleftrightarrow> version V k ob \<or> s k = Some ob"
  by (auto simp: version_def)

subsection \<open>What steps keep\<close>

lemma deleting_stays:
  "serves R s e s' \<Longrightarrow> s k = Some c \<Longrightarrow> deleting c \<Longrightarrow> s' k = Some y \<Longrightarrow> deleting y"
proof (induction rule: serves.induct)
  case (delete_all ns s s' a e)
  show ?case
    using wiped_all [OF delete_all(1), of k] delete_all(3-) by (auto simp: wiped_def served_defs persist_Some)
qed (auto simp: served_defs persist_Some split: if_splits)

lemma blank_stays:
  "serves R s e s' \<Longrightarrow> \<not> records R k e \<Longrightarrow> \<not> adds R k e \<Longrightarrow> blank R (s k) \<Longrightarrow> blank R (s' k)"
proof (induction rule: serves.induct)
  case (delete_all ns s s' a e)
  show ?case
    using wiped_all [OF delete_all(1), of k] delete_all(3-)
    by (auto simp: blank_def wiped_def served_defs persist_Some held_def)
next
  case (patch n s c b y a)
  then show ?case
    by (cases "obj_key n = k"; cases "finalizers n = finalizers b")
       (auto simp: blank_def served_defs persist_Some held_def)
qed (auto simp: blank_def served_defs persist_Some held_def)

lemma secured_blank: "secured R s k \<Longrightarrow> \<not> blank R (s k)"
  by (auto simp: secured_def blank_def)

text \<open>A step of the server, seen through the cache of the controller.\<close>

definition server_step :: "'m resource \<Rightarrow> views \<Rightarrow> event \<Rightarrow> objects \<Rightarrow> bool" where
  "server_step R V e s = (known R V \<and> serves R (stored V) e s \<and> in_turn V s)"

lemma stepD:
  assumes "server_step R V e s"
  shows "known R V" "serves R (stored V) e s" "in_turn V s" "V k \<noteq> []"
    "version (extended V s) k ob \<longleftrightarrow> version V k ob \<or> s k = Some ob"
    "stored (extended V s) = s" "set (extended V s k) = insert (s k) (set (V k))"
proof -
  show "known R V" "serves R (stored V) e s" "in_turn V s"
    using assms by (simp_all add: server_step_def)
  then have n: "V k \<noteq> []" for k by (simp add: known_def)
  then show "V k \<noteq> []" "version (extended V s) k ob \<longleftrightarrow> version V k ob \<or> s k = Some ob"
    "stored (extended V s) = s" "set (extended V s k) = insert (s k) (set (V k))"
    by (simp_all add: version_extended)
qed

lemma born: "server_step R V e s \<Longrightarrow> stored V k = None \<Longrightarrow> s k \<noteq> None \<Longrightarrow> V k = [None]"
  by (simp add: server_step_def in_turn_def)

lemma lives_on:
  assumes st: "server_step R V e s"
  shows "one_life (extended V s k)"
proof (cases "s k = stored V k")
  case True
  then show ?thesis using knownD(2) [OF stepD(1) [OF st]] by (simp add: extended_def stored_def)
next
  case False
  note o = knownD(2) [OF stepD(1) [OF st], of k]
  have "deleting z" if v: "version V k ob" "deleting ob" and z: "s k = Some z" for ob z
  proof (cases "stored V k")
    case None
    then show ?thesis using born [OF st None] v z by (simp add: version_def)
  next
    case (Some c)
    have "deleting c"
      using one_life_last [OF o, of ob c] v Some by (simp add: version_def stored_def)
    then show ?thesis using deleting_stays [OF stepD(2) [OF st] Some] z by blast
  qed
  then show ?thesis
    using False o by (auto simp: extended_def stored_def one_life_append version_def)
qed

lemma ends_on:
  assumes st: "server_step R V e s" and "ending V k" "stored V k \<noteq> None \<or> s k = None"
  shows "ending (extended V s) k"
  using assms(2,3) deleting_stays [OF stepD(2) [OF st], of k] stored_version [of V k, OF stepD(4) [OF st]]
  by (auto simp: ending_def stepD(5) [OF st])

lemma trusts_on:
  assumes st: "server_step R V e s" and "trusted R V k" "\<not> strips R k e"
  shows "trusted R (extended V s) k"
proof (cases "\<exists>ob. version V k ob \<and> held R ob")
  case True
  then show ?thesis
    using assms secured_stays [OF stepD(2) [OF st]] by (simp add: trusted_def stepD(6) [OF st])
next
  case False
  then show ?thesis by (auto simp: trusted_def stepD(5,6) [OF st] secured_def)
qed

lemma stays_trusted:
  assumes st: "server_step R V e s" and strip: "strips R k e \<Longrightarrow> ending V k \<or> all_blank R V k"
  shows "trusted R (extended V s) k \<or> ending (extended V s) k"
proof (cases "trusted R V k \<and> \<not> strips R k e")
  case True
  then show ?thesis using trusts_on [OF st] by blast
next
  case False
  have unheld: "trusted R (extended V s) k" if "\<And>ob. version V k ob \<Longrightarrow> \<not> held R ob"
    using that by (auto simp: trusted_def stepD(5,6) [OF st] secured_def)
  consider (blank) "\<And>ob. version V k ob \<Longrightarrow> \<not> held R ob" | (ending) "ending V k"
    using False strip knownD(4) [OF stepD(1) [OF st], of k] by (auto simp: all_blank_def blank_def version_def)
  then show ?thesis
  proof cases
    case ending
    show ?thesis
    proof (cases "stored V k = None \<and> s k \<noteq> None")
      case True
      then show ?thesis using born [OF st, of k] unheld by (simp add: version_def)
    qed (use ends_on [OF st ending] in blast)
  qed (use unheld in blast)
qed

lemma winds_down:
  assumes st: "server_step R V e s" and "ending V k \<or> all_blank R V k" "\<not> records R k e"
    and add: "adds R k e \<Longrightarrow> secured R (stored V) k"
  shows "ending (extended V s) k \<or> all_blank R (extended V s) k"
proof (cases "all_blank R V k")
  case True
  then have b: "blank R (stored V k)" using stepD(4) [OF st, of k] by (simp add: all_blank_def stored_def)
  then have "blank R (s k)"
    using blank_stays [OF stepD(2) [OF st] assms(3)] add secured_blank by blast
  then show ?thesis using True by (auto simp: all_blank_def stepD(7) [OF st])
next
  case False
  then have e: "ending V k" using assms(2) by blast
  show ?thesis
  proof (cases "stored V k = None \<and> s k \<noteq> None")
    case True
    then have "all_blank R V k" using born [OF st, of k] by (simp add: all_blank_def blank_def)
    then show ?thesis using False by blast
  qed (use ends_on [OF st e] in blast)
qed

lemma stays_known:
  assumes st: "server_step R V e s" and strip: "\<And>k. strips R k e \<Longrightarrow> ending V k \<or> all_blank R V k"
    and mark: "\<And>k. records R k e \<Longrightarrow> secured R (stored V) k"
  shows "known R (extended V s)"
  unfolding known_def
proof (intro allI conjI impI)
  fix k
  show "extended V s k \<noteq> []" using stepD(4) [OF st, of k] by simp
  show "one_life (extended V s k)" by (rule lives_on [OF st])
  have "doomed R (stored V) k" if "strips R k e"
    using strip [OF that] stored_version [of V k, OF stepD(4) [OF st]]
    by (auto simp: doomed_def ending_def all_blank_def blank_def version_def)
  then show "sound R (stored (extended V s)) k"
    using sound_stays [OF stepD(2) [OF st] knownD(3) [OF stepD(1) [OF st]], of k] mark by (simp add: stepD(6) [OF st])
  show "trusted R (extended V s) k \<or> ending (extended V s) k"
    by (rule stays_trusted [OF st strip])
  fix ob assume "version (extended V s) k ob"
  then show "kind_of ob = re_kind R" "obj_key ob = k"
    using knownD(5,6) [OF stepD(1) [OF st], of k ob]
      filedD [OF serves_filed [OF stepD(2) [OF st] known_filed [OF stepD(1) [OF st]]], of k ob]
    by (auto simp: stepD(5) [OF st])
qed

lemma stays_in_flight:
  assumes st: "server_step R V e s" and "in_flight R V k es" "\<not> records R k e" "\<not> strips R k e"
    and "adds R k e \<Longrightarrow> secured R (stored V) k"
  shows "in_flight R (extended V s) k es"
  using assms(2-) winds_down [OF st, of k] trusts_on [OF st, of k] secured_stays [OF stepD(2) [OF st], of k]
  by (auto simp: in_flight_def stepD(6) [OF st])

subsection \<open>What runs do\<close>

lemma own_step_in_flight:
  assumes st: "server_step R V e s" and f: "in_flight R V k (e # es)" and g: "\<And>j. fst e \<noteq> Get (re_kind R) j"
  shows "in_flight R (extended V s) k es" "strips R k e \<Longrightarrow> ending V k \<or> all_blank R V k"
    and "records R k e \<Longrightarrow> secured R (stored V) k" "\<not> meddles R k e"
proof -
  have m: "\<not> misfiled R e"
    by (rule served_in_place [OF stepD(2) [OF st] known_filed [OF stepD(1) [OF st]]])
  have o: "\<not> orderly R k (e # es)" using g by (cases e) simp
  consider (down) "only_strips R k (e # es)" "ending V k \<or> all_blank R V k"
    | (up) "never_strips R k (e # es)" "trusted R V k" "secured R (stored V) k \<or> secures_first R k (e # es)"
    using f o by (auto simp: in_flight_def)
  then have "in_flight R (extended V s) k es \<and> (strips R k e \<longrightarrow> ending V k \<or> all_blank R V k) \<and>
      (records R k e \<longrightarrow> secured R (stored V) k) \<and> \<not> meddles R k e"
  proof cases
    case down
    then have n: "\<not> records R k e" "\<not> adds R k e" "\<not> meddles R k e" "only_strips R k es"
      using m by (auto simp: only_strips_def)
    then show ?thesis
      using down(2) winds_down [OF st down(2)] by (simp add: in_flight_def)
  next
    case up
    then have n: "\<not> strips R k e" "\<not> meddles R k e" "never_strips R k es"
      using m by (auto simp: never_strips_def)
    have "\<not> (records R k e \<and> secures R k e)" by (auto elim!: records.elims)
    then show ?thesis
      using n m up trusts_on [OF st up(2) n(1)] secured_stays [OF stepD(2) [OF st] n(1)] secures_secured [OF stepD(2) [OF st], of k]
      by (auto simp: in_flight_def secures_first_def stepD(6) [OF st])
  qed
  then show "in_flight R (extended V s) k es" "strips R k e \<Longrightarrow> ending V k \<or> all_blank R V k"
    "records R k e \<Longrightarrow> secured R (stored V) k" "\<not> meddles R k e" by blast+
qed

lemma cached_read_in_flight:
  assumes known: "known R V" and f: "in_flight R V k ((Get (re_kind R) j, a) # es)"
    and shown: "\<And>ob. a = RObj ob \<Longrightarrow> shown V j = Some ob"
  shows "in_flight R V k es"
proof -
  have ver: "version V j ob" "obj_key ob = j" if "a = RObj ob" for ob
    using shown_version [of V j, OF knownD(1) [OF known] shown [OF that]] knownD(6) [OF known, of j ob] by auto
  have m: "\<not> misfiled R (Get (re_kind R) j, a)" using ver by (cases a) auto
  consider (start) "orderly R k ((Get (re_kind R) j, a) # es)"
    | (down) "only_strips R k ((Get (re_kind R) j, a) # es)" "ending V k \<or> all_blank R V k"
    | (up) "never_strips R k ((Get (re_kind R) j, a) # es)" "trusted R V k"
        "secured R (stored V) k \<or> secures_first R k ((Get (re_kind R) j, a) # es)"
    using f by (auto simp: in_flight_def)
  then show ?thesis
  proof cases
    case start
    show ?thesis
    proof (cases "\<exists>ob. a = RObj ob")
      case False
      then show ?thesis using start by (cases a) (auto simp: in_flight_def)
    next
      case True
      then obtain ob where a: "a = RObj ob" by blast
      have j: "j = k" "obj_key ob = k" using start ver [OF a] by auto
      have sees: "hd (V k) = Some ob" using shown [OF a] j by (simp add: shown_def)
      show ?thesis
      proof (cases "deleting ob")
        case True
        have "ending V k"
          using one_life_head [OF knownD(2,1) [OF known] sees True] by (simp add: ending_def version_def)
        then show ?thesis using start a True j by (simp add: in_flight_def)
      next
        case False
        have t: "trusted R V k"
          using knownD(4) [OF known, of k] False ver [OF a] j by (auto simp: ending_def)
        moreover have "held R ob \<Longrightarrow> secured R (stored V) k"
          using t ver [OF a] j by (auto simp: trusted_def)
        ultimately show ?thesis using start a False j by (auto simp: in_flight_def)
      qed
    qed
  next
    case down
    then show ?thesis using m by (auto simp: in_flight_def only_strips_def)
  next
    case up
    have "secured R (stored V) k" if "secures R k (Get (re_kind R) j, a)"
      using that up(2) ver by (cases a) (auto simp: trusted_def)
    then show ?thesis using up m by (auto simp: in_flight_def never_strips_def secures_first_def)
  qed
qed

text \<open>The cache learns of one more version.\<close>

lemma caught_up:
  assumes "V k = v # w # vs"
  defines "V' \<equiv> V(k := w # vs)"
  shows "stored V' = stored V" "version V' j ob \<Longrightarrow> version V j ob" "set (V' j) \<subseteq> set (V j)"
    "one_life (V j) \<Longrightarrow> one_life (V' j)" "V j \<noteq> [] \<Longrightarrow> V' j \<noteq> []"
proof -
  show "stored V' = stored V" using assms(1) by (auto simp: V'_def stored_def fun_eq_iff simp del: split_paired_All)
  show s: "set (V' j) \<subseteq> set (V j)" using assms(1) by (cases "j = k") (auto simp: V'_def)
  show "version V' j ob \<Longrightarrow> version V j ob" using s by (auto simp: version_def)
  show "one_life (V j) \<Longrightarrow> one_life (V' j)" using assms(1) by (cases "j = k") (auto simp: V'_def)
  show "V j \<noteq> [] \<Longrightarrow> V' j \<noteq> []" using assms(1) by (cases "j = k") (auto simp: V'_def)
qed

lemma caught_up_facts:
  assumes "V k = v # w # vs"
  shows "trusted R V j \<Longrightarrow> trusted R (V(k := w # vs)) j" "ending V j \<Longrightarrow> ending (V(k := w # vs)) j"
    "all_blank R V j \<Longrightarrow> all_blank R (V(k := w # vs)) j"
  using caught_up(1) [of V, OF assms] caught_up(2-) [of V, OF assms, where j = j]
  by (auto simp: trusted_def ending_def all_blank_def simp del: fun_upd_apply)

lemma catch_up_known:
  assumes "V k = v # w # vs" "known R V"
  shows "known R (V(k := w # vs))"
  unfolding known_def
proof (intro allI conjI impI)
  fix j
  note c = caught_up [of V, OF assms(1)] and n = knownD [OF assms(2), of j]
  show "(V(k := w # vs)) j \<noteq> []" "one_life ((V(k := w # vs)) j)" by (rule c(5) [OF n(1)], rule c(4) [OF n(2)])
  show "sound R (stored (V(k := w # vs))) j" using n(3) by (simp only: c(1))
  show "trusted R (V(k := w # vs)) j \<or> ending (V(k := w # vs)) j"
    using n(4) caught_up_facts [of V, OF assms(1)] by blast
  fix ob assume "version (V(k := w # vs)) j ob"
  then show "kind_of ob = re_kind R" "obj_key ob = j" using n(5,6) c(2) by blast+
qed

lemma catch_up_in_flight: "V k = v # w # vs \<Longrightarrow> in_flight R V j es \<Longrightarrow> in_flight R (V(k := w # vs)) j es"
  unfolding in_flight_def using caught_up_facts [of V k v w vs] caught_up(1) [of V k v w vs] by metis

subsection \<open>The contract and its invariant\<close>

locale stale_resource =
  fixes R :: "'m resource" and own :: "key \<Rightarrow> event list \<Rightarrow> bool" and foreign :: "objects \<Rightarrow> event \<Rightarrow> bool"
  assumes own_orderly: "own k es \<Longrightarrow> orderly R k es"
    and foreign_quiet: "foreign s e \<Longrightarrow> \<not> records R k e \<and> \<not> strips R k e"
    and foreign_adds: "foreign s e \<Longrightarrow> adds R k e \<Longrightarrow> secured R s k"
begin

lemma lagging_invariant:
  assumes "lags R own foreign S"
  shows "known R (la_views S) \<and> (\<forall>k. in_flight R (la_views S) k (la_runs S k))"
  using assms
proof induction
  case boot
  then show ?case
    by (simp add: known_def in_flight_def stored_def sound_def trusted_def version_def)
next
  case (start_run S k es)
  then show ?case by (simp add: in_flight_def own_orderly)
next
  case (cached_read S k j a es)
  have "in_flight R (la_views S) k es"
    by (rule cached_read_in_flight [of R "la_views S" k j a es]) (use cached_read in \<open>auto dest: spec [of _ k]\<close>)
  then show ?case using cached_read.IH by simp
next
  case (own_step S k e es s)
  have st: "server_step R (la_views S) e s" using own_step by (simp add: server_step_def)
  have "in_flight R (la_views S) k (e # es)" using own_step by metis
  note step = own_step_in_flight [OF st this own_step(3)]
  have others: "\<not> records R j e" "\<not> strips R j e" "\<not> adds R j e" if "j \<noteq> k" for j
    using step(4) that by (auto simp: meddles_def)
  have "known R (extended (la_views S) s)"
    using step(2,3) others by (intro stays_known [OF st]) metis+
  moreover have "in_flight R (extended (la_views S) s) j (((la_runs S)(k := es)) j)" for j
  proof (cases "j = k")
    case True
    then show ?thesis using step(1) by simp
  next
    case False
    have "in_flight R (extended (la_views S) s) j (la_runs S j)"
      by (rule stays_in_flight [OF st]) (use others [OF False] own_step.IH in auto)
    then show ?thesis using False by simp
  qed
  ultimately show ?case by simp
next
  case (catch_up S k v w vs)
  then show ?case by (simp add: catch_up_known catch_up_in_flight del: fun_upd_apply)
next
  case (crash S)
  then show ?case by (simp add: in_flight_def)
next
  case (foreign_step S e s)
  have st: "server_step R (la_views S) e s" using foreign_step by (simp add: server_step_def)
  note q = foreign_quiet [OF \<open>foreign (stored (la_views S)) e\<close>]
  have "known R (extended (la_views S) s)"
    by (rule stays_known [OF st]) (use q in blast)+
  moreover have "in_flight R (extended (la_views S) s) k (la_runs S k)" for k
    by (rule stays_in_flight [OF st]) (use q foreign_adds [OF \<open>foreign (stored (la_views S)) e\<close>] foreign_step.IH in auto)
  ultimately show ?case by simp
qed

lemma no_stale_leak: "stale_leak_free R own foreign"
  unfolding stale_leak_free_def using lagging_invariant knownD(3) by blast

end

declare split_paired_All [simp] split_paired_Ex [simp]

end
