(* ===== verification/Go_Duration.thy ===== *)
theory Go_Duration imports Prelude Complex_Main "HOL-Library.Word" begin

section \<open>Durations as text\<close>

text \<open>
  \<open>time.Duration.String\<close> and \<open>time.ParseDuration\<close>, which the options of the Grafana operator are
  read and validated with.  A duration is a number of nanoseconds in 64 bits; its sign is split off
  and the rest is a natural number.  Fractions go through floating point: \<open>rnd\<close> rounds a real number
  to a \<open>float64\<close>.
\<close>

subsection \<open>Printing\<close>

fun fmt_frac :: "nat \<Rightarrow> bool \<Rightarrow> string \<Rightarrow> nat \<Rightarrow> string \<times> nat" where
  \<comment> \<open>\<open>fmtFrac\<close>: the fraction without its trailing zeros is put before the text, and the whole part is left\<close>
  "fmt_frac 0 pr acc v = (if pr then CHR ''.'' # acc else acc, v)"
| "fmt_frac (Suc k) pr acc v =
     (let d = v mod 10; pr1 = (pr \<or> d \<noteq> 0) in
      fmt_frac k pr1 (if pr1 then char_of (48 + d) # acc else acc) (v div 10))"

definition micro :: string where
  \<comment> \<open>the micro sign in UTF-8\<close>
  "micro = [char_of (194 :: nat), char_of (181 :: nat)]"

definition small_duration :: "nat \<Rightarrow> string" where
  "small_duration u = (if u = 0 then ''0s'' else
     (let (unit, prec) = (if u < 10 ^ 3 then (''ns'', 0) else if u < 10 ^ 6 then (micro @ ''s'', 3) else (''ms'', 6));
          (t, n) = fmt_frac prec False unit u in digits n @ t))"

definition large_duration :: "nat \<Rightarrow> string" where
  "large_duration u = (let (t, s) = fmt_frac 9 False ''s'' u; ts = digits (s mod 60) @ t; m = s div 60 in
     if m = 0 then ts else
     (let tm = digits (m mod 60) @ ''m'' @ ts; h = m div 60 in
      if h = 0 then tm else digits h @ ''h'' @ tm))"

definition duration_text :: "int \<Rightarrow> string" where
  \<comment> \<open>\<open>Duration.String\<close>\<close>
  "duration_text d = (let u = nat \<bar>d\<bar>; t = (if u < 10 ^ 9 then small_duration u else large_duration u) in
     if d < 0 then ''-'' @ t else t)"

subsection \<open>Parsing\<close>

datatype duration_error = InvalidDuration | MissingUnit | UnknownUnit string

definition is_digit :: "char \<Rightarrow> bool" where
  "is_digit c = (48 \<le> (of_char c :: nat) \<and> (of_char c :: nat) \<le> 57)"

definition digit_value :: "char \<Rightarrow> nat" where
  "digit_value c = of_char c - 48"

fun leading_int :: "nat \<Rightarrow> string \<Rightarrow> (nat \<times> string) option" where
  "leading_int x [] = Some (x, [])"
| "leading_int x (c # cs) =
     (if \<not> is_digit c then Some (x, c # cs)
      else if x > 2 ^ 63 div 10 then None
      else (let y = x * 10 + digit_value c in if y > 2 ^ 63 then None else leading_int y cs))"

fun leading_fraction :: "nat \<Rightarrow> nat \<Rightarrow> bool \<Rightarrow> string \<Rightarrow> nat \<times> nat \<times> string" where
  \<comment> \<open>digits that do not fit any more are skipped\<close>
  "leading_fraction x sc ov [] = (x, sc, [])"
| "leading_fraction x sc ov (c # cs) =
     (if \<not> is_digit c then (x, sc, c # cs)
      else if ov then leading_fraction x sc True cs
      else if x > (2 ^ 63 - 1) div 10 then leading_fraction x sc True cs
      else (let y = x * 10 + digit_value c in
        if y > 2 ^ 63 then leading_fraction x sc True cs else leading_fraction y (sc * 10) False cs))"

definition unit_of :: "string \<Rightarrow> nat option" where
  \<comment> \<open>\<open>unitMap\<close>, with both spellings of micro\<close>
  "unit_of = map_of [(''ns'', 1), (''us'', 10 ^ 3), (micro @ ''s'', 10 ^ 3),
     ([char_of (206 :: nat), char_of (188 :: nat)] @ ''s'', 10 ^ 3), (''ms'', 10 ^ 6), (''s'', 10 ^ 9),
     (''m'', 60 * 10 ^ 9), (''h'', 3600 * 10 ^ 9)]"

definition in_unit :: "char \<Rightarrow> bool" where
  "in_unit c = (c \<noteq> CHR ''.'' \<and> \<not> is_digit c)"

definition scaled :: "(real \<Rightarrow> real) \<Rightarrow> nat \<Rightarrow> nat \<Rightarrow> nat \<Rightarrow> nat" where
  \<comment> \<open>\<open>uint64(float64(f) * (float64(unit) / scale))\<close>\<close>
  "scaled rnd f un sc = nat \<lfloor>rnd (rnd (real f) * rnd (rnd (real un) / rnd (real sc)))\<rfloor>"

definition number_part :: "string \<Rightarrow> (nat \<times> nat \<times> nat \<times> string) option" where
  \<comment> \<open>whole part, fraction and its scale, and what follows; a number without digits is an error\<close>
  "number_part s = (case leading_int 0 s of
     None \<Rightarrow> None
   | Some (v, s1) \<Rightarrow>
       (let pre = (length s1 \<noteq> length s) in
        if s1 \<noteq> [] \<and> hd s1 = CHR ''.'' then
          (let (f, sc, t1) = leading_fraction 0 1 False (tl s1) in
           if \<not> pre \<and> length t1 = length (tl s1) then None else Some (v, f, sc, t1))
        else if pre then Some (v, 0, 1, s1) else None))"

definition term_value :: "(real \<Rightarrow> real) \<Rightarrow> nat \<Rightarrow> nat \<Rightarrow> nat \<Rightarrow> nat \<Rightarrow> nat option" where
  "term_value rnd v f sc un =
     (if v > 2 ^ 63 div un then None
      else if f = 0 then Some (v * un)
      else (let x = (v * un + scaled rnd f un sc) mod 2 ^ 64 in if x > 2 ^ 63 then None else Some x))"

lemma leading_int_rest: "leading_int x s = Some (v, t) \<Longrightarrow> length t \<le> length s"
  by (induction x s rule: leading_int.induct) (auto simp: Let_def split: if_splits)

lemma leading_fraction_rest: "leading_fraction x sc ov s = (f, sc', t) \<Longrightarrow> length t \<le> length s"
  by (induction x sc ov s rule: leading_fraction.induct) (auto simp: Let_def split: if_splits)

lemma number_part_rest: "number_part s = Some (v, f, sc, t) \<Longrightarrow> length t \<le> length s"
  unfolding number_part_def
  by (force simp: Let_def split: option.splits prod.splits if_splits dest!: leading_int_rest leading_fraction_rest)

function parse_terms :: "(real \<Rightarrow> real) \<Rightarrow> nat \<Rightarrow> string \<Rightarrow> duration_error + nat" where
  "parse_terms rnd d s = (case s of
     [] \<Rightarrow> Inr d
   | c # cs \<Rightarrow>
       if \<not> (c = CHR ''.'' \<or> is_digit c) then Inl InvalidDuration else
       (case number_part s of
          None \<Rightarrow> Inl InvalidDuration
        | Some (v, f, sc, t) \<Rightarrow>
            if takeWhile in_unit t = [] then Inl MissingUnit else
            (case unit_of (takeWhile in_unit t) of
               None \<Rightarrow> Inl (UnknownUnit (takeWhile in_unit t))
             | Some un \<Rightarrow>
                 (case term_value rnd v f sc un of
                    None \<Rightarrow> Inl InvalidDuration
                  | Some x \<Rightarrow>
                      if (d + x) mod 2 ^ 64 > 2 ^ 63 then Inl InvalidDuration
                      else parse_terms rnd ((d + x) mod 2 ^ 64) (dropWhile in_unit t)))))"
  by pat_completeness auto
termination
proof (relation "measure (\<lambda>(rnd, d, s). length s)", simp, clarsimp)
  fix s :: string and c cs v f sc t
  assume n: "number_part (c # cs) = Some (v, f, sc, t)" and u: "takeWhile in_unit t \<noteq> []"
  have "length (takeWhile in_unit t) + length (dropWhile in_unit t) = length t"
    by (metis length_append takeWhile_dropWhile_id)
  then show "length (dropWhile in_unit t) < Suc (length cs)"
    using number_part_rest [OF n] u by (cases "takeWhile in_unit t") auto
qed

declare parse_terms.simps [simp del]

definition parse_duration :: "(real \<Rightarrow> real) \<Rightarrow> string \<Rightarrow> duration_error + int" where
  \<comment> \<open>\<open>time.ParseDuration\<close>\<close>
  "parse_duration rnd s0 =
     (let neg = (take 1 s0 = ''-''); s = (if neg \<or> take 1 s0 = ''+'' then tl s0 else s0) in
      if s = ''0'' then Inr 0
      else if s = '''' then Inl InvalidDuration
      else (case parse_terms rnd 0 s of
          Inl e \<Rightarrow> Inl e
        | Inr d \<Rightarrow> if neg then Inr (- int d)
            else if d > 2 ^ 63 - 1 then Inl InvalidDuration else Inr (int d)))"

definition quote_char :: "char \<Rightarrow> string" where
  "quote_char c = (let n = (of_char c :: nat) in
     if n < 32 \<or> 128 \<le> n then CHR 0x5C # ''x'' @ [(''0123456789abcdef'') ! (n div 16), (''0123456789abcdef'') ! (n mod 16)]
     else if c = CHR 0x22 \<or> c = CHR 0x5C then [CHR 0x5C, c] else [c])"

definition quote_text :: "string \<Rightarrow> string" where
  "quote_text s = CHR 0x22 # concat (map quote_char s) @ [CHR 0x22]"

fun duration_error_text :: "string \<Rightarrow> duration_error \<Rightarrow> string" where
  "duration_error_text s InvalidDuration = ''time: invalid duration '' @ quote_text s"
| "duration_error_text s MissingUnit = ''time: missing unit in duration '' @ quote_text s"
| "duration_error_text s (UnknownUnit u) = ''time: unknown unit '' @ quote_text u @ '' in duration '' @ quote_text s"

subsection \<open>Reading back what was printed\<close>

lemma digit_char [simp]: "k < 10 \<Longrightarrow> is_digit (char_of (48 + k :: nat))" "k < 10 \<Longrightarrow> digit_value (char_of (48 + k :: nat)) = k"
  by (simp_all add: is_digit_def digit_value_def)

lemma read_digits_Cons:
  "read_digits x (c # cs) = (if is_digit c then read_digits (x * 10 + digit_value c) cs else None)"
  by (simp add: is_digit_def digit_value_def Let_def mult.commute)

declare read_digits.simps(2) [simp del] read_digits_Cons [simp]

lemma read_digits_ge: "read_digits x ds = Some m \<Longrightarrow> x \<le> m"
proof (induction ds arbitrary: x)
  case (Cons c ds)
  then have "x * 10 + digit_value c \<le> m" by (auto split: if_splits)
  then show ?case by simp
qed simp

definition no_digit :: "string \<Rightarrow> bool" where
  "no_digit t = (t = [] \<or> \<not> is_digit (hd t))"

lemma leading_int_digits:
  "read_digits x ds = Some m \<Longrightarrow> m \<le> 2 ^ 63 \<Longrightarrow> no_digit t \<Longrightarrow> leading_int x (ds @ t) = Some (m, t)"
proof (induction ds arbitrary: x)
  case Nil
  then show ?case by (cases t) (auto simp: no_digit_def)
next
  case (Cons c ds)
  then have "x * 10 + digit_value c \<le> m" "is_digit c" "read_digits (x * 10 + digit_value c) ds = Some m"
    by (auto split: if_splits dest: read_digits_ge)
  then show ?case using Cons by (simp add: Let_def)
qed

lemma leading_fraction_digits:
  "read_digits x ds = Some m \<Longrightarrow> m < 2 ^ 63 \<Longrightarrow> no_digit t \<Longrightarrow>
   leading_fraction x sc False (ds @ t) = (m, sc * 10 ^ length ds, t)"
proof (induction ds arbitrary: x sc)
  case Nil
  then show ?case by (cases t) (auto simp: no_digit_def)
next
  case (Cons c ds)
  then have "x * 10 + digit_value c \<le> m" "is_digit c" "read_digits (x * 10 + digit_value c) ds = Some m"
    by (auto split: if_splits dest: read_digits_ge)
  then show ?case using Cons by (simp add: Let_def mult.assoc)
qed

fun padded :: "nat \<Rightarrow> nat \<Rightarrow> string" where
  \<comment> \<open>the last k digits\<close>
  "padded 0 v = []"
| "padded (Suc k) v = padded k (v div 10) @ [char_of (48 + v mod 10)]"

lemma length_padded [simp]: "length (padded k v) = k"
  by (induction k v rule: padded.induct) auto

lemma mod_power_Suc: "v mod 10 ^ Suc k = v mod 10 + 10 * (v div 10 mod 10 ^ k)" for v :: nat
  by (simp add: mod_mult2_eq)

lemma div_power_Suc: "v div 10 ^ Suc k = v div 10 div 10 ^ k" for v :: nat
  by (simp add: div_mult2_eq)

lemma read_padded: "read_digits x (padded k v) = Some (x * 10 ^ k + v mod 10 ^ k)"
  by (induction k v arbitrary: x rule: padded.induct)
     (simp_all add: read_digits_append mod_mult2_eq algebra_simps)

lemma fmt_frac_True: "fmt_frac k True acc v = (CHR ''.'' # padded k v @ acc, v div 10 ^ k)"
  by (induction k arbitrary: acc v) (simp_all add: div_mult2_eq)

lemma fmt_frac_False:
  "(v mod 10 ^ k = 0 \<and> fmt_frac k False acc v = (acc, v div 10 ^ k)) \<or>
   (\<exists>q. q < k \<and> v mod 10 ^ q = 0 \<and> v div 10 ^ q mod 10 \<noteq> 0 \<and>
     fmt_frac k False acc v = (CHR ''.'' # padded (k - q) (v div 10 ^ q) @ acc, v div 10 ^ k))"
proof (induction k arbitrary: v)
  case (Suc k)
  show ?case
  proof (cases "v mod 10 = 0")
    case False
    then have "fmt_frac (Suc k) False acc v = (CHR ''.'' # padded (Suc k - 0) (v div 10 ^ 0) @ acc, v div 10 ^ Suc k)"
      by (simp add: fmt_frac_True div_mult2_eq)
    then show ?thesis using False by (intro disjI2 exI [of _ 0]) auto
  next
    case True
    then have f: "fmt_frac (Suc k) False acc v = fmt_frac k False acc (v div 10)" by simp
    from Suc [of "v div 10"] show ?thesis
    proof (elim disjE exE conjE)
      assume "v div 10 mod 10 ^ k = 0" "fmt_frac k False acc (v div 10) = (acc, v div 10 div 10 ^ k)"
      then show ?thesis using True f by (simp add: mod_power_Suc div_power_Suc del: power_Suc)
    next
      fix q assume q: "q < k" "v div 10 mod 10 ^ q = 0" "v div 10 div 10 ^ q mod 10 \<noteq> 0"
        "fmt_frac k False acc (v div 10) = (CHR ''.'' # padded (k - q) (v div 10 div 10 ^ q) @ acc, v div 10 div 10 ^ k)"
      have "v mod 10 ^ Suc q = 0" using True q(2) by (simp add: mod_power_Suc del: power_Suc)
      then show ?thesis
        using q f by (intro disjI2 exI [of _ "Suc q"]) (simp add: div_power_Suc del: power_Suc)
    qed
  qed
qed simp

lemma digits_parts: "digits n \<noteq> []" "is_digit (hd (digits n))"
proof -
  obtain c cs where c: "digits n = c # cs" using digits_head by blast
  then show "digits n \<noteq> []" "is_digit (hd (digits n))"
    using read_digits_digits [of n] by (auto split: if_splits)
qed

lemma number_whole:
  assumes "v \<le> 2 ^ 63" "t \<noteq> []" "in_unit (hd t)"
  shows "number_part (digits v @ t) = Some (v, 0, 1, t)"
  using assms leading_int_digits [OF read_digits_digits, of v t] digits_parts(1) [of v]
  by (auto simp: number_part_def no_digit_def in_unit_def)

lemma number_fraction:
  assumes "v \<le> 2 ^ 63" "read_digits 0 ds = Some m" "m < 2 ^ 63" "t \<noteq> []" "in_unit (hd t)"
  shows "number_part (digits v @ CHR ''.'' # ds @ t) = Some (v, m, 10 ^ length ds, t)"
  using assms leading_int_digits [OF read_digits_digits, of v "CHR ''.'' # ds @ t"] digits_parts(1) [of v]
    leading_fraction_digits [of 0 ds m t 1]
  by (auto simp: number_part_def no_digit_def in_unit_def is_digit_def)

definition exact_float64 :: "(real \<Rightarrow> real) \<Rightarrow> bool" where
  \<comment> \<open>rounding keeps the integers that a \<open>float64\<close> has\<close>
  "exact_float64 rnd = (\<forall>n. n \<le> 2 ^ 53 \<longrightarrow> rnd (real n) = real n)"

lemma scaled_exact:
  assumes r: "exact_float64 rnd" and q: "q \<le> p" "p \<le> 9" and f: "f < 10 ^ q"
  shows "scaled rnd f (10 ^ p) (10 ^ q) = f * 10 ^ (p - q)"
proof -
  have b: "(10 :: nat) ^ k \<le> 2 ^ 53" if "k \<le> 9" for k
    using power_increasing [OF that, of "10 :: nat"] by simp
  have e: "rnd (real n) = real n" if "n \<le> 2 ^ 53" for n using r that by (simp add: exact_float64_def)
  have pq: "(10 :: nat) ^ p = 10 ^ (p - q) * 10 ^ q" using q by (simp flip: power_add)
  have "f * 10 ^ (p - q) < 10 ^ p" using f by (simp add: pq)
  then have fp: "f * 10 ^ (p - q) \<le> 2 ^ 53" "f \<le> 2 ^ 53"
    using b [OF q(2)] b [of q] q f by linarith+
  have "real (10 ^ p) / real (10 ^ q) = real (10 ^ (p - q))" using pq by simp
  then have "rnd (rnd (real f) * rnd (rnd (real (10 ^ p)) / rnd (real (10 ^ q)))) = real (f * 10 ^ (p - q))"
    using e [OF fp(1)] e [OF fp(2)] e [OF b [OF q(2)]] e [OF b [of q]] e [OF b [of "p - q"]] q by simp
  then show ?thesis by (simp add: scaled_def flip: of_nat_mult of_nat_power)
qed

definition unit_text :: "string \<Rightarrow> nat \<Rightarrow> bool" where
  "unit_text t un = (t \<noteq> [] \<and> list_all in_unit t \<and> unit_of t = Some un)"

lemma unit_texts [simp]:
  "unit_text ''ns'' (10 ^ 0)" "unit_text (micro @ ''s'') (10 ^ 3)" "unit_text ''ms'' (10 ^ 6)"
  "unit_text ''s'' (10 ^ 9)" "unit_text ''m'' (60 * 10 ^ 9)" "unit_text ''h'' (3600 * 10 ^ 9)"
  by (simp_all add: unit_text_def unit_of_def micro_def in_unit_def is_digit_def char_of_def bit_Suc_0_iff)

lemma parse_one:
  assumes n: "number_part s = Some (v, f, sc, t @ rest)" and s: "s \<noteq> []" "is_digit (hd s)" and t: "unit_text t un"
    and rest: "rest = [] \<or> is_digit (hd rest)" and x: "term_value rnd v f sc un = Some x" "d + x \<le> 2 ^ 63"
  shows "parse_terms rnd d s = parse_terms rnd (d + x) rest"
proof -
  have "takeWhile in_unit rest = []" "dropWhile in_unit rest = rest"
    using rest by (cases rest; simp add: in_unit_def)+
  then have "takeWhile in_unit (t @ rest) = t" "dropWhile in_unit (t @ rest) = rest"
    using t by (simp_all add: unit_text_def list_all_iff)
  moreover have "(d + x) mod 2 ^ 64 = d + x" using x(2) by simp
  ultimately show ?thesis
    using n s t x by (subst parse_terms.simps) (auto simp: unit_text_def split: list.split)
qed

lemma parse_whole:
  assumes "unit_text t un" "rest = [] \<or> is_digit (hd rest)" "d + v * un \<le> 2 ^ 63" "un > 0"
  shows "parse_terms rnd d (digits v @ t @ rest) = parse_terms rnd (d + v * un) rest"
proof -
  have v: "v \<le> 2 ^ 63 div un" using assms(3,4) by (simp add: less_eq_div_iff_mult_less_eq)
  then have "v \<le> 2 ^ 63" by (meson div_le_dividend le_trans)
  then have "number_part (digits v @ t @ rest) = Some (v, 0, 1, t @ rest)"
    using assms(1) by (intro number_whole) (auto simp: unit_text_def hd_append list_all_iff)
  moreover have "term_value rnd v 0 1 un = Some (v * un)" using v by (simp add: term_value_def)
  ultimately show ?thesis
    using assms digits_parts [of v] by (intro parse_one) (auto simp: hd_append)
qed

lemma parse_fraction:
  assumes r: "exact_float64 rnd" and t: "unit_text t (10 ^ p)" and p: "p \<le> 9"
    and x: "d + (v * 10 ^ p + u mod 10 ^ p) \<le> 2 ^ 63"
  shows "parse_terms rnd d (digits v @ fst (fmt_frac p False t u)) = Inr (d + (v * 10 ^ p + u mod 10 ^ p))"
proof -
  have v: "v \<le> 2 ^ 63 div 10 ^ p" using x by (simp add: less_eq_div_iff_mult_less_eq)
  then have v': "v \<le> 2 ^ 63" by (meson div_le_dividend le_trans)
  from fmt_frac_False [of u p t] show ?thesis
  proof (elim disjE exE conjE)
    assume "u mod 10 ^ p = 0" "fmt_frac p False t u = (t, u div 10 ^ p)"
    then show ?thesis
      using parse_whole [OF t, of "[]" d v rnd] x by (simp add: parse_terms.simps [of _ _ "[]"])
  next
    fix q assume q: "q < p" "u mod 10 ^ q = 0" "u div 10 ^ q mod 10 \<noteq> 0"
      and fr: "fmt_frac p False t u = (CHR ''.'' # padded (p - q) (u div 10 ^ q) @ t, u div 10 ^ p)"
    define f where "f = u div 10 ^ q mod 10 ^ (p - q)"
    have pq: "(10 :: nat) ^ p = 10 ^ q * 10 ^ (p - q)" using q(1) by (simp flip: power_add)
    have um: "u mod 10 ^ p = f * 10 ^ q"
      using q(2) by (simp add: pq mod_mult2_eq f_def)
    have "(10 :: nat) ^ (p - q) \<le> 2 ^ 63"
      using power_increasing [OF le_trans [OF diff_le_self p], of "10 :: nat" q] by simp
    moreover have f10: "f < 10 ^ (p - q)" by (simp add: f_def)
    ultimately have f: "f < 10 ^ (p - q)" "f < 2 ^ 63" by linarith+
    have f0: "f \<noteq> 0"
    proof
      assume "f = 0"
      then have "10 ^ (p - q) dvd u div 10 ^ q" by (simp add: f_def mod_eq_0_iff_dvd)
      moreover have "10 dvd (10 :: nat) ^ (p - q)" using q(1) by simp
      ultimately show False using q(3) by (metis dvd_trans mod_eq_0_iff_dvd)
    qed
    have "scaled rnd f (10 ^ p) (10 ^ (p - q)) = f * 10 ^ q"
      using scaled_exact [OF r _ p f(1)] q(1) by simp
    then have "term_value rnd v f (10 ^ (p - q)) (10 ^ p) = Some (v * 10 ^ p + u mod 10 ^ p)"
      using v f0 x um by (simp add: term_value_def Let_def)
    moreover have "number_part (digits v @ CHR ''.'' # padded (p - q) (u div 10 ^ q) @ t) = Some (v, f, 10 ^ (p - q), t)"
      using number_fraction [OF v' read_padded [of 0 "p - q" "u div 10 ^ q", simplified], of t] f t
      by (auto simp: f_def unit_text_def list_all_iff)
    ultimately show ?thesis
      using parse_one [of _ v f "10 ^ (p - q)" t "[]" "10 ^ p" rnd "v * 10 ^ p + u mod 10 ^ p" d] digits_parts [of v] t x fr
      by (simp add: parse_terms.simps [of _ _ "[]"] hd_append)
  qed
qed

lemma fmt_frac_rest [simp]: "snd (fmt_frac k pr acc v) = v div 10 ^ k"
  by (induction k arbitrary: pr acc v) (simp_all add: Let_def div_mult2_eq)

lemma read_small:
  assumes "exact_float64 rnd" "u < 10 ^ 9"
  shows "parse_terms rnd 0 (small_duration u) = Inr u"
proof (cases "u = 0")
  case True
  have "digits 0 = ''0''" by (subst digits.simps) (simp add: char_of_def bit_Suc_0_iff)
  then show ?thesis
    using True parse_whole [OF unit_texts(4), of "[]" 0 0 rnd] by (simp add: small_duration_def parse_terms.simps [of _ _ "[]"])
next
  case False
  have f: "parse_terms rnd 0 (case fmt_frac p False t u of (fr, n) \<Rightarrow> digits n @ fr) = Inr u"
    if "unit_text t (10 ^ p)" "p \<le> 9" for p t
    using parse_fraction [OF assms(1) that, of 0 "u div 10 ^ p" u, unfolded div_mult_mod_eq] assms(2)
    by (simp add: case_prod_unfold)
  then show ?thesis
    using False f [OF unit_texts(1)] f [OF unit_texts(2)] f [OF unit_texts(3)]
    by (simp add: small_duration_def Let_def case_prod_unfold)
qed

lemma read_large:
  assumes r: "exact_float64 rnd" and u: "u \<le> 2 ^ 63"
  shows "parse_terms rnd 0 (large_duration u) = Inr u"
proof -
  define s where "s = u div 10 ^ 9"
  define m where "m = s div 60"
  define h where "h = m div 60"
  have us: "u = s * 10 ^ 9 + u mod 10 ^ 9" and sm: "s = m * 60 + s mod 60" and mh: "m = h * 60 + m mod 60"
    by (simp_all add: s_def m_def h_def)
  let ?ts = "digits (s mod 60) @ fst (fmt_frac 9 False ''s'' u)"
  have S: "parse_terms rnd d ?ts = Inr (d + (s mod 60 * 10 ^ 9 + u mod 10 ^ 9))"
    if "d + (s mod 60 * 10 ^ 9 + u mod 10 ^ 9) \<le> 2 ^ 63" for d
    using parse_fraction [OF r unit_texts(4) _ that] by simp
  have ts: "is_digit (hd ?ts)" and tm: "is_digit (hd (digits (m mod 60) @ ''m'' @ ?ts))"
    using digits_parts by (simp_all add: hd_append)
  have M: "parse_terms rnd d (digits (m mod 60) @ ''m'' @ ?ts) =
      Inr (d + (m mod 60 * (60 * 10 ^ 9) + (s mod 60 * 10 ^ 9 + u mod 10 ^ 9)))"
    if "d + (m mod 60 * (60 * 10 ^ 9) + (s mod 60 * 10 ^ 9 + u mod 10 ^ 9)) \<le> 2 ^ 63" for d
    using parse_whole [OF unit_texts(5) disjI2 [OF ts], of d "m mod 60" rnd] that S [of "d + m mod 60 * (60 * 10 ^ 9)"]
    by (simp add: add.assoc)
  have H: "parse_terms rnd 0 (digits h @ ''h'' @ digits (m mod 60) @ ''m'' @ ?ts) = Inr u"
    using parse_whole [OF unit_texts(6) disjI2 [OF tm], of 0 h rnd] M [of "h * (3600 * 10 ^ 9)"] u us sm mh by simp
  have "large_duration u = (if m = 0 then ?ts else if h = 0 then digits (m mod 60) @ ''m'' @ ?ts
      else digits h @ ''h'' @ digits (m mod 60) @ ''m'' @ ?ts)"
    by (simp add: large_duration_def Let_def case_prod_unfold s_def m_def h_def)
  moreover have "parse_terms rnd 0 ?ts = Inr u" if "m = 0" using S [of 0] u us sm that by simp
  moreover have "parse_terms rnd 0 (digits (m mod 60) @ ''m'' @ ?ts) = Inr u" if "h = 0"
    using M [of 0] u us sm mh that by simp
  ultimately show ?thesis using H by presburger
qed

lemma duration_reads_back:
  assumes "exact_float64 rnd"
  shows "parse_duration rnd (duration_text (sint (d :: 64 word))) = Inr (sint d)"
proof -
  let ?u = "nat \<bar>sint d\<bar>"
  define t where "t = (if ?u < 10 ^ 9 then small_duration ?u else large_duration ?u)"
  have b: "- (2 ^ 63) \<le> sint d" "sint d < 2 ^ 63"
    using sint_greater_eq [of d] sint_less [of d] by simp_all
  then have p: "parse_terms rnd 0 t = Inr ?u"
    using read_small [OF assms, of ?u] read_large [OF assms, of ?u] by (simp add: t_def)
  have "parse_terms rnd 0 ''0'' = Inl MissingUnit"
    by (subst parse_terms.simps) (simp add: number_part_def is_digit_def digit_value_def Let_def)
  then have t0: "t \<noteq> ''0''" using p by auto
  have t1: "t \<noteq> ''''"
    using p by (cases "?u = 0") (auto simp: t_def small_duration_def parse_terms.simps [of _ _ "[]"])
  obtain c cs where c: "t = c # cs" using t1 by (cases t) auto
  have "c = CHR ''.'' \<or> is_digit c"
    using p unfolding c by (subst (asm) parse_terms.simps) (auto split: if_splits)
  then have "c \<noteq> CHR ''-''" "c \<noteq> CHR ''+''" by (auto simp: is_digit_def)
  then show ?thesis
    using p t0 t1 c b unfolding duration_text_def Let_def t_def [symmetric]
    by (cases "sint d < 0") (auto simp: parse_duration_def Let_def nat_less_iff not_less)
qed

end
