(* ===== verification/Options.thy ===== *)
theory Options imports Client Go_Duration begin

section \<open>Command line options (pkg/cmds/server)\<close>

text \<open>
  The options of the two processes: their defaults, what a flag on the command line sets, what is
  read from files, and validation.
\<close>

subsection \<open>The monitoring operator\<close>

record server_lib =
  \<comment> \<open>pure functions of the language and the libraries: rounding to float64 and float32, the text of a
     float, numbers read from text, and strict decoding of an \<open>AlertmanagerConfigSpec\<close>\<close>
  sl_float64 :: "real \<Rightarrow> real"
  sl_float32 :: "real \<Rightarrow> real"
  sl_parse_float :: "string \<Rightarrow> string + real"
  sl_parse_int :: "string \<Rightarrow> string + int"
  sl_show_float :: "real \<Rightarrow> string"
  sl_am_spec :: "string \<Rightarrow> string + (receiver list \<times> route option)"

record extra_options =
  eo_qps :: real
  eo_burst :: int
  eo_base_url :: string
  eo_token :: string
  eo_ca_file :: string
  eo_hub_uid :: string
  eo_rancher_secret :: string
  eo_am_file :: string

definition new_extra_options :: extra_options where
  "new_extra_options = \<lparr>eo_qps = 1000000, eo_burst = 1000000, eo_base_url = '''', eo_token = '''',
     eo_ca_file = '''', eo_hub_uid = '''', eo_rancher_secret = '''', eo_am_file = ''''\<rparr>"

definition add_extra_flags :: "extra_options \<Rightarrow> extra_options" where
  \<comment> \<open>\<open>AddFlags\<close>: registering a flag stores its default in the variable; the defaults of
     \<open>platform-ca-file\<close> and \<open>hubUID\<close> are the token\<close>
  "add_extra_flags o1 = o1\<lparr>eo_ca_file := eo_token o1, eo_hub_uid := eo_token o1\<rparr>"

definition set_extra_flag :: "string \<times> string \<Rightarrow> extra_options \<Rightarrow> extra_options" where
  \<comment> \<open>a text flag of the command line\<close>
  "set_extra_flag = (\<lambda>(n, v) o1.
     if n = ''baseURL'' then o1\<lparr>eo_base_url := v\<rparr>
     else if n = ''token'' then o1\<lparr>eo_token := v\<rparr>
     else if n = ''platform-ca-file'' then o1\<lparr>eo_ca_file := v\<rparr>
     else if n = ''hubUID'' then o1\<lparr>eo_hub_uid := v\<rparr>
     else if n = ''rancher-auth-secret'' then o1\<lparr>eo_rancher_secret := v\<rparr>
     else if n = ''alertmanager-config-file'' then o1\<lparr>eo_am_file := v\<rparr>
     else o1)"

record extra_config =
  xc_qps :: real
  xc_burst :: int
  xc_base_url :: string
  xc_token :: string
  xc_ca :: string
  xc_hub_uid :: string
  xc_rancher_secret :: string
  xc_am :: "receiver list \<times> route option"

definition the_file :: "response \<Rightarrow> string option" where
  "the_file a = (case a of RFile s \<Rightarrow> Some s | _ \<Rightarrow> None)"

definition read_file :: "string \<Rightarrow> string \<Rightarrow> ('s, string) M" where
  \<comment> \<open>\<open>os.ReadFile\<close> and \<open>errors.Wrapf\<close>\<close>
  "read_file what n = bnd (attempt (answer (ReadFileQ n) the_file)) (\<lambda>r. case r of
     Inl e \<Rightarrow> fail (Wrap (''failed to read '' @ what @ '' file '' @ n) e)
   | Inr s \<Rightarrow> ret s)"

definition read_am_spec :: "server_lib \<Rightarrow> string \<Rightarrow> ('s, receiver list \<times> route option) M" where
  "read_am_spec L n =
     bnd (read_file ''alertmanager config'' n) (\<lambda>s. case sl_am_spec L s of
       Inl m \<Rightarrow> fail (Wrap (''failed to parse alertmanager config file '' @ n) (Plain m))
     | Inr spec \<Rightarrow> ret spec)"

definition apply_extra :: "server_lib \<Rightarrow> extra_options \<Rightarrow> extra_config \<Rightarrow> ('s, extra_config) M" where
  \<comment> \<open>\<open>ExtraOptions.ApplyTo\<close>\<close>
  "apply_extra L o1 xc =
     bnd (if eo_am_file o1 \<noteq> '''' then read_am_spec L (eo_am_file o1) else ret (xc_am xc)) (\<lambda>am.
     bnd (if eo_ca_file o1 \<noteq> '''' then read_file ''CA'' (eo_ca_file o1) else ret (xc_ca xc)) (\<lambda>ca.
     ret \<lparr>xc_qps = sl_float32 L (eo_qps o1), xc_burst = eo_burst o1, xc_base_url = eo_base_url o1,
       xc_token = eo_token o1, xc_ca = ca, xc_hub_uid = eo_hub_uid o1,
       xc_rancher_secret = eo_rancher_secret o1, xc_am = am\<rparr>))"

subsection \<open>The Grafana operator\<close>

record grafana_options =
  go_master :: string
  go_kubeconfig :: string
  go_qps :: real
  go_burst :: int
  go_resync :: int                    \<comment> \<open>durations in nanoseconds\<close>
  go_max_requeues :: int
  go_threads :: int
  go_requeue_after :: requeue
  go_metrics_addr :: string
  go_leader_election :: bool
  go_probe_addr :: string

definition new_grafana_options :: grafana_options where
  "new_grafana_options = \<lparr>go_master = '''', go_kubeconfig = '''', go_qps = 1000000, go_burst = 1000000,
     go_resync = seconds 600, go_max_requeues = 5, go_threads = 2, go_requeue_after = seconds 60,
     go_metrics_addr = '':8080'', go_leader_election = False, go_probe_addr = '':8081''\<rparr>"

fun parse_bool :: "string \<Rightarrow> string + bool" where
  \<comment> \<open>\<open>strconv.ParseBool\<close>\<close>
  "parse_bool s =
     (if s \<in> set [''1'', ''t'', ''T'', ''true'', ''TRUE'', ''True''] then Inr True
      else if s \<in> set [''0'', ''f'', ''F'', ''false'', ''FALSE'', ''False''] then Inr False
      else Inl ''parse error'')"

definition duration_flag :: "server_lib \<Rightarrow> string \<Rightarrow> string + int" where
  \<comment> \<open>\<open>Set\<close> of a duration flag drops the reason\<close>
  "duration_flag L s = (case parse_duration (sl_float64 L) s of Inl _ \<Rightarrow> Inl ''parse error'' | Inr d \<Rightarrow> Inr d)"

definition set_grafana_flag :: "server_lib \<Rightarrow> string \<times> string \<Rightarrow> grafana_options \<Rightarrow> string + grafana_options" where
  \<comment> \<open>a flag of \<open>AddGoFlags\<close> on the command line; flags of other packages do not change these options\<close>
  "set_grafana_flag L = (\<lambda>(n, v) o1.
     if n = ''master'' then Inr (o1\<lparr>go_master := v\<rparr>)
     else if n = ''kubeconfig'' then Inr (o1\<lparr>go_kubeconfig := v\<rparr>)
     else if n = ''qps'' then map_sum id (\<lambda>x. o1\<lparr>go_qps := x\<rparr>) (sl_parse_float L v)
     else if n = ''burst'' then map_sum id (\<lambda>x. o1\<lparr>go_burst := x\<rparr>) (sl_parse_int L v)
     else if n = ''resync-period'' then map_sum id (\<lambda>x. o1\<lparr>go_resync := x\<rparr>) (duration_flag L v)
     else if n = ''requeue-after-duration'' then map_sum id (\<lambda>x. o1\<lparr>go_requeue_after := x\<rparr>) (duration_flag L v)
     else if n = ''metrics-bind-address'' then Inr (o1\<lparr>go_metrics_addr := v\<rparr>)
     else if n = ''health-probe-bind-address'' then Inr (o1\<lparr>go_probe_addr := v\<rparr>)
     else if n = ''leader-elect'' then map_sum id (\<lambda>x. o1\<lparr>go_leader_election := x\<rparr>) (parse_bool v)
     else Inr o1)"

fun set_grafana_flags :: "server_lib \<Rightarrow> (string \<times> string) list \<Rightarrow> grafana_options \<Rightarrow> string + grafana_options" where
  "set_grafana_flags L [] o1 = Inr o1"
| "set_grafana_flags L (f # fs) o1 = (case set_grafana_flag L f o1 of
     Inl e \<Rightarrow> Inl e | Inr o2 \<Rightarrow> set_grafana_flags L fs o2)"

definition grafana_validate :: "server_lib \<Rightarrow> grafana_options \<Rightarrow> string list" where
  \<comment> \<open>\<open>GrafanaOperatorOptions.Validate\<close>: the texts of the errors\<close>
  "grafana_validate L o1 = (let t = duration_text (go_requeue_after o1) in
     case parse_duration (sl_float64 L) t of Inl e \<Rightarrow> [duration_error_text t e] | Inr _ \<Rightarrow> [])"

text \<open>
  C38: for every 64-bit duration, the text that \<open>String\<close> prints is a value of the flag
  \<open>requeue-after-duration\<close> that sets exactly this duration, and \<open>Validate\<close> accepts the options with it,
  as long as \<open>float64\<close> holds the integers up to \<open>2 ^ 53\<close>.
\<close>

theorem duration_flag_reads_back:
  assumes "exact_float64 (sl_float64 L)"
  shows "set_grafana_flag L (''requeue-after-duration'', duration_text (sint (d :: 64 word))) o1 =
      Inr (o1\<lparr>go_requeue_after := sint d\<rparr>) \<and>
    grafana_validate L (o1\<lparr>go_requeue_after := sint d\<rparr>) = []"
  using duration_reads_back [OF assms, of d]
  by (simp add: set_grafana_flag_def duration_flag_def grafana_validate_def Let_def)

definition plain_lib :: server_lib where
  "plain_lib = \<lparr>sl_float64 = (\<lambda>x. x), sl_float32 = (\<lambda>x. x), sl_parse_float = (\<lambda>_. Inr 0), sl_parse_int = (\<lambda>_. Inr 0),
     sl_show_float = (\<lambda>_. ''0''), sl_am_spec = (\<lambda>_. Inl ''no configuration'')\<rparr>"

lemma duration_flag_reads_back_witness:
  "grafana_validate plain_lib (new_grafana_options\<lparr>go_requeue_after := sint (90500000000 :: 64 word)\<rparr>) = [] \<and>
   set_grafana_flag plain_lib (''requeue-after-duration'', duration_text (sint (90500000000 :: 64 word))) new_grafana_options =
     Inr (new_grafana_options\<lparr>go_requeue_after := 90500000000\<rparr>)"
  using duration_flag_reads_back [of plain_lib 90500000000 new_grafana_options]
  by (simp add: exact_float64_def plain_lib_def)

end
