(* ===== verification/Startup.thy ===== *)
theory Startup imports Wiring Options begin

section \<open>The two processes (pkg/cmds, pkg/apiserver)\<close>

text \<open>
  \<open>monitoring-operator\<close> builds the API server and a manager, and registers which
  controllers to set up once the cluster has a CustomResourceDefinition; the reconciler of
  CustomResourceDefinitions then sets them up, each group once.  \<open>grafana-operator\<close> registers its own
  CustomResourceDefinitions and sets its three controllers up at once.  The steps that the server
  libraries take are requests of the environment, named after the function; \<open>os.Exit\<close> ends the run.
\<close>

subsection \<open>Library steps and ends of the process\<close>

definition lib :: "string \<Rightarrow> smap \<Rightarrow> ('s, unit) M" where
  "lib f settings = answer (LibQ f settings) the_done"

definition or_exit :: "('s, 'a) M \<Rightarrow> ('s, 'a) M" where
  \<comment> \<open>an error that is logged before \<open>os.Exit(1)\<close>\<close>
  "or_exit m = bnd (attempt m) (\<lambda>r. case r of
     Inl e \<Rightarrow> bnd (send ExitQ) (\<lambda>_. panic ''exit status 1'')
   | Inr x \<Rightarrow> ret x)"

definition or_die :: "('s, 'a) M \<Rightarrow> ('s, 'a) M" where
  \<comment> \<open>the \<open>OrDie\<close> functions panic\<close>
  "or_die m = bnd (attempt m) (\<lambda>r. case r of Inl e \<Rightarrow> panic (err_msg e) | Inr x \<Rightarrow> ret x)"

definition plain_wrap :: "string \<Rightarrow> ('s, 'a) M \<Rightarrow> ('s, 'a) M" where
  \<comment> \<open>\<open>fmt.Errorf\<close> with \<open>%v\<close>\<close>
  "plain_wrap msg m = bnd (attempt m) (\<lambda>r. case r of
     Inl e \<Rightarrow> fail (Plain (msg @ err_msg e)) | Inr x \<Rightarrow> ret x)"

definition index_field :: "kind \<Rightarrow> string \<Rightarrow> ('s, unit) M" where
  "index_field K f = answer (IndexQ K f) the_done"

definition start_controller :: "'s controller \<Rightarrow> ('t, unit) M" where
  "start_controller c = or_exit (setup_with_manager c)"

definition title_index_key :: string where "title_index_key = ''.dashboard.title''"

subsection \<open>The monitoring operator\<close>

type_synonym group_kind = "string \<times> string"

type_synonym 's registry = "(group_kind \<times> 's controller list) list"

definition cluster_uid :: "('s, string) M" where
  "cluster_uid = bnd (kget_uncached v_ns ('''', ''kube-system'')) (\<lambda>ns. ret (om_uid (ns_meta ns)))"

definition hub_of :: "codec \<Rightarrow> extra_config \<Rightarrow> gerr + hub_client option" where
  "hub_of C xc = (if xc_base_url xc \<noteq> '''' \<and> xc_token xc \<noteq> ''''
     then map_sum (\<lambda>e. e) Some (new_hub_client C (xc_base_url xc) (xc_token xc) (xc_ca xc)) else Inr None)"

definition monitoring_registry ::
    "string \<Rightarrow> extra_config \<Rightarrow> string \<Rightarrow> hub_client option \<Rightarrow> 's registry" where
  \<comment> \<open>what \<open>RegisterSetup\<close> has put into \<open>setupFns\<close>\<close>
  "monitoring_registry self xc cid hub =
     [((''monitoring.coreos.com'', ''Prometheus''),
        [org_controller \<lparr>ro_hub = hub, ro_cluster_uid = cid, ro_hub_uid = xc_hub_uid xc\<rparr>,
         prometheus_controller \<lparr>rp_hub = hub, rp_cluster_uid = cid, rp_hub_uid = xc_hub_uid xc,
           rp_rancher_secret = xc_rancher_secret xc, rp_self_ns = self\<rparr>]),
      ((''monitoring.coreos.com'', ''Alertmanager''),
        [alertmanager_controller \<lparr>ar_cluster_uid = cid, ar_receivers = fst (xc_am xc), ar_route = snd (xc_am xc)\<rparr>]),
      ((''monitoring.coreos.com'', ''ServiceMonitor''), [auto_controller, federation_controller])]"

definition monitoring_indexes :: "('s, unit) M" where
  "monitoring_indexes =
     for_each (\<lambda>(K, f). index_field K f)
       [(KAppBinding, default_grafana_key), (KGrafanaDashboard, default_grafana_key),
        (KGrafanaDashboard, title_index_key), (KAppBinding, default_perses_key),
        (KPersesDashboard, default_perses_key), (KPersesDashboard, title_index_key)]"

definition server_settings :: smap where
  \<comment> \<open>what \<open>Config\<close> sets on the recommended configuration\<close>
  "server_settings = [(''EffectiveVersion'', ''v1.0.0''),
     (''OpenAPIConfig.Info.Title'', ''monitoring-operator''), (''OpenAPIConfig.Info.Version'', ''v0.0.1''),
     (''OpenAPIV3Config.Info.Title'', ''monitoring-operator''), (''OpenAPIV3Config.Info.Version'', ''v0.0.1'')]"

definition monitoring_manager :: "('s, unit) M" where
  "monitoring_manager = plain_wrap ''unable to start manager, reason: '' (lib ''ctrl.NewManager''
     [(''Metrics.BindAddress'', ''''), (''HealthProbeBindAddress'', ''''), (''LeaderElection'', ''false''),
      (''LeaderElectionID'', ''5b87adeb.ui.openviz.dev''), (''Client.Cache.DisableFor'', ''Pod'')])"

definition serve_dashboard_groups :: "('s, unit) M" where
  "serve_dashboard_groups =
     seq (or_die (lib ''authorizer.NewForManagerOrDie'' []))
     (lib ''InstallAPIGroup'' [(''group'', ''ui.openviz.dev''), (''v1alpha1'', ''dashboardgroups'')])"

definition monitoring_new :: "string \<Rightarrow> extra_config \<Rightarrow> ('s, 's registry) M" where
  \<comment> \<open>\<open>completedConfig.New\<close>\<close>
  "monitoring_new self xc =
     seq (lib ''GenericConfig.New'' [(''name'', ''ui-server'')])
     (seq (plain_wrap ''unable to start manager, reason: '' (lib ''ctrl.NewManager''
        [(''Metrics.BindAddress'', ''''), (''HealthProbeBindAddress'', ''''), (''LeaderElection'', ''false''),
         (''LeaderElectionID'', ''5b87adeb.ui.openviz.dev''), (''Client.Cache.DisableFor'', ''Pod'')]))
     (bnd cluster_uid (\<lambda>cid.
      bnd pures (\<lambda>C.
      bnd (lift_sum (hub_of C xc)) (\<lambda>hub.
      seq (or_exit (lib ''apiextensions.SetupWithManager'' []))
      (seq (if xc_rancher_secret xc \<noteq> '''' then start_controller (token_controller self (xc_rancher_secret xc) :: 's controller)
            else ret ())
      (seq monitoring_indexes
      (seq serve_dashboard_groups
      (ret (monitoring_registry self xc cid hub))))))))))"

definition monitoring_config :: "server_lib \<Rightarrow> extra_options \<Rightarrow> extra_config \<Rightarrow> ('s, extra_config) M" where
  \<comment> \<open>\<open>MonitoringOperatorOptions.Config\<close>; the given configuration holds what the recommended options set\<close>
  "monitoring_config L o1 xc =
     seq (plain_wrap ''error creating self-signed certificates: ''
       (lib ''SecureServing.MaybeDefaultWithSelfSignedCerts'' [(''host'', ''localhost''), (''ip'', ''127.0.0.1'')]))
     (seq (lib ''RecommendedOptions.ApplyTo'' [])
     (apply_extra L o1 xc))"

definition the_crd :: "response \<Rightarrow> group_kind option" where
  "the_crd a = (case a of RCrd g k \<Rightarrow> Some (g, k) | _ \<Rightarrow> None)"

definition crd_reconcile :: "'s registry \<Rightarrow> group_kind list \<Rightarrow> string \<Rightarrow> ('s, group_kind list) M" where
  \<comment> \<open>\<open>apiextensions.Reconciler.Reconcile\<close> with \<open>setupDone\<close> before and after\<close>
  "crd_reconcile reg seen n =
     bnd (attempt (answer (CrdQ n) the_crd)) (\<lambda>r. case r of
       Inl e \<Rightarrow> if is_not_found e then ret seen else fail e
     | Inr gk \<Rightarrow>
         if gk \<in> set seen then ret seen
         else (case map_of reg gk of
           None \<Rightarrow> ret seen
         | Some cs \<Rightarrow> seq (for_each start_controller cs) (ret (gk # seen))))"

fun crd_events :: "'s registry \<Rightarrow> group_kind list \<Rightarrow> string list \<Rightarrow> ('s, unit) M" where
  \<comment> \<open>the queue of the reconciler: a returned error leaves \<open>setupDone\<close> as it is\<close>
  "crd_events reg seen [] = ret ()"
| "crd_events reg seen (n # ns) =
     bnd (attempt (crd_reconcile reg seen n)) (\<lambda>r. case r of
       Inl e \<Rightarrow> crd_events reg seen ns
     | Inr seen1 \<Rightarrow> crd_events reg seen1 ns)"

definition monitoring_run ::
    "server_lib \<Rightarrow> string \<Rightarrow> extra_options \<Rightarrow> extra_config \<Rightarrow> string list \<Rightarrow> ('s, unit) M" where
  \<comment> \<open>\<open>MonitoringOperatorOptions.Run\<close> over the CustomResourceDefinitions that are queued while it runs;
     \<open>Manager.Start\<close> is the request that starts the manager\<close>
  "monitoring_run L self o1 xc crds =
     bnd (monitoring_config L o1 xc) (\<lambda>xc1.
     bnd (monitoring_new self xc1) (\<lambda>reg.
     seq (or_die (lib ''AddPostStartHookOrDie'' [(''name'', ''start-monitoring-operator-informers'')]))
     (seq (lib ''Manager.Add'' [])
     (seq (lib ''Manager.Start'' [])
     (crd_events reg [] crds)))))"

subsection \<open>The Grafana operator\<close>

definition own_crds :: "string list" where
  "own_crds = [''grafanadashboards.openviz.dev'', ''grafanadatasources.openviz.dev'',
     ''persesdashboards.openviz.dev'', ''appbindings.appcatalog.appscode.com'']"

definition apply_crd :: "string \<Rightarrow> ('s, unit) M" where
  \<comment> \<open>the body of the loop of \<open>RegisterWithOpts\<close>\<close>
  "apply_crd n = bnd (attempt (answer (CrdApplyQ n) the_done)) (\<lambda>r. case r of
     Inl e \<Rightarrow> if is_already_exists e then ret () else fail e
   | Inr _ \<Rightarrow> ret ())"

definition ensure_crds :: "('s, unit) M" where
  \<comment> \<open>\<open>EnsureCustomResourceDefinitions\<close>\<close>
  "ensure_crds = seq (for_each apply_crd own_crds) (lib ''WaitForCRDReady'' [])"

definition show_bool :: "bool \<Rightarrow> string" where
  "show_bool b = (if b then ''true'' else ''false'')"

definition grafana_manager :: "server_lib \<Rightarrow> grafana_options \<Rightarrow> ('s, unit) M" where
  "grafana_manager L o1 = lib ''manager.New''
     [(''QPS'', sl_show_float L (sl_float32 L (go_qps o1))), (''Burst'', itoa (go_burst o1)),
      (''Metrics.BindAddress'', go_metrics_addr o1), (''HealthProbeBindAddress'', go_probe_addr o1),
      (''LeaderElection'', show_bool (go_leader_election o1)),
      (''LeaderElectionID'', ''f14948a0.grafana-operator.openviz.dev''),
      (''Cache.SyncPeriod'', itoa (go_resync o1))]"

definition grafana_controllers :: "grafana_options \<Rightarrow> 's controller list" where
  "grafana_controllers o1 = [dashboard_controller (go_requeue_after o1), perses_controller (go_requeue_after o1),
     datasource_controller]"

definition fatal :: "('s, 'a) M \<Rightarrow> ('s, 'a) M" where
  \<comment> \<open>\<open>klog.Fatalf\<close> ends the process with status 255\<close>
  "fatal m = bnd (attempt m) (\<lambda>r. case r of
     Inl e \<Rightarrow> bnd (send ExitQ) (\<lambda>_. panic ''exit status 255'')
   | Inr x \<Rightarrow> ret x)"

definition grafana_run :: "server_lib \<Rightarrow> grafana_options \<Rightarrow> ('s, unit) M" where
  \<comment> \<open>\<open>GrafanaOperatorOptions.Run\<close>\<close>
  "grafana_run L o1 =
     seq (fatal (lib ''clientcmd.BuildConfigFromFlags'' [(''master'', go_master o1), (''kubeconfig'', go_kubeconfig o1)]))
     (seq (or_exit (lib ''crd_cs.NewForConfig'' []))
     (seq (or_exit ensure_crds)
     (seq (or_exit (grafana_manager L o1))
     (seq (or_exit (index_field KAppBinding default_grafana_key))
     (seq (or_exit (index_field KAppBinding default_perses_key))
     (seq (for_each start_controller (grafana_controllers o1 :: 's controller list))
     (seq (or_exit (lib ''AddHealthzCheck'' []))
     (seq (or_exit (lib ''AddReadyzCheck'' []))
     (or_exit (lib ''Manager.Start'' []))))))))))"

subsection \<open>The commands\<close>

definition monitoring_command ::
    "server_lib \<Rightarrow> string \<Rightarrow> extra_options \<Rightarrow> extra_config \<Rightarrow> string list \<Rightarrow> ('s, unit) M" where
  \<comment> \<open>\<open>RunE\<close>: \<open>Complete\<close> does nothing, \<open>Validate\<close> asks the recommended options only\<close>
  "monitoring_command L self o1 xc crds =
     seq (lib ''RecommendedOptions.Validate'' []) (monitoring_run L self o1 xc crds)"

definition grafana_command :: "server_lib \<Rightarrow> grafana_options \<Rightarrow> ('s, unit) M" where
  "grafana_command L o1 = (case grafana_validate L o1 of
     [] \<Rightarrow> grafana_run L o1
   | es \<Rightarrow> fail (Plain (join '', '' es)))"

subsection \<open>What each part can send\<close>

fun sets_up :: "string set \<Rightarrow> event \<Rightarrow> bool" where
  \<comment> \<open>a controller with a name in S is built\<close>
  "sets_up S (SetupQ n Ks, _) = (n \<in> S)"
| "sets_up S _ = False"

fun has_crd :: "group_kind \<Rightarrow> event \<Rightarrow> bool" where
  \<comment> \<open>the API server has a CustomResourceDefinition of this group and kind\<close>
  "has_crd gk (CrdQ n, RCrd g k) = (gk = (g, k))"
| "has_crd gk _ = False"

fun starts_manager :: "event \<Rightarrow> bool" where
  "starts_manager (LibQ f s, _) = (f = ''Manager.Start'')"
| "starts_manager _ = False"

fun setup_name :: "event \<Rightarrow> string list" where
  "setup_name (SetupQ n Ks, _) = [n]"
| "setup_name _ = []"

definition setup_names :: "event list \<Rightarrow> string list" where
  "setup_names es = concat (map setup_name es)"

lemma setup_names_append [simp]:
  "setup_names [] = []" "setup_names (es @ es') = setup_names es @ setup_names es'"
  "setup_names (e # es) = setup_name e @ setup_names es"
  by (simp_all add: setup_names_def)

lemma setup_names_Nil: "\<forall>e \<in> set es. \<not> sets_up UNIV e \<Longrightarrow> setup_names es = []"
proof (induction es)
  case (Cons e es)
  then show ?case by (cases e rule: setup_name.cases) auto
qed simp

lemma never_steps [trace_intros]:
  "(\<And>a. \<not> q (LibQ f s, a)) \<Longrightarrow> never q (lib f s)"
  "(\<And>a. \<not> q (IndexQ K f, a)) \<Longrightarrow> never q (index_field K f)"
  "(\<And>a. \<not> q (CrdApplyQ n, a)) \<Longrightarrow> never q (apply_crd n)"
  "(\<And>a. \<not> q (ReadFileQ n, a)) \<Longrightarrow> never q (read_file what n)"
  "(\<And>a. \<not> q (SetupQ (controller_name c) (watched_kinds c), a)) \<Longrightarrow> never q (setup_with_manager c)"
  unfolding lib_def index_field_def apply_crd_def read_file_def setup_with_manager_def
  by (auto split: sum.split intro!: trace_intros)

lemma never_ends [trace_intros]:
  "never q m \<Longrightarrow> (\<And>a. \<not> q (ExitQ, a)) \<Longrightarrow> never q (or_exit m)"
  "never q m \<Longrightarrow> (\<And>a. \<not> q (ExitQ, a)) \<Longrightarrow> never q (fatal m)"
  "never q m \<Longrightarrow> never q (or_die m)" "never q m \<Longrightarrow> never q (plain_wrap msg m)"
  unfolding or_exit_def fatal_def or_die_def plain_wrap_def
  by (auto split: sum.split intro!: trace_intros)

lemma never_config [trace_intros]:
  "(\<And>f s a. f \<noteq> ''Manager.Start'' \<Longrightarrow> \<not> q (LibQ f s, a)) \<Longrightarrow> (\<And>n a. \<not> q (ReadFileQ n, a)) \<Longrightarrow>
   never q (monitoring_config L o1 xc)"
  unfolding monitoring_config_def apply_extra_def read_am_spec_def
  by (auto split: sum.split intro!: trace_intros)

lemma never_ensure_crds [trace_intros]:
  "(\<And>n a. \<not> q (CrdApplyQ n, a)) \<Longrightarrow> (\<And>a. \<not> q (LibQ ''WaitForCRDReady'' [], a)) \<Longrightarrow> never q ensure_crds"
  unfolding ensure_crds_def by (auto intro!: trace_intros)

lemma never_indexes [trace_intros]: "(\<And>K f a. \<not> q (IndexQ K f, a)) \<Longrightarrow> never q monitoring_indexes"
  unfolding monitoring_indexes_def by (auto intro!: trace_intros)

lemma never_new:
  assumes "\<And>f s a. f \<noteq> ''Manager.Start'' \<Longrightarrow> \<not> q (LibQ f s, a)" "\<And>K f a. \<not> q (IndexQ K f, a)" "\<And>a. \<not> q (ExitQ, a)"
    and "\<And>K k a. \<not> q (GetUncached K k, a)" "\<And>Ks a. \<not> q (SetupQ ''secret'' Ks, a)"
  shows "never q (monitoring_new self xc)"
  unfolding monitoring_new_def monitoring_manager_def serve_dashboard_groups_def cluster_uid_def start_controller_def
  by (auto simp: assms intro!: trace_intros)

subsection \<open>The monitoring operator sets each controller up once\<close>

definition crd_controllers :: "group_kind \<Rightarrow> string set" where
  "crd_controllers gk =
     (if gk = (''monitoring.coreos.com'', ''Prometheus'') then {''namespace'', ''prometheus''}
      else if gk = (''monitoring.coreos.com'', ''Alertmanager'') then {''alertmanager''}
      else if gk = (''monitoring.coreos.com'', ''ServiceMonitor'')
      then {''servicemonitor-auto'', ''servicemonitor-federation''} else {})"

definition group_names :: "'s controller list \<Rightarrow> string list" where
  "group_names cs = map controller_name cs"

definition fresh_names :: "'s registry \<Rightarrow> group_kind list \<Rightarrow> string set" where
  \<comment> \<open>the controllers that are still to be set up\<close>
  "fresh_names reg seen = {n. \<exists>gk cs. (gk, cs) \<in> set reg \<and> gk \<notin> set seen \<and> n \<in> set (group_names cs)}"

definition registry_ok :: "'s registry \<Rightarrow> bool" where
  "registry_ok reg = (distinct (concat (map (group_names \<circ> snd) reg)) \<and> distinct (map fst reg))"

lemma holds_answer_only:
  "holds (answer q g) (\<lambda>r es. (\<exists>a. es = [(q, a)] \<and> (\<forall>x. r = Ok x \<longrightarrow> g a = Some x \<and> \<not> failed a)) \<and> (\<forall>p. r \<noteq> Panic p))"
  by (rule holds_answer) auto

lemma holds_attempt_answer:
  "holds (attempt (answer q g)) (\<lambda>r es. \<exists>a y. es = [(q, a)] \<and> r = Ok y \<and> (\<forall>x. y = Inr x \<longrightarrow> g a = Some x))"
  by (rule holds_attempt [OF holds_answer_only]) auto

lemma holds_start_controller:
  "holds (start_controller c) (\<lambda>r es. setup_names es = [controller_name c] \<and> (\<forall>e. r \<noteq> Err e))"
  unfolding start_controller_def or_exit_def setup_with_manager_def
proof (rule holds_bnd [OF holds_attempt_answer])
  fix y :: "gerr + unit" and es
  assume "\<exists>a z. es = [(SetupQ (controller_name c) (watched_kinds c), a)] \<and> Ok y = Ok z \<and>
    (\<forall>x. z = Inr x \<longrightarrow> the_done a = Some x)"
  then have n: "setup_names es = [controller_name c]" by auto
  have "holds (bnd (send ExitQ) (\<lambda>_. panic ''exit status 1''))
      (\<lambda>r es'. setup_names (es @ es') = [controller_name c] \<and> (\<forall>e. r \<noteq> Err e))"
    by (rule holds_bnd [where \<Psi> = "\<lambda>r es'. setup_names es' = [] \<and> (\<exists>x. r = Ok x)"]) (auto simp: n intro: holds_send)
  then show "holds (case y of Inl e \<Rightarrow> bnd (send ExitQ) (\<lambda>_. panic ''exit status 1'') | Inr x \<Rightarrow> ret x)
      (\<lambda>r es'. setup_names (es @ es') = [controller_name c] \<and> (\<forall>e. r \<noteq> Err e))"
    by (cases y) (simp_all add: n)
qed auto

lemma holds_start_controllers:
  "holds (for_each start_controller cs) (\<lambda>r es. \<exists>rest. group_names cs = setup_names es @ rest \<and>
     (\<forall>e. r \<noteq> Err e) \<and> (r = Ok () \<longrightarrow> rest = []))"
proof (induction cs)
  case (Cons c cs)
  show ?case
    unfolding for_each.simps
    by (rule holds_bnd [OF holds_start_controller])
       (use Cons in \<open>auto simp: group_names_def elim!: holds_mono\<close>)
qed (simp add: group_names_def)

definition one_group :: "'s registry \<Rightarrow> group_kind list \<Rightarrow> group_kind list outcome \<Rightarrow> event list \<Rightarrow> bool" where
  \<comment> \<open>a run of the reconciler sets up no controller, or those of one group that was not set up\<close>
  "one_group reg seen r es =
     ((setup_names es = [] \<and> (\<forall>d. r = Ok d \<longrightarrow> d = seen)) \<or>
      (\<exists>gk cs rest. gk \<notin> set seen \<and> map_of reg gk = Some cs \<and> group_names cs = setup_names es @ rest \<and>
        (\<forall>e. r \<noteq> Err e) \<and> (\<forall>d. r = Ok d \<longrightarrow> rest = [] \<and> d = gk # seen)))"

lemma one_groupI:
  "gk \<notin> set seen \<Longrightarrow> map_of reg gk = Some cs \<Longrightarrow> group_names cs = setup_names es @ rest \<Longrightarrow> (\<And>e. r \<noteq> Err e) \<Longrightarrow>
   (\<And>d. r = Ok d \<Longrightarrow> rest = [] \<and> d = gk # seen) \<Longrightarrow> one_group reg seen r es"
  "setup_names es = [] \<Longrightarrow> (\<And>d. r = Ok d \<Longrightarrow> d = seen) \<Longrightarrow> one_group reg seen r es"
  unfolding one_group_def by blast+

lemma holds_crd_reconcile: "holds (crd_reconcile reg seen n) (one_group reg seen)"
  unfolding crd_reconcile_def
proof (rule holds_bnd [OF holds_attempt_answer])
  fix y :: "gerr + group_kind" and es
  assume "\<exists>a z. es = [(CrdQ n, a)] \<and> Ok y = Ok z \<and> (\<forall>x. z = Inr x \<longrightarrow> the_crd a = Some x)"
  then have n: "setup_names es = []" by auto
  have keep: "one_group reg seen (Ok seen) es" "one_group reg seen (Err e) es" for e
    using n by (simp_all add: one_group_def)
  have set_up: "holds (seq (for_each start_controller cs) (ret (gk # seen))) (\<lambda>r es'. one_group reg seen r (es @ es'))"
    if "gk \<notin> set seen" "map_of reg gk = Some cs" for gk cs
    by (rule holds_bnd [OF holds_start_controllers]) (use n in \<open>auto intro: one_groupI(1) [OF that]\<close>)
  show "holds (case y of Inl e \<Rightarrow> if is_not_found e then ret seen else fail e
      | Inr gk \<Rightarrow> (if gk \<in> set seen then ret seen else (case map_of reg gk of None \<Rightarrow> ret seen
         | Some cs \<Rightarrow> seq (for_each start_controller cs) (ret (gk # seen))))) (\<lambda>r es'. one_group reg seen r (es @ es'))"
    using keep set_up by (auto split: sum.split option.split)
qed (auto simp: one_group_def)

lemma distinct_concat_disjoint:
  "distinct (concat (map f xs)) \<Longrightarrow> x \<in> set xs \<Longrightarrow> y \<in> set xs \<Longrightarrow> x \<noteq> y \<Longrightarrow> set (f x) \<inter> set (f y) = {}"
  by (induction xs) auto

lemma distinct_concat_each: "distinct (concat (map f xs)) \<Longrightarrow> x \<in> set xs \<Longrightarrow> distinct (f x)"
  by (induction xs) auto

lemma one_group_fresh:
  assumes ok: "registry_ok reg" and run: "one_group reg seen r es"
  shows "distinct (setup_names es) \<and> set (setup_names es) \<subseteq> fresh_names reg seen \<and>
    (\<forall>d. r = Ok d \<longrightarrow> fresh_names reg d \<subseteq> fresh_names reg seen - set (setup_names es))"
proof (cases "setup_names es = [] \<and> (\<forall>d. r = Ok d \<longrightarrow> d = seen)")
  case False
  with run obtain gk cs rest where g: "gk \<notin> set seen" "map_of reg gk = Some cs" "group_names cs = setup_names es @ rest"
    "\<And>d. r = Ok d \<Longrightarrow> rest = [] \<and> d = gk # seen"
    unfolding one_group_def by blast
  have mem: "(gk, cs) \<in> set reg" using g(2) by (rule map_of_SomeD)
  have apart: "set (group_names cs) \<inter> set (group_names cs') = {}" if "(gk', cs') \<in> set reg" "gk' \<noteq> gk" for gk' cs'
    using distinct_concat_disjoint [of "group_names \<circ> snd" reg "(gk, cs)" "(gk', cs')"] ok mem that
    by (auto simp: registry_ok_def)
  have "distinct (group_names cs)"
    using distinct_concat_each [of "group_names \<circ> snd" reg "(gk, cs)"] ok mem by (simp add: registry_ok_def)
  moreover have "set (group_names cs) \<subseteq> fresh_names reg seen"
    using mem g(1) unfolding fresh_names_def by blast
  moreover have "fresh_names reg (gk # seen) \<subseteq> fresh_names reg seen - set (group_names cs)"
    using apart by (auto simp: fresh_names_def)
  ultimately show ?thesis using g(3,4) by auto
qed auto

lemma one_group_err: "one_group reg seen (Err e) es \<Longrightarrow> setup_names es = []"
  unfolding one_group_def by blast

lemma holds_crd_events:
  assumes ok: "registry_ok reg"
  shows "holds (crd_events reg seen ns) (\<lambda>r es. distinct (setup_names es) \<and> set (setup_names es) \<subseteq> fresh_names reg seen)"
proof (induction ns arbitrary: seen)
  case (Cons n ns)
  let ?\<Phi> = "\<lambda>y es. distinct (setup_names es) \<and> set (setup_names es) \<subseteq> fresh_names reg seen \<and>
    (\<forall>d. y = Inr d \<longrightarrow> fresh_names reg d \<subseteq> fresh_names reg seen - set (setup_names es)) \<and>
    (\<forall>e. y = Inl e \<longrightarrow> setup_names es = [])"
  have step: "holds (attempt (crd_reconcile reg seen n)) (\<lambda>r es. case r of Ok y \<Rightarrow> ?\<Phi> y es
      | _ \<Rightarrow> distinct (setup_names es) \<and> set (setup_names es) \<subseteq> fresh_names reg seen)"
    by (rule holds_attempt [OF holds_crd_reconcile])
       (simp_all add: one_group_fresh [OF ok] one_group_err)
  show ?case
    unfolding crd_events.simps
  proof (rule holds_bnd [OF step])
    fix y :: "gerr + group_kind list" and es
    assume P: "case Ok y of Ok y \<Rightarrow> ?\<Phi> y es
      | _ \<Rightarrow> distinct (setup_names es) \<and> set (setup_names es) \<subseteq> fresh_names reg seen"
    show "holds (case y of Inl e \<Rightarrow> crd_events reg seen ns | Inr seen1 \<Rightarrow> crd_events reg seen1 ns)
      (\<lambda>r es'. distinct (setup_names (es @ es')) \<and> set (setup_names (es @ es')) \<subseteq> fresh_names reg seen)"
    proof (cases y)
      case (Inl e)
      then show ?thesis using P holds_mono [OF Cons [of seen]] by simp
    next
      case (Inr d)
      show ?thesis unfolding Inr sum.case
        by (rule holds_mono [OF Cons [of d]]) (use P Inr in auto)
    qed
  qed auto
qed simp

definition once :: "string set \<Rightarrow> ('s, 'a) M \<Rightarrow> bool" where
  \<comment> \<open>no run sets up a controller twice, and none outside S\<close>
  "once S m = holds m (\<lambda>_ es. distinct (setup_names es) \<and> set (setup_names es) \<subseteq> S)"

lemma once_never: "never (sets_up UNIV) m \<Longrightarrow> once S m"
  unfolding once_def never_def by (erule holds_mono) (simp add: setup_names_Nil)

lemma once_bnd:
  assumes R: "returns R m" and m: "once A m" and f: "\<And>x. R x \<Longrightarrow> once B (f x)" and S: "A \<inter> B = {}" "A \<union> B \<subseteq> S"
  shows "once S (bnd m f)"
  unfolding once_def
proof (rule holds_bnd [OF holds_conj [OF R [unfolded returns_def] m [unfolded once_def]]])
  fix x es
  assume P: "(\<forall>y. Ok x = Ok y \<longrightarrow> R y) \<and> distinct (setup_names es) \<and> set (setup_names es) \<subseteq> A"
  then have "once B (f x)" using f by simp
  then show "holds (f x) (\<lambda>r es'. distinct (setup_names (es @ es')) \<and> set (setup_names (es @ es')) \<subseteq> S)"
    unfolding once_def by (rule holds_mono) (use P S in auto)
qed (use S in auto)

lemmas once_step = once_bnd [OF returns_top]

lemma once_after: "never (sets_up UNIV) m \<Longrightarrow> (\<And>x. once S (f x)) \<Longrightarrow> once S (bnd m f)"
  by (rule once_step [where A = "{}" and B = S]) (simp_all add: once_never)

lemma once_start_controller: "controller_name c \<in> S \<Longrightarrow> once S (start_controller c)"
  unfolding once_def by (rule holds_mono [OF holds_start_controller]) auto

lemma once_crd_events: "registry_ok reg \<Longrightarrow> fresh_names reg [] \<subseteq> S \<Longrightarrow> once S (crd_events reg [] ns)"
  unfolding once_def by (rule holds_mono [OF holds_crd_events]) auto

lemma never_sets_up:
  "never (sets_up S) (lib f st)" "never (sets_up S) (or_exit (lib f st))" "never (sets_up S) (or_die (lib f st))"
  "never (sets_up S) (plain_wrap msg (lib f st))" "never (sets_up S) cluster_uid" "never (sets_up S) monitoring_indexes"
  by (auto simp: cluster_uid_def intro!: trace_intros)

lemma once_token_controller:
  "once {''secret''} (if n \<noteq> '''' then start_controller (token_controller self n) else ret ())"
  by (auto intro: once_start_controller once_never trace_intros)

lemma once_monitoring_new: "once {''secret''} (monitoring_new self xc)"
proof -
  have tok: "once {''secret''} (seq (if xc_rancher_secret xc \<noteq> ''''
        then start_controller (token_controller self (xc_rancher_secret xc)) else ret ()) m)"
    if "never (sets_up UNIV) m" for m :: "('s, 's registry) M"
    by (rule once_step [OF once_token_controller once_never [OF that], where B = "{}"]) simp_all
  show ?thesis
    unfolding monitoring_new_def monitoring_manager_def serve_dashboard_groups_def
    by (intro once_after tok never_sets_up never_pures never_lift_sum never_bnd never_ret)
qed

lemma registry_known:
  "registry_ok (monitoring_registry self xc cid hub)"
  "fresh_names (monitoring_registry self xc cid hub) [] \<subseteq> UNIV - {''secret''}"
  by (auto simp: registry_ok_def fresh_names_def monitoring_registry_def group_names_def)

definition known_registry :: "'s registry \<Rightarrow> bool" where
  "known_registry reg = (\<exists>self xc cid hub. reg = monitoring_registry self xc cid hub)"

lemma known_registryD:
  "known_registry reg \<Longrightarrow> registry_ok reg" "known_registry reg \<Longrightarrow> fresh_names reg [] \<subseteq> UNIV - {''secret''}"
  using registry_known unfolding known_registry_def by blast+

lemma returns_monitoring_new: "returns known_registry (monitoring_new self xc)"
  unfolding monitoring_new_def by (intro returns_bnd returns_ret) (auto simp: known_registry_def)

lemma guarded_crd_events:
  assumes "\<And>gk' cs n. map_of reg gk' = Some cs \<Longrightarrow> gk' \<noteq> gk \<Longrightarrow> n \<in> S \<Longrightarrow> n \<notin> set (group_names cs)"
  shows "guarded (has_crd gk) (sets_up S) (crd_events reg seen ns)"
proof (induction ns arbitrary: seen)
  case (Cons n ns)
  have "guarded (has_crd gk) (sets_up S) (crd_reconcile reg seen n)"
    unfolding crd_reconcile_def guarded_def
  proof (rule holds_bnd [OF holds_attempt_answer])
    fix y :: "gerr + group_kind" and es
    assume P: "\<exists>a z. es = [(CrdQ n, a)] \<and> Ok y = Ok z \<and> (\<forall>x. z = Inr x \<longrightarrow> the_crd a = Some x)"
    have "holds (seq (for_each start_controller cs) (ret (gk' # seen)))
        (\<lambda>r es'. precedes (has_crd gk) (sets_up S) (es @ es'))" if cs: "map_of reg gk' = Some cs" and y: "y = Inr gk'" for cs gk'
    proof (cases "gk' = gk")
      case True
      with P y obtain a where a: "es = [(CrdQ n, a)]" "the_crd a = Some gk" by (cases gk) auto
      then have "\<exists>e \<in> set es. has_crd gk e" by (cases a) (auto simp: the_crd_def)
      moreover have "precedes (has_crd gk) (sets_up S) es" using P by auto
      ultimately show ?thesis by (simp add: precedes_append holds_def)
    next
      case False
      have no: "controller_name c \<notin> S" if "c \<in> set cs" for c
        using assms [OF cs False, of "controller_name c"] that by (auto simp: group_names_def)
      have "never (sets_up S) (seq (for_each start_controller cs) (ret (gk' # seen)))"
        unfolding start_controller_def
        using no by (auto intro!: trace_intros)
      then show ?thesis
        unfolding never_def by (rule holds_mono) (use P in \<open>auto intro: precedes_never\<close>)
    qed
    then show "holds (case y of Inl e \<Rightarrow> if is_not_found e then ret seen else fail e
        | Inr gk \<Rightarrow> (if gk \<in> set seen then ret seen else (case map_of reg gk of None \<Rightarrow> ret seen
           | Some cs \<Rightarrow> seq (for_each start_controller cs) (ret (gk # seen)))))
        (\<lambda>r es'. precedes (has_crd gk) (sets_up S) (es @ es'))"
      using P by (auto split: sum.split option.split)
  qed auto
  then show ?case
    unfolding crd_events.simps
    by (intro guarded_bnd guarded_attempt) (auto intro: Cons split: sum.split)
qed (simp add: guarded_skip)

text \<open>
  C15: over any history of CustomResourceDefinitions the monitoring operator sets each controller up at
  most once, and the controllers for a kind only after the API server had the CustomResourceDefinition
  of that kind.
\<close>

theorem controllers_follow_crds:
  "holds (monitoring_run L self o1 xc crds) (\<lambda>_ es. distinct (setup_names es) \<and>
     precedes (has_crd gk) (sets_up (crd_controllers gk)) es)"
proof (rule holds_conj)
  have "once UNIV (monitoring_run L self o1 xc crds)"
    unfolding monitoring_run_def
  proof (rule once_after)
    show "never (sets_up UNIV) (monitoring_config L o1 xc)" by (intro trace_intros) simp_all
    fix xc1
    show "once UNIV (bnd (monitoring_new self xc1) (\<lambda>reg.
        seq (or_die (lib ''AddPostStartHookOrDie'' [(''name'', ''start-monitoring-operator-informers'')]))
        (seq (lib ''Manager.Add'' []) (seq (lib ''Manager.Start'' []) (crd_events reg [] crds)))))"
    proof (rule once_bnd [OF returns_monitoring_new once_monitoring_new, where B = "UNIV - {''secret''}"])
      fix reg :: "'s registry" assume k: "known_registry reg"
      show "once (UNIV - {''secret''}) (seq (or_die (lib ''AddPostStartHookOrDie'' [(''name'', ''start-monitoring-operator-informers'')]))
        (seq (lib ''Manager.Add'' []) (seq (lib ''Manager.Start'' []) (crd_events reg [] crds))))"
        by (intro once_after once_crd_events never_sets_up) (simp_all add: known_registryD [OF k])
    qed auto
  qed
  then show "holds (monitoring_run L self o1 xc crds) (\<lambda>_ es. distinct (setup_names es))"
    unfolding once_def by (rule holds_mono) simp
  have "guarded (has_crd gk) (sets_up (crd_controllers gk)) (monitoring_run L self o1 xc crds)"
    unfolding monitoring_run_def
  proof (rule guarded_bnd)
    show "guarded (has_crd gk) (sets_up (crd_controllers gk)) (monitoring_config L o1 xc)"
      by (intro guarded_never trace_intros) simp_all
    fix xc1
    have events: "guarded (has_crd gk) (sets_up (crd_controllers gk)) (crd_events reg [] crds)"
      if "known_registry reg" for reg :: "'s registry"
      by (rule guarded_crd_events) (use that in \<open>auto simp: known_registry_def monitoring_registry_def
        crd_controllers_def group_names_def split: if_splits\<close>)
    show "guarded (has_crd gk) (sets_up (crd_controllers gk)) (bnd (monitoring_new self xc1) (\<lambda>reg.
        seq (or_die (lib ''AddPostStartHookOrDie'' [(''name'', ''start-monitoring-operator-informers'')]))
        (seq (lib ''Manager.Add'' []) (seq (lib ''Manager.Start'' []) (crd_events reg [] crds)))))"
      by (intro guarded_bnd_returns [OF returns_monitoring_new] guarded_never [OF never_new]
          guarded_bnd guarded_never [OF never_sets_up(1)] guarded_never [OF never_sets_up(3)] events)
         (simp_all add: crd_controllers_def)
  qed
  then show "holds (monitoring_run L self o1 xc crds) (\<lambda>_ es. precedes (has_crd gk) (sets_up (crd_controllers gk)) es)"
    unfolding guarded_def .
qed

subsection \<open>The Grafana operator starts its manager last\<close>

definition accepted :: "request \<Rightarrow> event \<Rightarrow> bool" where
  "accepted q e = (fst e = q \<and> \<not> failed (snd e))"

definition crd_there :: "string \<Rightarrow> event \<Rightarrow> bool" where
  \<comment> \<open>the CustomResourceDefinition was written, or another process created it meanwhile\<close>
  "crd_there n e = (fst e = CrdApplyQ n \<and> (case snd e of RErr x \<Rightarrow> is_already_exists x | _ \<Rightarrow> True))"

lemma guarded_seq: "never q m \<Longrightarrow> (\<not> emits p m \<Longrightarrow> guarded p q k) \<Longrightarrow> guarded p q (seq m k)"
  by (cases "emits p m") (auto intro: guarded_after guarded_bnd guarded_never)

lemma emits_accepted: "emits (accepted q) (answer q g)"
  by (rule emits_answer) (simp add: accepted_def)

lemma emits_attempt_step:
  fixes m :: "('s, 'b) M"
  assumes m: "emits p m" and l: "\<And>e. holds (f (Inl e)) (\<lambda>r _. \<forall>x. r \<noteq> Ok x)"
  shows "emits p (bnd (attempt m) f)"
  unfolding emits_def
proof (rule holds_bnd [OF holds_attempt [OF m [unfolded emits_def], where \<Phi> = "\<lambda>r es. \<forall>x. r = Ok (Inr x) \<longrightarrow> (\<exists>e \<in> set es. p e)"]])
  fix y :: "gerr + 'b" and es assume P: "\<forall>x. Ok y = Ok (Inr x) \<longrightarrow> (\<exists>e \<in> set es. p e)"
  show "holds (f y) (\<lambda>r es'. (\<exists>x. r = Ok x) \<longrightarrow> (\<exists>e \<in> set (es @ es'). p e))"
  proof (cases y)
    case (Inl e)
    then show ?thesis using l [of e] by (auto elim!: holds_mono)
  next
    case (Inr x)
    then show ?thesis using P by (auto simp: holds_def)
  qed
qed auto

lemma emits_or_exit: "emits p m \<Longrightarrow> emits p (or_exit m)"
  unfolding or_exit_def by (erule emits_attempt_step) (auto intro!: holds_bnd_any)

lemma emits_for_each: "x \<in> set xs \<Longrightarrow> emits p (f x) \<Longrightarrow> emits p (for_each f xs)"
  by (induction xs) (auto intro: emits_bnd_left emits_bnd_right)

lemma holds_answer_full:
  "holds (answer q g) (\<lambda>r es. \<exists>a. es = [(q, a)] \<and>
     ((\<exists>x. r = Ok x \<and> \<not> failed a) \<or> (\<exists>e. a = RErr e \<and> r = Err e) \<or> r = Err (Plain ''unexpected response'')))"
  unfolding answer_def
  by (rule holds_bnd [OF holds_send [where \<Phi> = "\<lambda>r es. \<exists>a. r = Ok a \<and> es = [(q, a)]"]])
     (auto split: response.split option.split)

lemma emits_apply_crd: "emits (crd_there n) (apply_crd n)"
  unfolding apply_crd_def emits_def
  by (rule holds_bnd [OF holds_attempt [OF holds_answer_full, where \<Phi> = "\<lambda>r es. \<exists>a y. r = Ok y \<and> es = [(CrdApplyQ n, a)] \<and>
      ((\<exists>x. y = Inr x \<and> \<not> failed a) \<or> (\<exists>e. a = RErr e \<and> y = Inl e) \<or> y = Inl (Plain ''unexpected response''))"]])
     (auto simp: crd_there_def is_already_exists_def split: sum.splits response.splits)

lemma grafana_prerequisite:
  assumes "emits p (ensure_crds :: ('s, unit) M) \<or> emits p (index_field KAppBinding default_grafana_key :: ('s, unit) M) \<or>
    emits p (index_field KAppBinding default_perses_key :: ('s, unit) M) \<or>
    (\<exists>c \<in> set (grafana_controllers o1 :: 's controller list). emits p (setup_with_manager c :: ('s, unit) M))"
  shows "guarded p starts_manager (grafana_run L o1 :: ('s, unit) M)"
proof -
  have "emits p (or_exit ensure_crds :: ('s, unit) M) \<or> emits p (or_exit (index_field KAppBinding default_grafana_key) :: ('s, unit) M) \<or>
    emits p (or_exit (index_field KAppBinding default_perses_key) :: ('s, unit) M) \<or>
    emits p (for_each start_controller (grafana_controllers o1 :: 's controller list) :: ('s, unit) M)"
    using assms unfolding start_controller_def by (metis emits_for_each emits_or_exit)
  then show ?thesis
    unfolding grafana_run_def
    by (intro guarded_seq trace_intros) (auto simp: grafana_manager_def start_controller_def intro!: trace_intros)
qed

text \<open>
  C28: the manager of the Grafana operator starts only after the API server has the four
  CustomResourceDefinitions and they are established, the two index functions are registered and the
  three controllers are set up; a failure of any of them ends the process before.
\<close>

theorem grafana_manager_starts_last:
  "list_all (\<lambda>p. guarded p starts_manager (grafana_run L o1 :: ('s, unit) M))
     (map crd_there own_crds @ [accepted (LibQ ''WaitForCRDReady'' []),
      accepted (IndexQ KAppBinding default_grafana_key), accepted (IndexQ KAppBinding default_perses_key),
      accepted (SetupQ ''grafanadashboard'' [KGrafanaDashboard, KAppBinding]),
      accepted (SetupQ ''persesdashboard'' [KPersesDashboard, KAppBinding]),
      accepted (SetupQ ''grafanadatasource'' [KGrafanaDatasource])])"
proof -
  have "emits (crd_there n) (ensure_crds :: ('s, unit) M)" if "n \<in> set own_crds" for n
    unfolding ensure_crds_def by (rule emits_bnd_left [OF emits_for_each [OF that emits_apply_crd]])
  moreover have "emits (accepted (LibQ ''WaitForCRDReady'' [])) (ensure_crds :: ('s, unit) M)"
    unfolding ensure_crds_def lib_def by (rule emits_bnd_right [OF emits_accepted])
  moreover have "emits (accepted (IndexQ K f)) (index_field K f :: ('s, unit) M)" for K f
    unfolding index_field_def by (rule emits_accepted)
  moreover have "emits (accepted (SetupQ ''grafanadashboard'' [KGrafanaDashboard, KAppBinding]))
      (setup_with_manager (dashboard_controller (go_requeue_after o1) :: 's controller) :: ('s, unit) M)"
    "emits (accepted (SetupQ ''persesdashboard'' [KPersesDashboard, KAppBinding]))
      (setup_with_manager (perses_controller (go_requeue_after o1) :: 's controller) :: ('s, unit) M)"
    "emits (accepted (SetupQ ''grafanadatasource'' [KGrafanaDatasource]))
      (setup_with_manager (datasource_controller :: 's controller) :: ('s, unit) M)"
    unfolding setup_with_manager_def controller_names controller_kinds by (rule emits_accepted)+
  ultimately show ?thesis
    by (auto simp: list_all_iff grafana_controllers_def intro!: grafana_prerequisite)
qed

end
