(* ===== verification/Footprints.thy ===== *)
theory Footprints imports Startup begin

section \<open>Which objects the two processes write\<close>

text \<open>
  The kinds of objects each controller writes, whatever the services answer: the rights it needs, and
  the frame that lets controllers be reasoned about one by one.  Filters and map functions write nothing.
\<close>

definition footprint :: "string \<Rightarrow> kind set" where
  "footprint n = (
     if n = ''grafanadashboard'' then {KGrafanaDashboard}
     else if n = ''persesdashboard'' then {KPersesDashboard}
     else if n = ''grafanadatasource'' then {KGrafanaDatasource}
     else if n = ''alertmanager'' then {KAlertmanager, KAlertmanagerConfig}
     else if n = ''secret'' then {KSecret}
     else if n = ''servicemonitor-auto'' then {KServiceMonitor}
     else if n = ''servicemonitor-federation'' then {KServiceMonitor, KSecret, KService, KEndpoints}
     else if n = ''namespace'' then {KNamespace, KRoleBinding, KAppBinding, KSecret, KGrafanaDashboard, KPersesDashboard}
     else if n = ''prometheus'' then {KPrometheus, KServiceAccount, KClusterRole, KRoleBinding, KChartPreset,
       KClusterChartPreset, KAppBinding, KSecret}
     else {})"

definition confined :: "'s controller \<Rightarrow> bool" where
  \<comment> \<open>no run of its handler writes outside its footprint, and delivering an event writes nothing\<close>
  "confined c = ((\<forall>k. writes_only (footprint (controller_name c)) (ct_reconcile c k)) \<and>
     (\<forall>ob. writes_only {} (deliver c ob)))"

subsection \<open>The openviz controllers\<close>

lemma wo_grafana_state [trace_intros]: "writes_only S (grafana_state ab)" "writes_only S (perses_state ab)"
  unfolding grafana_state_def perses_state_def cached_state_def
  by (auto simp: Let_def split: option.split intro!: trace_intros)

lemma wo_prepare [trace_intros]: "writes_only S (prepare_dashboard obj)" "writes_only S (prepare_perses pobj)"
  unfolding prepare_dashboard_def Let_def identified_model_def templatized_model_def prepare_perses_def
  by (auto simp: add_dashboard_id_def split: option.split sum.split intro!: trace_intros)

lemma wo_dashboard: "writes_only {KGrafanaDashboard} (dashboard_reconcile after k)"
proof -
  have h: "writes_only {KGrafanaDashboard} (handle_set_error after obj e u)" for obj e u
    unfolding handle_set_error_def by (intro trace_intros) simp_all
  have c: "writes_only {KGrafanaDashboard} (current_dashboard st r o1 d)" for st r o1 d
    unfolding current_dashboard_def by (intro trace_intros)
  have s: "writes_only {KGrafanaDashboard} (set_dashboard after obj)" for obj
    unfolding set_dashboard_def publish_dashboard_def
    by (auto split: sum.split option.split prod.split intro!: trace_intros h c)
  have d: "writes_only {KGrafanaDashboard} (delete_dashboard obj)" for obj
    unfolding delete_dashboard_def delete_external_def
    by (auto split: option.split sum.split intro!: trace_intros)
  show ?thesis
    unfolding dashboard_reconcile_def sync_dashboard_def case_prod_unfold
    by (auto intro!: trace_intros s d)
qed

lemma wo_perses: "writes_only {KPersesDashboard} (perses_reconcile after k)"
proof -
  have h: "writes_only {KPersesDashboard} (handle_perses_error after obj e)" for obj e
    unfolding handle_perses_error_def by (intro trace_intros) simp_all
  have s: "writes_only {KPersesDashboard} (set_perses after obj)" for obj
    unfolding set_perses_def by (auto split: sum.split prod.split intro!: trace_intros h)
  have d: "writes_only {KPersesDashboard} (delete_perses obj)" for obj
    unfolding delete_perses_def delete_external_perses_def
    by (auto split: option.split sum.split intro!: trace_intros)
  show ?thesis
    unfolding perses_reconcile_def sync_perses_def case_prod_unfold
    by (auto intro!: trace_intros s d)
qed

lemma wo_datasource: "writes_only {KGrafanaDatasource} (datasource_reconcile k)"
proof -
  have p: "writes_only {KGrafanaDatasource} (create_or_update ds)" "writes_only {KGrafanaDatasource} (delete_external_datasource ds)"
    "writes_only {KGrafanaDatasource} (handle_failure ds reason)" for ds reason
    by (rule never_datasource_parts; simp)+
  show ?thesis
    unfolding datasource_reconcile_def delete_datasource_def sync_datasource_def
    by (auto split: sum.split intro!: trace_intros p)
qed

lemma wo_changed [trace_intros]:
  "writes_only S (is_state_changed d ab)" "writes_only S (is_perses_state_changed p ab)"
  unfolding is_state_changed_def is_perses_state_changed_def by (auto split: option.split intro!: trace_intros)

lemma wo_event_sources [trace_intros]:
  "writes_only S (dashboard_predicate d)" "writes_only S (perses_predicate p)"
  "writes_only S (dashboards_for_binding a)" "writes_only S (perses_for_binding a)"
proof -
  show "writes_only S (dashboard_predicate d)" "writes_only S (perses_predicate p)"
    unfolding dashboard_predicate_def perses_predicate_def by (auto split: sum.split intro!: trace_intros)
  have "writes_only S (dashboards_of_binding a ds)" for ds
    by (induction ds) (auto split: sum.split intro!: trace_intros)
  then show "writes_only S (dashboards_for_binding a)"
    unfolding dashboards_for_binding_def by (auto split: sum.split intro!: trace_intros)
  have "writes_only S (perses_of_binding a ps)" for ps
    by (induction ps) (auto simp: concerns_def split: sum.split intro!: trace_intros)
  then show "writes_only S (perses_for_binding a)"
    unfolding perses_for_binding_def by (auto split: sum.split intro!: trace_intros)
qed

subsection \<open>The controllers of the monitoring operator\<close>

lemma wo_alertmanager: "writes_only {KAlertmanager, KAlertmanagerConfig} (am_reconcile R k)"
  unfolding am_reconcile_def setup_alertmanager_def inbox_service_def with_inbox_def delete_config_def
  by (auto split: option.split intro!: trace_intros)

lemma wo_token: "writes_only {KSecret} (token_reconcile k)"
  unfolding token_reconcile_def process_token_def renew_token_def ctrl_create_or_patch_def now_def
  by (auto split: sum.split intro!: trace_intros)

lemma wo_update_labels [trace_intros]: "KServiceMonitor \<in> S \<Longrightarrow> writes_only S (update_labels p m)"
  unfolding update_labels_def case_prod_unfold by (intro trace_intros) simp_all

lemma wo_auto: "writes_only {KServiceMonitor} (auto_reconcile k)"
  unfolding auto_reconcile_def auto_rancher_def auto_project_def has_prom_def
  by (auto simp: Let_def split: option.split sum.split intro!: trace_intros)

lemma wo_sources [trace_intros]: "writes_only S (source_services sel nss)" "writes_only S (source_secrets ns es)"
proof -
  show "writes_only S (source_services sel nss)" by (induction nss) (auto intro!: trace_intros)
  show "writes_only S (source_secrets ns es)" by (induction es) (auto split: option.split intro!: trace_intros)
qed

lemma wo_federate_to: "{KServiceMonitor, KSecret, KService, KEndpoints} \<subseteq> S \<Longrightarrow> writes_only S (federate_to svcs secs m p)"
  unfolding federate_to_def federate_service_def copy_service_monitor_def copy_service_def copy_endpoints_def
    copy_secret_def Let_def case_prod_unfold
  by (auto split: option.split sum.split intro!: trace_intros)

lemma wo_federation: "writes_only {KServiceMonitor, KSecret, KService, KEndpoints} (federation_reconcile k)"
proof -
  have "writes_only {KServiceMonitor, KSecret, KService, KEndpoints} (federate_all ns svcs secs m ps errs)" for ns svcs secs m ps errs
    by (induction ps arbitrary: m errs) (auto split: sum.split intro!: trace_intros wo_federate_to)
  then show ?thesis
    unfolding federation_reconcile_def Let_def by (auto split: option.split intro!: trace_intros)
qed

lemma wo_org:
  assumes S: "{KNamespace, KRoleBinding, KAppBinding, KSecret, KGrafanaDashboard, KPersesDashboard} \<subseteq> S"
  shows "writes_only S (org_reconcile R k)"
proof -
  have b: "writes_only S (register_backends R hc mon cfg org state)" for hc mon cfg org state
    using S unfolding register_backends_def set_namespace_marker_def by (auto intro!: trace_intros)
  have p: "writes_only S (org_provision R ns mon org)" for ns mon org
    using S unfolding org_provision_def by (auto split: option.split intro!: trace_intros wo_provision b)
  have s: "writes_only S (org_sync R k ns org)" for ns org
    using S unfolding org_sync_def ensure_finalizer_def ensure_monitoring_namespace_def
    by (auto simp: Let_def split: sum.split intro!: trace_intros p)
  show ?thesis
    using S unfolding org_reconcile_def Let_def org_terminate_def mark_cleaned_up_def
    by (auto split: sum.split option.split intro!: trace_intros s)
qed

subsection \<open>Delivery\<close>

lemma wo_woken:
  "list_all (\<lambda>w. writes_only S (wa_filter w ob) \<and> writes_only S (wa_keys w ob)) ws \<Longrightarrow> writes_only S (woken ws ob)"
  by (induction ws) (auto intro!: trace_intros)

lemma wo_watch_functions [trace_intros]:
  "writes_only S (own_key ob)" "writes_only S (every_event ob)" "writes_only S (on_meta m ob)"
  "(\<And>x. writes_only S (f x)) \<Longrightarrow> writes_only S (typed v f ob)"
  unfolding own_key_def every_event_def on_meta_def typed_def
  by (auto split: option.split intro!: trace_intros)

lemma wo_listings [trace_intros]:
  "writes_only S all_alertmanagers" "writes_only S all_prometheuses" "writes_only S orgs_for_token"
  "writes_only S (service_monitors_for_prometheus ls)" "writes_only S (service_monitors_for_service m)"
  unfolding all_alertmanagers_def all_prometheuses_def orgs_for_token_def service_monitors_for_prometheus_def
    service_monitors_for_service_def
  by (auto split: sum.split intro!: trace_intros)

lemma wo_no_result: "writes_only S m \<Longrightarrow> writes_only S (no_result m)"
  unfolding no_result_def by (intro trace_intros)

lemma confined_openviz:
  "confined (dashboard_controller after)" "confined (perses_controller after)" "confined datasource_controller"
  using wo_dashboard wo_perses wo_datasource unfolding confined_def controller_names deliver_def
  by (auto simp: controller_defs footprint_def intro!: wo_woken wo_no_result trace_intros)

lemma confined_monitoring:
  "confined (alertmanager_controller A)" "confined (prometheus_controller P)" "confined (org_controller O1)"
  "confined (token_controller self n)" "confined auto_controller" "confined federation_controller"
  using wo_alertmanager prom_reconcile_writes wo_org [OF subset_refl] wo_token wo_auto wo_federation
  unfolding confined_def controller_names deliver_def
  by (auto simp: controller_defs footprint_def setup_kinds_def Let_def intro!: wo_woken wo_no_result trace_intros)

definition all_controllers ::
    "string \<Rightarrow> extra_config \<Rightarrow> string \<Rightarrow> hub_client option \<Rightarrow> grafana_options \<Rightarrow> 's controller list" where
  \<comment> \<open>every controller that either process can set up\<close>
  "all_controllers self xc cid hub o1 = concat (map snd (monitoring_registry self xc cid hub)) @
     [token_controller self (xc_rancher_secret xc)] @ grafana_controllers o1"

text \<open>
  C16: each controller of the two processes writes only the kinds of objects in its footprint, whatever
  the services answer, and its filters and map functions write nothing; of all controllers only those
  for client organizations and for Prometheus write AppBindings.
\<close>

theorem controllers_confined:
  "list_all confined (all_controllers self xc cid hub o1 :: 's controller list) \<and>
   map controller_name (filter (\<lambda>c. KAppBinding \<in> footprint (controller_name c))
     (all_controllers self xc cid hub o1 :: 's controller list)) = [''namespace'', ''prometheus'']"
  by (simp add: all_controllers_def monitoring_registry_def grafana_controllers_def confined_openviz confined_monitoring
    footprint_def)

end
