(* ===== verification/Openviz_System.thy ===== *)
theory Openviz_System imports Wiring State_Cache begin

section \<open>The openviz controllers over several events\<close>

text \<open>
  A run of a dashboard controller changes the object it runs for, and each change is an event that the
  controller's own watch may queue again.  Here a run is composed with the delivery of the event that
  its last status patch causes.  The locale \<open>world_frame\<close> collects what is true of every step a handler
  can take: it holds of a relation between the worlds before and after once the relation respects the
  calls and the growth of the cache of states.  Its interpretations are the history of the services and
  the permanence of cached states.
\<close>

subsection \<open>Relations that every handler respects\<close>

locale world_frame =
  fixes R :: "'s env \<Rightarrow> event list \<Rightarrow> 's world \<Rightarrow> 's world \<Rightarrow> bool"
  assumes frame_refl: "R E [] w w"
    and frame_trans: "R E es w w1 \<Longrightarrow> R E es' w1 w2 \<Longrightarrow> R E (es @ es') w w2"
    and frame_send: "exec E q (w_ext w) = (a, s) \<Longrightarrow> R E [(q, a)] w (w\<lparr>w_ext := s\<rparr>)"
    and frame_memo: "map_of (w_states w) k = None \<Longrightarrow> R E [] w (w\<lparr>w_states := (k, v) # w_states w\<rparr>)"
begin

definition framed :: "('s, 'a) M \<Rightarrow> bool" where
  "framed m = (\<forall>E w r es w'. m E w = (r, es, w') \<longrightarrow> R E es w w')"

lemma framedD: "framed m \<Longrightarrow> m E w = (r, es, w') \<Longrightarrow> R E es w w'"
  unfolding framed_def by blast

lemma framed_basic: "framed (ret x)" "framed (fail e)" "framed (panic p)" "framed pures" "framed (get_world f)"
  using frame_refl by (auto simp: framed_def ret_def fail_def panic_def pures_def get_world_def)

lemma framed_send: "framed (send q)"
  using frame_send by (auto simp: framed_def send_def split: prod.splits)

lemma framed_bnd:
  assumes "framed m" "\<And>x. framed (f x)"
  shows "framed (bnd m f)"
  unfolding framed_def
proof (intro allI impI)
  fix E w r es w' assume run: "bnd m f E w = (r, es, w')"
  obtain r1 es1 w1 where m: "m E w = (r1, es1, w1)" by (cases "m E w")
  then have R1: "R E es1 w w1" by (rule framedD [OF assms(1)])
  show "R E es w w'"
  proof (cases r1)
    case (Ok x)
    obtain r2 es2 w2 where f: "f x E w1 = (r2, es2, w2)" by (cases "f x E w1")
    then have "R E es2 w1 w2" by (rule framedD [OF assms(2)])
    then show ?thesis using frame_trans [OF R1] run m f Ok by (auto simp: bnd_def)
  qed (use R1 run m in \<open>auto simp: bnd_def\<close>)
qed

lemma framed_attempt: "framed m \<Longrightarrow> framed (attempt m)"
  unfolding framed_def attempt_def by (auto split: prod.splits outcome.splits)

lemma framed_lift_sum: "framed (lift_sum s)"
  by (cases s) (simp_all add: lift_sum_def framed_basic)

lemma framed_answer: "framed (answer q g)"
  unfolding answer_def by (auto split: response.split option.split intro!: framed_bnd framed_basic framed_send)

lemma framed_calls:
  "framed (kget v k)" "framed (klist v opts)" "framed (kpatch v b x)" "framed (kpatch_status v b x)"
  "framed (kcreate_object v ob)"
  by (simp_all add: kget_def klist_def kpatch_def kpatch_status_def kcreate_object_def framed_answer)

lemma framed_cached_state: "framed (cached_state ab digest)"
  using frame_memo frame_refl by (auto simp: framed_def cached_state_run cache_put_def split: option.splits)

lemma framed_ignore_not_found: "framed m \<Longrightarrow> framed (ignore_not_found m)"
  unfolding ignore_not_found_def by (auto split: sum.split intro!: framed_bnd framed_attempt framed_basic)

lemma framed_fetch_result: "framed m \<Longrightarrow> (\<And>x. framed (f x)) \<Longrightarrow> framed (fetch_result m f)"
  unfolding fetch_result_def by (auto split: sum.split intro!: framed_bnd framed_attempt framed_basic)

lemma framed_create_or_patch: "framed (create_or_patch v x f)"
  unfolding create_or_patch_def
  by (auto split: sum.split intro!: framed_bnd framed_attempt framed_basic framed_calls)

lemma framed_patch_status_e: "(\<And>x. framed (f x)) \<Longrightarrow> framed (patch_status_e v x f)"
  unfolding patch_status_e_def by (auto intro!: framed_bnd framed_calls)

lemma framed_patch_status: "framed (patch_status v x f)"
  unfolding patch_status_def by (intro framed_patch_status_e framed_basic)

lemmas framed_rules = framed_basic framed_send framed_bnd framed_attempt framed_lift_sum framed_answer framed_calls
  framed_cached_state framed_ignore_not_found framed_fetch_result framed_create_or_patch framed_patch_status_e
  framed_patch_status

lemma framed_find_binding: "framed (find_binding field what r)"
  unfolding find_binding_def by (auto split: option.split sum.split list.split intro!: framed_rules)

lemma framed_clients: "framed (new_grafana_client r)" "framed (new_perses_client r)" "framed (grafana_call gc c)"
  "framed (perses_call pc meth p body)"
  unfolding new_grafana_client_def new_perses_client_def get_grafana_def get_perses_def grafana_client_for_def
    perses_client_for_def binding_secret_def grafana_call_def perses_call_def
  by (auto split: option.split intro!: framed_rules framed_find_binding)

lemma framed_need: "framed (need x)" "framed (failure_event kd what m reason)"
  by (auto simp: need_def failure_event_def split: option.split intro!: framed_rules)

lemma framed_publish: "framed (publish_dashboard after obj p)"
  unfolding publish_dashboard_def handle_set_error_def current_dashboard_def
  by (auto split: prod.split option.split sum.split intro!: framed_rules framed_clients framed_need)

lemma framed_set_dashboard: "framed (set_dashboard after obj)"
  unfolding set_dashboard_def prepare_dashboard_def Let_def get_grafana_def grafana_state_def identified_model_def
    templatized_model_def add_dashboard_id_def handle_set_error_def
  by (auto split: option.split sum.split intro!: framed_rules framed_find_binding framed_clients framed_need framed_publish)

lemma framed_perses_set: "framed (perses_set pc b prj folder)"
  unfolding perses_set_def by (auto intro!: framed_rules framed_clients)

lemma framed_set_perses: "framed (set_perses after obj)"
  unfolding set_perses_def prepare_perses_def get_perses_def perses_state_def update_datasource_variable_def
    handle_perses_error_def
  by (auto split: option.split sum.split intro!: framed_rules framed_find_binding framed_clients framed_need framed_perses_set)

end

definition same_answers :: "'s env \<Rightarrow> kind \<Rightarrow> 's \<Rightarrow> 's \<Rightarrow> bool" where
  \<comment> \<open>reads of objects of kind K\<close>
  "same_answers E K s s' = ((\<forall>k. fst (exec E (Get K k) s) = fst (exec E (Get K k) s')) \<and>
     (\<forall>opts. fst (exec E (ListQ K opts) s) = fst (exec E (ListQ K opts) s')))"

definition undisturbed :: "'s env \<Rightarrow> kind \<Rightarrow> bool" where
  \<comment> \<open>a call changes what later reads of kind K answer only if it writes an object of kind K: nobody
     else writes such objects while a handler runs\<close>
  "undisturbed E K = (\<forall>q s. write_kind q \<noteq> Some K \<longrightarrow> same_answers E K s (snd (exec E q s)))"

definition left_alone :: "kind \<Rightarrow> 's env \<Rightarrow> event list \<Rightarrow> 's world \<Rightarrow> 's world \<Rightarrow> bool" where
  "left_alone K E es w w' = (undisturbed E K \<longrightarrow> (\<forall>e \<in> set es. write_kind (fst e) \<noteq> Some K) \<longrightarrow>
     same_answers E K (w_ext w) (w_ext w'))"

definition keeps_states :: "'s env \<Rightarrow> event list \<Rightarrow> 's world \<Rightarrow> 's world \<Rightarrow> bool" where
  "keeps_states E es w w' = (\<forall>k v. map_of (w_states w) k = Some v \<longrightarrow> map_of (w_states w') k = Some v)"

lemma same_answers_refl: "same_answers E K s s"
  by (simp add: same_answers_def)

lemma same_answers_trans: "same_answers E K s s1 \<Longrightarrow> same_answers E K s1 s2 \<Longrightarrow> same_answers E K s s2"
  unfolding same_answers_def by simp

interpretation reads: world_frame "left_alone K" for K
proof unfold_locales
  fix E :: "'s env" and w w1 w2 :: "'s world" and es es'
  assume "left_alone K E es w w1" "left_alone K E es' w1 w2"
  then show "left_alone K E (es @ es') w w2"
    unfolding left_alone_def by (auto intro: same_answers_trans)
next
  fix E :: "'s env" and w :: "'s world" and q a s
  assume "exec E q (w_ext w) = (a, s)"
  then show "left_alone K E [(q, a)] w (w\<lparr>w_ext := s\<rparr>)"
    unfolding left_alone_def undisturbed_def by (metis fst_conv list.set_intros(1) snd_conv world.select_convs(4) world.surjective world.update_convs(4))
qed (simp_all add: left_alone_def same_answers_refl)

interpretation states: world_frame keeps_states
  by unfold_locales (auto simp: keeps_states_def)

subsection \<open>Decomposing a run\<close>

lemma neverD: "never q m \<Longrightarrow> m E w = (r, es, w') \<Longrightarrow> e \<in> set es \<Longrightarrow> \<not> q e"
  using holdsD unfolding never_def by blast

lemma bnd_event:
  assumes "bnd m f E w = (r, es, w')" "e \<in> set es" "q e" "never q m"
  obtains x es1 w1 es2 where "m E w = (Ok x, es1, w1)" "f x E w1 = (r, es2, w')" "es = es1 @ es2" "e \<in> set es2"
proof -
  obtain r1 es1 w1 where m: "m E w = (r1, es1, w1)" by (cases "m E w")
  then have no: "\<forall>e \<in> set es1. \<not> q e" using holdsD [OF assms(4) [unfolded never_def]] by blast
  show ?thesis
  proof (cases r1)
    case (Ok x)
    obtain r2 es2 w2 where f: "f x E w1 = (r2, es2, w2)" by (cases "f x E w1")
    show ?thesis
      by (rule that [of x es1 w1 es2]) (use assms(1-3) m f Ok no in \<open>auto simp: bnd_def\<close>)
  qed (use assms(1-3) m no in \<open>auto simp: bnd_def\<close>)
qed

lemma attempt_Ok: "attempt m E w = (Ok (Inr x), es, w') \<longleftrightarrow> m E w = (Ok x, es, w')"
  by (auto simp: attempt_def split: prod.splits outcome.splits)

lemma bnd_OkE:
  assumes "bnd m f E w = (Ok y, es, w')"
  obtains x es1 w1 es2 where "m E w = (Ok x, es1, w1)" "f x E w1 = (Ok y, es2, w')" "es = es1 @ es2"
  using assms by (auto simp: bnd_def split: prod.splits outcome.splits)

lemma answer_value:
  "fst (answer q g E w) = (case fst (exec E q (w_ext w)) of RErr e \<Rightarrow> Err e
     | a \<Rightarrow> (case g a of Some x \<Rightarrow> Ok x | None \<Rightarrow> Err (Plain ''unexpected response'')))"
proof -
  obtain a s where "exec E q (w_ext w) = (a, s)" by (cases "exec E q (w_ext w)")
  then show ?thesis
    by (cases a) (simp_all add: answer_def bnd_def send_def ret_def fail_def split: option.split)
qed

lemma bnd_value:
  assumes "fst (m E w) = fst (m E w')" "\<And>x v v'. fst (f x E v) = fst (f x E v')"
  shows "fst (bnd m f E w) = fst (bnd m f E w')"
  using assms by (auto simp: bnd_def split: prod.splits outcome.splits) (metis fst_conv)+

lemma find_binding_same:
  assumes "same_answers E KAppBinding (w_ext w) (w_ext w')"
  shows "fst (find_binding field what r E w) = fst (find_binding field what r E w')"
proof -
  have g: "\<And>k. fst (exec E (Get KAppBinding k) (w_ext w)) = fst (exec E (Get KAppBinding k) (w_ext w'))"
    and o: "\<And>opts. fst (exec E (ListQ KAppBinding opts) (w_ext w)) = fst (exec E (ListQ KAppBinding opts) (w_ext w'))"
    using assms unfolding same_answers_def by blast+
  have k: "fst (attempt (kget v_ab k) E w) = fst (attempt (kget v_ab k) E w')" for k
  proof -
    have "fst (kget v_ab k E w) = fst (kget v_ab k E w')"
      unfolding kget_def answer_value vkind_simps g ..
    then show ?thesis by (auto simp: attempt_def split: prod.splits outcome.splits)
  qed
  have l: "fst (klist v_ab opts E w) = fst (klist v_ab opts E w')" for opts
    unfolding klist_def answer_value vkind_simps o ..
  show ?thesis
    unfolding find_binding_def
    by (cases r; simp only: option.case; rule bnd_value)
       (auto simp: k l ret_def fail_def split: sum.split list.split)
qed

text \<open>
  A preparation looks an AppBinding up and computes its state through the cache; from then on the
  cache has that state.
\<close>

lemma prepared_state:
  assumes run: "bnd g (\<lambda>ab. bnd (bnd (cached_state ab (dg ab)) lift_sum) (f ab)) E w = (Ok y, es, w')"
    and frame: "\<And>ab s. states.framed (f ab s)" and rets: "\<And>ab s. returns (\<lambda>y. tag y = s) (f ab s)"
  shows "\<exists>ab es1 w1. g E w = (Ok ab, es1, w1) \<and> map_of (w_states w') (state_key ab) = Some (Inr (tag y))"
proof -
  obtain ab es1 w1 es2 where g: "g E w = (Ok ab, es1, w1)"
    and r: "bnd (bnd (cached_state ab (dg ab)) lift_sum) (f ab) E w1 = (Ok y, es2, w')"
    by (rule bnd_OkE [OF run])
  obtain s es3 w2 es4 where s: "bnd (cached_state ab (dg ab)) lift_sum E w1 = (Ok s, es3, w2)"
    and f: "f ab s E w2 = (Ok y, es4, w')" by (rule bnd_OkE [OF r])
  have "map_of (w_states w2) (state_key ab) = Some (Inr s)"
    using s by (auto simp: bnd_def cached_state_run cache_put_def lift_sum_def ret_def fail_def split: option.splits sum.splits)
  then have "map_of (w_states w') (state_key ab) = Some (Inr s)"
    using states.framedD [OF frame f] unfolding keeps_states_def by blast
  moreover have "tag y = s" using holdsD [OF rets [unfolded returns_def] f] by simp
  ultimately show ?thesis using g by blast
qed

definition answered :: "'a view \<Rightarrow> event \<Rightarrow> 'a option" where
  \<comment> \<open>the object that an answer of the API server carries\<close>
  "answered v e = the_obj v (snd e)"

definition from_server :: "'a view \<Rightarrow> ('s, 'a) M \<Rightarrow> bool" where
  \<comment> \<open>what is returned came from the API server\<close>
  "from_server v m = holds m (\<lambda>r es. \<forall>x. r = Ok x \<longrightarrow> (\<exists>e \<in> set es. answered v e = Some x))"

lemma from_server_answer: "from_server v (answer q (the_obj v))"
  unfolding from_server_def by (rule holds_answer) (auto simp: answered_def)

lemma from_serverD: "from_server v m \<Longrightarrow> m E w = (Ok x, es, w') \<Longrightarrow> \<exists>e \<in> set es. answered v e = Some x"
  using holdsD unfolding from_server_def by blast

lemma from_server_bnd:
  assumes "\<And>x. from_server v (f x)"
  shows "from_server v (bnd m f)"
  unfolding from_server_def
proof (rule holds_bnd_any)
  fix x es
  show "holds (f x) (\<lambda>r es'. \<forall>y. r = Ok y \<longrightarrow> (\<exists>e \<in> set (es @ es'). answered v e = Some y))"
    by (rule holds_mono [OF assms [unfolded from_server_def]]) auto
qed auto

lemma from_server_calls: "from_server v (kget v k)" "from_server v (patch_status v x f)"
  "from_server v (bnd (create_or_patch v x g) (\<lambda>(_, new). ret new))"
proof -
  show "from_server v (kget v k)" "from_server v (patch_status v x f)"
    unfolding kget_def patch_status_def patch_status_e_def kpatch_status_def bnd_simps
    by (intro from_server_answer from_server_bnd)+
  have "holds (create_or_patch v x g) (\<lambda>r es. \<forall>vb y. r = Ok (vb, y) \<longrightarrow> (\<exists>e \<in> set es. answered v e = Some y))"
    unfolding create_or_patch_def kget_def kcreate_object_def kpatch_def
    by (rule holds_bnd_any) (auto split: sum.split intro!: holds_bnd [OF from_server_answer [unfolded from_server_def]]
      holds_bnd [OF holds_pures [where \<Phi> = "\<lambda>r es. es = [] \<and> (\<exists>C. r = Ok C)"]])
  then show "from_server v (bnd (create_or_patch v x g) (\<lambda>(_, new). ret new))"
    unfolding from_server_def by (rule holds_bnd) auto
qed

lemma from_server_or_given:
  assumes "(if c then ret x else m) E w = (Ok y, es, w')" "from_server v m"
  shows "y = x \<or> (\<exists>e \<in> set es. answered v e = Some y)"
  using assms from_serverD [OF assms(2)] by (cases c) (auto simp: ret_def)

subsection \<open>Grafana dashboards\<close>

definition dashboard_ref :: "grafana_dashboard \<Rightarrow> key option" where
  "dashboard_ref d = with_namespace (om_namespace (gd_meta d)) (gd_ref d)"

definition recorded :: "string \<Rightarrow> grafana_dashboard \<Rightarrow> bool" where
  \<comment> \<open>the status refers to the state and to the generation of the object\<close>
  "recorded st n = (map_option gr_state (gs_dashboard (gd_status n)) = Some (Some st) \<and>
     gs_observed (gd_status n) = om_generation (gd_meta n))"

fun unrecorded :: "string \<Rightarrow> event \<Rightarrow> bool" where
  \<comment> \<open>the dashboard is marked as current without such a record\<close>
  "unrecorded st (StatusPatchQ _ (OGrafanaDashboard n), _) = (gs_phase (gd_status n) = Current \<and> \<not> recorded st n)"
| "unrecorded st _ = False"

lemma prepare_dashboard_state:
  assumes "prepare_dashboard obj E w = (Ok p, es, w')"
  shows "\<exists>ab es1 w1. get_grafana (dashboard_ref obj) E w = (Ok ab, es1, w1) \<and>
    map_of (w_states w') (state_key ab) = Some (Inr (fst p))"
  using assms unfolding prepare_dashboard_def Let_def grafana_state_def dashboard_ref_def
  by (rule prepared_state)
     (auto simp: identified_model_def templatized_model_def add_dashboard_id_def split: option.split
       intro!: states.framed_rules states.framed_clients states.framed_need returns_bnd returns_ret)

lemma never_unrecorded: "never (unrecorded st) (publish_dashboard after obj (st, m, fo, gc))"
proof -
  have e: "never (unrecorded st) (handle_set_error after obj e upd)" for e upd
    unfolding handle_set_error_def failure_event_def by (intro trace_intros) (simp_all add: v_gd_def failed_dashboard_def)
  have c: "returns (recorded st) (current_dashboard st resp org d)" for resp org d
    unfolding current_dashboard_def need_def
    by (auto simp: recorded_def split: option.split intro!: returns_bnd returns_ret)
  have n: "never (unrecorded st) (current_dashboard st resp org d)" for resp org d
    unfolding current_dashboard_def need_def by (auto split: option.split intro!: trace_intros)
  have pse: "never (unrecorded st) (patch_status_e v_gd obj (current_dashboard st resp org))" for resp org
    unfolding patch_status_e_def
    by (intro trace_intros never_bnd_returns [OF c] n) (simp_all add: v_gd_def)
  then show ?thesis
    unfolding publish_dashboard_def
    by (auto split: prod.split option.split sum.split intro!: pse e never_bnd never_ret never_attempt never_answer never_grafana_call)
qed

lemma set_dashboard_current:
  assumes run: "set_dashboard after obj E w = (r, es, w')" and e: "e \<in> set es" "marks_current e"
  shows "\<exists>ab es1 w1 st b n. get_grafana (dashboard_ref obj) E w = (Ok ab, es1, w1) \<and>
    map_of (w_states w') (state_key ab) = Some (Inr st) \<and>
    fst e = StatusPatchQ b (OGrafanaDashboard n) \<and> recorded st n"
proof -
  obtain x es1 w1 es2 where p: "attempt (prepare_dashboard obj) E w = (Ok x, es1, w1)"
    and q: "(case x of Inl e \<Rightarrow> handle_set_error after obj e False | Inr p \<Rightarrow> publish_dashboard after obj p) E w1 = (r, es2, w')"
    and e2: "e \<in> set es2"
    by (rule bnd_event [OF run [unfolded set_dashboard_def] e never_attempt [OF never_current_before(2)]])
  show ?thesis
  proof (cases x)
    case (Inl err)
    then show ?thesis
      using holdsD [OF never_current_before(1) [unfolded never_def]] q e2 e(2) by fastforce
  next
    case (Inr p')
    obtain st m fo gc where p': "p' = (st, m, fo, gc)" by (cases p')
    have run1: "publish_dashboard after obj (st, m, fo, gc) E w1 = (r, es2, w')" using q Inr p' by simp
    have "\<exists>b n. fst e = StatusPatchQ b (OGrafanaDashboard n) \<and> recorded st n"
      using holdsD [OF never_unrecorded [unfolded never_def] run1] e2 e(2)
      by (cases e rule: marks_current.cases) auto
    moreover have prep: "prepare_dashboard obj E w = (Ok (st, m, fo, gc), es1, w1)"
      using p Inr p' by (simp add: attempt_Ok)
    obtain ab es3 w3 where "get_grafana (dashboard_ref obj) E w = (Ok ab, es3, w3)"
      "map_of (w_states w1) (state_key ab) = Some (Inr st)"
      using prepare_dashboard_state [OF prep] by auto
    moreover have "keeps_states E es2 w1 w'" by (rule states.framedD [OF states.framed_publish run1])
    ultimately show ?thesis unfolding keeps_states_def by blast
  qed
qed

lemma never_marks_pre:
  "never marks_current (kget v_gd k)" "never marks_current (patch_status v_gd obj processing_dashboard)"
  "never marks_current (bnd (create_or_patch v_gd obj (\<lambda>ob _. finalized_dashboard ob)) (\<lambda>(_, new). ret new))"
  by (intro trace_intros; simp add: v_gd_def processing_dashboard_def case_prod_unfold never_ret)+

lemma reconcile_current:
  assumes run: "dashboard_reconcile after k E w = (r, es, w')" and e: "e \<in> set es" "marks_current e"
  obtains obj w1 es1 es2 where "es = es1 @ es2" "set_dashboard after obj E w1 = (r, es2, w')" "e \<in> set es2"
    "\<exists>v \<in> set es1. answered v_gd v = Some obj"
proof -
  obtain x es0 w0 es3 where g: "attempt (kget v_gd k) E w = (Ok x, es0, w0)"
    and h: "(case x of Inl e \<Rightarrow> if is_not_found e then ret 0 else fail e
      | Inr obj \<Rightarrow> if om_deleting (gd_meta obj) then delete_dashboard obj else sync_dashboard after obj) E w0 = (r, es3, w')"
    and es: "es = es0 @ es3" "e \<in> set es3"
    by (rule bnd_event [OF run [unfolded dashboard_reconcile_def fetch_result_def] e never_attempt [OF never_marks_pre(1)]])
  obtain obj0 where x: "x = Inr obj0"
    using h es(2) by (cases x) (auto simp: ret_def fail_def split: if_splits)
  have nd: "\<not> om_deleting (gd_meta obj0)"
    using h es(2) e(2) holdsD [OF never_current_before(3) [unfolded never_def]] x by fastforce
  have s0: "\<exists>v \<in> set es0. answered v_gd v = Some obj0"
    using g x by (auto simp: attempt_Ok dest: from_serverD [OF from_server_calls(1)])
  have sync: "sync_dashboard after obj0 E w0 = (r, es3, w')" using h x nd by simp
  have nA: "never marks_current (if gdash_finalizer \<in> set (om_finalizers (gd_meta obj0)) then ret obj0
      else bnd (create_or_patch v_gd obj0 (\<lambda>ob _. finalized_dashboard ob)) (\<lambda>(_, new). ret new))"
    by (simp add: never_marks_pre(3) never_ret)
  obtain obj1 esA wA es4 where A: "(if gdash_finalizer \<in> set (om_finalizers (gd_meta obj0)) then ret obj0
      else bnd (create_or_patch v_gd obj0 (\<lambda>ob _. finalized_dashboard ob)) (\<lambda>(_, new). ret new)) E w0 = (Ok obj1, esA, wA)"
    and rest: "bnd (if gs_phase (gd_status obj1) \<noteq> Processing \<and> gs_phase (gd_status obj1) \<noteq> Failed
          then patch_status v_gd obj1 processing_dashboard else ret obj1) (set_dashboard after) E wA = (r, es4, w')"
    and es3: "es3 = esA @ es4" "e \<in> set es4"
    by (rule bnd_event [OF sync [unfolded sync_dashboard_def] es(2) e(2) nA])
  have nB: "never marks_current (if gs_phase (gd_status obj1) \<noteq> Processing \<and> gs_phase (gd_status obj1) \<noteq> Failed
          then patch_status v_gd obj1 processing_dashboard else ret obj1)"
    by (simp add: never_marks_pre(2) never_ret)
  obtain obj2 esB wB es5 where B: "(if gs_phase (gd_status obj1) \<noteq> Processing \<and> gs_phase (gd_status obj1) \<noteq> Failed
          then patch_status v_gd obj1 processing_dashboard else ret obj1) E wA = (Ok obj2, esB, wB)"
    and set: "set_dashboard after obj2 E wB = (r, es5, w')" and es4: "es4 = esB @ es5" "e \<in> set es5"
    by (rule bnd_event [OF rest es3(2) e(2) nB])
  have "obj1 = obj0 \<or> (\<exists>v \<in> set esA. answered v_gd v = Some obj1)"
    by (rule from_server_or_given [OF A from_server_calls(3)])
  moreover have "obj2 = obj1 \<or> (\<exists>v \<in> set esB. answered v_gd v = Some obj2)"
    using B by (auto simp: ret_def dest: from_serverD [OF from_server_calls(2)] split: if_splits)
  ultimately have src: "\<exists>v \<in> set (es0 @ esA @ esB). answered v_gd v = Some obj2" using s0 by auto
  show ?thesis
    by (rule that [OF _ set es4(2) src]) (simp add: es es3 es4)
qed

lemma never_writes_bindings: "never (\<lambda>e. write_kind (fst e) = Some KAppBinding) (set_dashboard after obj)"
  unfolding set_dashboard_def prepare_dashboard_def Let_def grafana_state_def cached_state_def identified_model_def
    templatized_model_def add_dashboard_id_def need_def publish_dashboard_def handle_set_error_def failure_event_def
    current_dashboard_def
  by (auto split: option.split sum.split prod.split intro!: trace_intros)

text \<open>
  C9: a successful run settles.  The event that its last status patch causes does not queue the
  dashboard again: its generation is the observed one, and the state of its AppBinding is the recorded
  one.  This needs that nobody else writes AppBindings during the run, that the API server returns the
  status it was given, without a new generation, and that the dashboard keeps its reference.
\<close>

theorem dashboard_settles:
  assumes quiet: "undisturbed E KAppBinding"
    and run: "dashboard_reconcile after k E w = (r, es, w')"
    and patch: "(StatusPatchQ b (OGrafanaDashboard n), RObj (OGrafanaDashboard d)) \<in> set es" "gs_phase (gd_status n) = Current"
    and server: "gd_status d = gd_status n" "om_generation (gd_meta d) = om_generation (gd_meta n)"
      "\<not> om_deleting (gd_meta d)"
    and ref: "\<forall>e \<in> set es. \<forall>x. answered v_gd e = Some x \<longrightarrow> dashboard_ref x = dashboard_ref d"
  shows "outcome_of (deliver (dashboard_controller after) (OGrafanaDashboard d) E w') = Ok []"
proof -
  let ?e = "(StatusPatchQ b (OGrafanaDashboard n), RObj (OGrafanaDashboard d))"
  obtain obj w1 es1 es2 where es: "es = es1 @ es2" and set: "set_dashboard after obj E w1 = (r, es2, w')"
    and e2: "?e \<in> set es2" and src: "\<exists>v \<in> set es1. answered v_gd v = Some obj"
    by (rule reconcile_current [OF run patch(1)]) (use patch(2) in auto)
  obtain ab es3 w3 st where g: "get_grafana (dashboard_ref obj) E w1 = (Ok ab, es3, w3)"
    and c: "map_of (w_states w') (state_key ab) = Some (Inr st)" and rec: "recorded st n"
    using set_dashboard_current [OF set e2] patch(2) by auto
  have "dashboard_ref obj = dashboard_ref d" using src ref es by auto
  moreover have "same_answers E KAppBinding (w_ext w1) (w_ext w')"
    using reads.framedD [OF reads.framed_set_dashboard set] quiet
      holdsD [OF never_writes_bindings [unfolded never_def] set] by (simp add: left_alone_def)
  ultimately have "fst (get_grafana (dashboard_ref d) E w') = Ok ab"
    using find_binding_same g unfolding get_grafana_def by (metis fst_conv)
  then obtain es4 w4 where g': "get_grafana (dashboard_ref d) E w' = (Ok ab, es4, w4)"
    by (cases "get_grafana (dashboard_ref d) E w'") auto
  have "keeps_states E es4 w' w4"
    using states.framedD [OF states.framed_find_binding g' [unfolded get_grafana_def]] .
  then have c4: "map_of (w_states w4) (state_key ab) = Some (Inr st)" using c unfolding keeps_states_def by blast
  have "outcome_of (dashboard_predicate d E w') = Ok False"
    using g' c4 rec server
    by (auto simp: dashboard_predicate_def bnd_def attempt_def outcome_of_def ret_def is_state_changed_def
        grafana_state_def cached_state_run recorded_def dashboard_ref_def split: option.split)
  then show ?thesis
    by (auto simp: deliver_def controller_defs typed_def v_gd_def bnd_def outcome_of_def ret_def split: prod.splits outcome.splits)
qed

subsection \<open>Perses dashboards\<close>

definition recorded_perses :: "string \<Rightarrow> perses_dashboard \<Rightarrow> bool" where
  "recorded_perses st n = (map_option pr_state (ps_dashboard (pd_status n)) = Some (Some st) \<and>
     ps_observed (pd_status n) = om_generation (pd_meta n))"

fun unrecorded_perses :: "string \<Rightarrow> event \<Rightarrow> bool" where
  "unrecorded_perses st (StatusPatchQ _ (OPersesDashboard n), _) = (ps_phase (pd_status n) = Current \<and> \<not> recorded_perses st n)"
| "unrecorded_perses st _ = False"

lemma prepare_perses_state:
  assumes "prepare_perses obj E w = (Ok p, es, w')"
  shows "\<exists>ab es1 w1. get_perses (perses_ref_of obj) E w = (Ok ab, es1, w1) \<and>
    map_of (w_states w') (state_key ab) = Some (Inr (fst p))"
  using assms unfolding prepare_perses_def perses_state_def
  by (rule prepared_state)
     (auto simp: update_datasource_variable_def split: option.split
       intro!: states.framed_rules states.framed_clients states.framed_need returns_bnd returns_ret)

lemma never_marks_perses:
  "never marks_perses_current (handle_perses_error after obj e)" "never marks_perses_current (delete_perses obj)"
  "never marks_perses_current (kget v_pd k)" "never marks_perses_current (patch_status v_pd obj processing_perses)"
  "never marks_perses_current (bnd (create_or_patch v_pd obj (\<lambda>ob _. finalized_perses ob)) (\<lambda>(_, new). ret new))"
  "never marks_perses_current (prepare_perses obj)" "never marks_perses_current (perses_set pc b prj folder)"
proof -
  show "never marks_perses_current (handle_perses_error after obj e)" "never marks_perses_current (prepare_perses obj)"
    by (rule never_perses_parts; simp add: failed_perses_def)+
  show "never marks_perses_current (perses_set pc b prj folder)" by (rule never_perses) simp
  show "never marks_perses_current (delete_perses obj)"
    unfolding delete_perses_def
    by (auto simp: v_pd_def terminating_perses_def intro!: trace_intros never_perses_parts)
  show "never marks_perses_current (kget v_pd k)" "never marks_perses_current (patch_status v_pd obj processing_perses)"
    "never marks_perses_current (bnd (create_or_patch v_pd obj (\<lambda>ob _. finalized_perses ob)) (\<lambda>(_, new). ret new))"
    by (intro trace_intros; simp add: v_pd_def processing_perses_def case_prod_unfold never_ret)+
qed

lemma set_perses_current:
  assumes run: "set_perses after obj E w = (r, es, w')" and e: "e \<in> set es" "marks_perses_current e"
  shows "\<exists>ab es1 w1 st b n. get_perses (perses_ref_of obj) E w = (Ok ab, es1, w1) \<and>
    map_of (w_states w') (state_key ab) = Some (Inr st) \<and>
    fst e = StatusPatchQ b (OPersesDashboard n) \<and> recorded_perses st n"
proof -
  obtain x es1 w1 es2 where p: "attempt (prepare_perses obj) E w = (Ok x, es1, w1)"
    and q: "(case x of Inl e \<Rightarrow> handle_perses_error after obj e
      | Inr (state, cfg, pc, b) \<Rightarrow>
          bnd (attempt (perses_set pc b (pc_project_name cfg) (pc_folder_name cfg))) (\<lambda>s. case s of
            Inl e \<Rightarrow> handle_perses_error after obj e
          | Inr _ \<Rightarrow> seq (patch_status v_pd obj (current_perses state cfg (pb_name b))) (ret 0))) E w1 = (r, es2, w')"
    and e2: "e \<in> set es2"
    by (rule bnd_event [OF run [unfolded set_perses_def] e never_attempt [OF never_marks_perses(6)]])
  show ?thesis
  proof (cases x)
    case (Inl err)
    then show ?thesis
      using holdsD [OF never_marks_perses(1) [unfolded never_def]] q e2 e(2) by fastforce
  next
    case (Inr p')
    obtain st cfg pc b where p': "p' = (st, cfg, pc, b)" by (cases p')
    let ?m = "bnd (attempt (perses_set pc b (pc_project_name cfg) (pc_folder_name cfg))) (\<lambda>s. case s of
            Inl e \<Rightarrow> handle_perses_error after obj e
          | Inr _ \<Rightarrow> seq (patch_status v_pd obj (current_perses st cfg (pb_name b))) (ret 0))"
    have run1: "?m E w1 = (r, es2, w')" using q Inr p' by simp
    have h: "never (unrecorded_perses st) (handle_perses_error after obj e)" for e
      by (rule never_perses_parts) (simp_all add: failed_perses_def)
    have c: "never (unrecorded_perses st) (patch_status v_pd obj (current_perses st cfg (pb_name b)))"
      by (intro trace_intros) (simp_all add: v_pd_def current_perses_def recorded_perses_def)
    have s: "never (unrecorded_perses st) (perses_set pc b (pc_project_name cfg) (pc_folder_name cfg))" by (rule never_perses) simp
    have nu: "never (unrecorded_perses st) ?m"
      by (intro never_bnd never_attempt s) (auto split: sum.split intro!: h c never_bnd never_ret)
    have "\<exists>b n. fst e = StatusPatchQ b (OPersesDashboard n) \<and> recorded_perses st n"
      using neverD [OF nu run1 e2] e(2) by (cases e rule: marks_perses_current.cases) auto
    moreover have prep: "prepare_perses obj E w = (Ok (st, cfg, pc, b), es1, w1)"
      using p Inr p' by (simp add: attempt_Ok)
    obtain ab es3 w3 where "get_perses (perses_ref_of obj) E w = (Ok ab, es3, w3)"
      "map_of (w_states w1) (state_key ab) = Some (Inr st)"
      using prepare_perses_state [OF prep] by auto
    moreover have fr: "states.framed ?m"
      by (auto simp: handle_perses_error_def split: sum.split
           intro!: states.framed_rules states.framed_perses_set states.framed_need)
    have "keeps_states E es2 w1 w'" by (rule states.framedD [OF fr run1])
    ultimately show ?thesis unfolding keeps_states_def by blast
  qed
qed

lemma perses_reconcile_current:
  assumes run: "perses_reconcile after k E w = (r, es, w')" and e: "e \<in> set es" "marks_perses_current e"
  obtains obj w1 es1 es2 where "es = es1 @ es2" "set_perses after obj E w1 = (r, es2, w')" "e \<in> set es2"
    "\<exists>v \<in> set es1. answered v_pd v = Some obj"
proof -
  obtain x es0 w0 es3 where g: "attempt (kget v_pd k) E w = (Ok x, es0, w0)"
    and h: "(case x of Inl e \<Rightarrow> if is_not_found e then ret 0 else fail e
      | Inr obj \<Rightarrow> if om_deleting (pd_meta obj) then delete_perses obj else sync_perses after obj) E w0 = (r, es3, w')"
    and es: "es = es0 @ es3" "e \<in> set es3"
    by (rule bnd_event [OF run [unfolded perses_reconcile_def fetch_result_def] e never_attempt [OF never_marks_perses(3)]])
  obtain obj0 where x: "x = Inr obj0"
    using h es(2) by (cases x) (auto simp: ret_def fail_def split: if_splits)
  have nd: "\<not> om_deleting (pd_meta obj0)"
    using h es(2) e(2) holdsD [OF never_marks_perses(2) [unfolded never_def]] x by fastforce
  have s0: "\<exists>v \<in> set es0. answered v_pd v = Some obj0"
    using g x by (auto simp: attempt_Ok dest: from_serverD [OF from_server_calls(1)])
  have sync: "sync_perses after obj0 E w0 = (r, es3, w')" using h x nd by simp
  have nA: "never marks_perses_current (if pdash_finalizer \<in> set (om_finalizers (pd_meta obj0)) then ret obj0
      else bnd (create_or_patch v_pd obj0 (\<lambda>ob _. finalized_perses ob)) (\<lambda>(_, new). ret new))"
    by (simp add: never_marks_perses(5) never_ret)
  obtain obj1 esA wA es4 where A: "(if pdash_finalizer \<in> set (om_finalizers (pd_meta obj0)) then ret obj0
      else bnd (create_or_patch v_pd obj0 (\<lambda>ob _. finalized_perses ob)) (\<lambda>(_, new). ret new)) E w0 = (Ok obj1, esA, wA)"
    and rest: "bnd (if ps_phase (pd_status obj1) \<noteq> Processing \<and> ps_phase (pd_status obj1) \<noteq> Failed
          then patch_status v_pd obj1 processing_perses else ret obj1) (set_perses after) E wA = (r, es4, w')"
    and es3: "es3 = esA @ es4" "e \<in> set es4"
    by (rule bnd_event [OF sync [unfolded sync_perses_def] es(2) e(2) nA])
  have nB: "never marks_perses_current (if ps_phase (pd_status obj1) \<noteq> Processing \<and> ps_phase (pd_status obj1) \<noteq> Failed
          then patch_status v_pd obj1 processing_perses else ret obj1)"
    by (simp add: never_marks_perses(4) never_ret)
  obtain obj2 esB wB es5 where B: "(if ps_phase (pd_status obj1) \<noteq> Processing \<and> ps_phase (pd_status obj1) \<noteq> Failed
          then patch_status v_pd obj1 processing_perses else ret obj1) E wA = (Ok obj2, esB, wB)"
    and set: "set_perses after obj2 E wB = (r, es5, w')" and es4: "es4 = esB @ es5" "e \<in> set es5"
    by (rule bnd_event [OF rest es3(2) e(2) nB])
  have "obj1 = obj0 \<or> (\<exists>v \<in> set esA. answered v_pd v = Some obj1)"
    by (rule from_server_or_given [OF A from_server_calls(3)])
  moreover have "obj2 = obj1 \<or> (\<exists>v \<in> set esB. answered v_pd v = Some obj2)"
    using B by (auto simp: ret_def dest: from_serverD [OF from_server_calls(2)] split: if_splits)
  ultimately have src: "\<exists>v \<in> set (es0 @ esA @ esB). answered v_pd v = Some obj2" using s0 by auto
  show ?thesis
    by (rule that [OF _ set es4(2) src]) (simp add: es es3 es4)
qed

lemma never_perses_writes_bindings: "never (\<lambda>e. write_kind (fst e) = Some KAppBinding) (set_perses after obj)"
  by (rule never_set_perses) simp_all

text \<open>
  A successful run of the Perses controller settles under the same conditions.
\<close>

theorem perses_settles:
  assumes quiet: "undisturbed E KAppBinding"
    and run: "perses_reconcile after k E w = (r, es, w')"
    and patch: "(StatusPatchQ b (OPersesDashboard n), RObj (OPersesDashboard d)) \<in> set es" "ps_phase (pd_status n) = Current"
    and server: "pd_status d = pd_status n" "om_generation (pd_meta d) = om_generation (pd_meta n)"
      "\<not> om_deleting (pd_meta d)"
    and ref: "\<forall>e \<in> set es. \<forall>x. answered v_pd e = Some x \<longrightarrow> perses_ref_of x = perses_ref_of d"
  shows "outcome_of (deliver (perses_controller after) (OPersesDashboard d) E w') = Ok []"
proof -
  let ?e = "(StatusPatchQ b (OPersesDashboard n), RObj (OPersesDashboard d))"
  obtain obj w1 es1 es2 where es: "es = es1 @ es2" and set: "set_perses after obj E w1 = (r, es2, w')"
    and e2: "?e \<in> set es2" and src: "\<exists>v \<in> set es1. answered v_pd v = Some obj"
    by (rule perses_reconcile_current [OF run patch(1)]) (use patch(2) in auto)
  obtain ab es3 w3 st where g: "get_perses (perses_ref_of obj) E w1 = (Ok ab, es3, w3)"
    and c: "map_of (w_states w') (state_key ab) = Some (Inr st)" and rec: "recorded_perses st n"
    using set_perses_current [OF set e2] patch(2) by auto
  have "perses_ref_of obj = perses_ref_of d" using src ref es by auto
  moreover have "same_answers E KAppBinding (w_ext w1) (w_ext w')"
    using reads.framedD [OF reads.framed_set_perses set] quiet
      holdsD [OF never_perses_writes_bindings [unfolded never_def] set] by (simp add: left_alone_def)
  ultimately have "fst (get_perses (perses_ref_of d) E w') = Ok ab"
    using find_binding_same g unfolding get_perses_def by (metis fst_conv)
  then obtain es4 w4 where g': "get_perses (perses_ref_of d) E w' = (Ok ab, es4, w4)"
    by (cases "get_perses (perses_ref_of d) E w'") auto
  have "keeps_states E es4 w' w4"
    using states.framedD [OF states.framed_find_binding g' [unfolded get_perses_def]] .
  then have c4: "map_of (w_states w4) (state_key ab) = Some (Inr st)" using c unfolding keeps_states_def by blast
  have "outcome_of (perses_predicate d E w') = Ok False"
    using g' c4 rec server
    by (auto simp: perses_predicate_def bnd_def attempt_def outcome_of_def ret_def is_perses_state_changed_def
        perses_state_def cached_state_run recorded_perses_def split: option.split)
  then show ?thesis
    by (auto simp: deliver_def controller_defs typed_def v_pd_def bnd_def outcome_of_def ret_def split: prod.splits outcome.splits)
qed

subsection \<open>A run on a quiet cluster\<close>

definition demo_binding :: app_binding where
  "demo_binding = \<lparr>ab_meta = (new_meta ''demo'' ''grafana'')\<lparr>om_uid := ''u1'', om_generation := 1\<rparr>,
     ab_type = '''', ab_app_ref = None, ab_client = \<lparr>cc_url = Some ''http://grafana'', cc_service = None,
     cc_insecure = False, cc_ca = '''', cc_server_name = ''''\<rparr>, ab_secret = None, ab_tls_secret = None, ab_params = None\<rparr>"

definition demo_dashboard :: grafana_dashboard where
  "demo_dashboard = \<lparr>gd_meta = (new_meta ''demo'' ''pods'')\<lparr>om_generation := 1, om_finalizers := [gdash_finalizer]\<rparr>,
     gd_ref = Some ('''', ''grafana''), gd_model = Some ''{}'', gd_overwrite = True, gd_templatize = None,
     gd_status = \<lparr>gs_observed = 0, gs_phase = Processing, gs_reason = '''', gs_dashboard = None, gs_conditions = []\<rparr>\<rparr>"

definition demo_perses :: perses_dashboard where
  "demo_perses = \<lparr>pd_meta = (new_meta ''demo'' ''nodes'')\<lparr>om_generation := 3, om_finalizers := [pdash_finalizer]\<rparr>,
     pd_ref = Some ('''', ''grafana''), pd_model = Some ''nodes'', pd_overwrite = True, pd_templatize = None,
     pd_status = \<lparr>ps_observed = 2, ps_phase = Processing, ps_reason = '''', ps_dashboard = None, ps_conditions = []\<rparr>\<rparr>"

definition demo_grafana :: gresp where
  "demo_grafana = \<lparr>gq_status = 200, gq_id = Some 7, gq_uid = Some ''x7'', gq_slug = Some ''pods'', gq_url = Some ''/d/x7'',
     gq_version = Some 1, gq_message = None\<rparr>"

fun quiet_answer :: "request \<Rightarrow> response" where
  \<comment> \<open>a dashboard of each kind, one AppBinding, and a Grafana and a Perses that take every model\<close>
  "quiet_answer (Get KGrafanaDashboard k) = RObj (OGrafanaDashboard demo_dashboard)"
| "quiet_answer (Get KPersesDashboard k) = RObj (OPersesDashboard demo_perses)"
| "quiet_answer (HttpQ r) = RHttp 200 ''''"
| "quiet_answer (Get KAppBinding k) = RObj (OAppBinding demo_binding)"
| "quiet_answer (StatusPatchQ b n) = RObj n"
| "quiet_answer (GrafanaQ gc (SetDashboard m fo ow)) = RGrafana (Some demo_grafana) None"
| "quiet_answer (GrafanaQ gc GetCurrentOrg) = ROrg (Some 1)"
| "quiet_answer q = RErr (ApiErr NotFound ''not found'')"

definition quiet_env :: "unit env" where
  "quiet_env = \<lparr>exec = (\<lambda>q s. (quiet_answer q, s)), codecs = plain_codec\<rparr>"

lemma undisturbed_quiet: "undisturbed quiet_env K"
  by (simp add: undisturbed_def same_answers_def quiet_env_def)

definition demo_current :: grafana_dashboard where
  "demo_current = demo_dashboard\<lparr>gd_status := \<lparr>gs_observed = 1, gs_phase = Current,
     gs_reason = ''Dashboard is successfully created'',
     gs_dashboard = Some \<lparr>gr_id = Some 7, gr_uid = Some ''x7'', gr_org_id = Some 1, gr_slug = Some ''pods'',
       gr_url = Some ''/d/x7'', gr_version = Some 1, gr_state = Some ''http://grafana,,0''\<rparr>,
     gs_conditions = [ready_condition ''Dashboard is successfully created'']\<rparr>\<rparr>"

definition demo_conn :: gconn where
  "demo_conn = \<lparr>gn_addr = ''http://grafana'', gn_auth = NoAuth, gn_ca = '''', gn_insecure = False\<rparr>"

lemma demo_run:
  "dashboard_reconcile (seconds 60) (''demo'', ''pods'') quiet_env (start ()) = (Ok 0,
     map (\<lambda>q. (q, quiet_answer q)) [Get KGrafanaDashboard (''demo'', ''pods''), Get KAppBinding (''demo'', ''grafana''),
       Get KAppBinding (''demo'', ''grafana''), GrafanaQ demo_conn (SetDashboard (Some ''{}'') 0 True),
       GrafanaQ demo_conn GetCurrentOrg, Get KGrafanaDashboard (''demo'', ''pods''),
       StatusPatchQ (OGrafanaDashboard demo_dashboard) (OGrafanaDashboard demo_current)],
     (start ())\<lparr>w_states := [((''u1'', 1), Inr ''http://grafana,,0'')]\<rparr>)"
  by (simp add: dashboard_reconcile_def fetch_result_def kget_def answer_def bnd_def attempt_def send_def quiet_env_def
    the_obj_def ret_def v_gd_def v_ab_def demo_dashboard_def new_meta_def sync_dashboard_def set_dashboard_def
    prepare_dashboard_def Let_def get_grafana_def find_binding_def with_namespace_def demo_binding_def
    grafana_state_def cached_state_def get_world_def put_world_def pures_def start_def grafana_digest_def
    grafana_params_def app_url_def plain_codec_def folder_of_def lift_sum_def identified_model_def
    templatized_model_def new_grafana_client_def grafana_client_for_def binding_secret_def app_config_of_def
    secret_auth_def connect_grafana_def skips_verification_def publish_dashboard_def grafana_call_def demo_grafana_def
    patch_status_e_def current_dashboard_def need_def kpatch_status_def demo_current_def demo_conn_def obj_key_def
    meta_key_def itoa_def set_condition_def ready_condition_def digits.simps [of 0] char_of_def bit_Suc_0_iff)

lemma dashboard_settles_witness:
  "outcome_of (deliver (dashboard_controller (seconds 60)) (OGrafanaDashboard demo_current) quiet_env
     ((start ())\<lparr>w_states := [((''u1'', 1), Inr ''http://grafana,,0'')]\<rparr>)) = Ok []"
  by (rule dashboard_settles [OF undisturbed_quiet demo_run, where b = "OGrafanaDashboard demo_dashboard" and n = demo_current])
     (simp_all add: answered_def the_obj_def v_gd_def demo_current_def demo_dashboard_def new_meta_def dashboard_ref_def)

definition demo_perses_current :: perses_dashboard where
  "demo_perses_current = demo_perses\<lparr>pd_status := \<lparr>ps_observed = 3, ps_phase = Current,
     ps_reason = ''Dashboard is successfully created'',
     ps_dashboard = Some \<lparr>pr_name = ''nodes'', pr_project = '''', pr_folder = '''', pr_state = Some ''http://grafana,,,0,,0''\<rparr>,
     ps_conditions = [ready_condition ''Dashboard is successfully created'']\<rparr>\<rparr>"

definition demo_perses_post :: http_req where
  "demo_perses_post = \<lparr>hq_method = ''POST'', hq_url = ''http://grafana/api/v1/projects//folders//dashboards'',
     hq_headers = auth_headers '''', hq_body = ''nodes'', hq_ca = '''', hq_insecure = False\<rparr>"

lemma demo_perses_run:
  "perses_reconcile (seconds 60) (''demo'', ''nodes'') quiet_env (start ()) = (Ok 0,
     map (\<lambda>q. (q, quiet_answer q)) [Get KPersesDashboard (''demo'', ''nodes''), Get KAppBinding (''demo'', ''grafana''),
       Get KAppBinding (''demo'', ''grafana''), HttpQ demo_perses_post, Get KPersesDashboard (''demo'', ''nodes''),
       StatusPatchQ (OPersesDashboard demo_perses) (OPersesDashboard demo_perses_current)],
     (start ())\<lparr>w_states := [((''u1'', 1), Inr ''http://grafana,,,0,,0'')]\<rparr>)"
  by (simp add: perses_reconcile_def fetch_result_def kget_def answer_def bnd_def attempt_def send_def quiet_env_def
    the_obj_def ret_def v_pd_def v_ab_def demo_perses_def new_meta_def sync_perses_def set_perses_def
    prepare_perses_def Let_def get_perses_def perses_ref_of_def find_binding_def with_namespace_def demo_binding_def
    perses_state_def cached_state_def get_world_def put_world_def pures_def start_def perses_digest_def
    perses_params_def app_url_def plain_codec_def lift_sum_def perses_model_def placed_board_def
    new_perses_client_def perses_client_for_def binding_secret_def app_config_of_def the_http_def
    secret_auth_def connect_perses_def skips_verification_def perses_set_def perses_call_def perses_endpoint_def
    perses_request_def dashboards_path_def demo_perses_post_def update_datasource_variable_def
    patch_status_def patch_status_e_def current_perses_def need_def kpatch_status_def demo_perses_current_def obj_key_def
    meta_key_def itoa_def set_condition_def ready_condition_def digits.simps [of 0] char_of_def bit_Suc_0_iff)

lemma perses_settles_witness:
  "outcome_of (deliver (perses_controller (seconds 60)) (OPersesDashboard demo_perses_current) quiet_env
     ((start ())\<lparr>w_states := [((''u1'', 1), Inr ''http://grafana,,,0,,0'')]\<rparr>)) = Ok []"
  by (rule perses_settles [OF undisturbed_quiet demo_perses_run, where b = "OPersesDashboard demo_perses" and n = demo_perses_current])
     (simp_all add: answered_def the_obj_def v_pd_def demo_perses_current_def demo_perses_def new_meta_def perses_ref_of_def)

end
