(* ===== verification/Finalized_Objects.thy ===== *)
theory Finalized_Objects imports Shared_Objects Footprints Openviz_System begin

section \<open>No object of another service is forgotten\<close>

text \<open>
  The three openviz controllers satisfy the contract of \<open>Shared_Objects\<close>, with every other controller
  of both processes and any well-behaved user around them: a stored GrafanaDashboard, PersesDashboard or
  GrafanaDatasource that records an object in Grafana or Perses and is not being deleted holds the
  finalizer that makes its deletion wait for the deletion of that object.
\<close>

definition grafana_dashboards :: "string resource" where
  "grafana_dashboards = \<lparr>re_kind = KGrafanaDashboard, re_finalizer = gdash_finalizer, re_mark = (\<lambda>ob. case ob of
     OGrafanaDashboard d \<Rightarrow> Option.bind (gs_dashboard (gd_status d)) gr_uid | _ \<Rightarrow> None)\<rparr>"

definition perses_dashboards :: "string resource" where
  "perses_dashboards = \<lparr>re_kind = KPersesDashboard, re_finalizer = pdash_finalizer, re_mark = (\<lambda>ob. case ob of
     OPersesDashboard d \<Rightarrow> (case ps_dashboard (pd_status d) of
       Some r \<Rightarrow> if pr_name r = '''' then None else Some (pr_name r) | None \<Rightarrow> None) | _ \<Rightarrow> None)\<rparr>"

definition grafana_datasources :: "int resource" where
  "grafana_datasources = \<lparr>re_kind = KGrafanaDatasource, re_finalizer = gds_finalizer, re_mark = (\<lambda>ob. case ob of
     OGrafanaDatasource d \<Rightarrow> ds_id (ds_status d) | _ \<Rightarrow> None)\<rparr>"

lemmas resource_defs = grafana_dashboards_def perses_dashboards_def grafana_datasources_def

definition tampers :: "'m resource \<Rightarrow> event \<Rightarrow> bool" where
  "tampers R e = (\<exists>k. records R k e \<or> strips R k e)"

subsection \<open>What code can do to a resource\<close>

lemma tampers_simps [simp]:
  "tampers R (StatusPatchQ b n, a) \<longleftrightarrow> kind_of n = re_kind R \<and> grants R b n"
  "tampers R (PatchQ b n, a) \<longleftrightarrow> kind_of n = re_kind R \<and> finalizers n \<noteq> finalizers b \<and> \<not> held R n"
  "tampers R (Get K k, a) = False" "tampers R (GetUncached K k, a) = False" "tampers R (ListQ K opts, a) = False"
  "tampers R (CreateQ n, a) = False" "tampers R (DeleteQ K k, a) = False" "tampers R (DeleteAllOfQ K ns, a) = False"
  by (auto simp: tampers_def simp del: split_paired_Ex)

lemma tampers_quiet [simp]: "write_kind q = None \<Longrightarrow> \<not> tampers R (q, a)"
  by (cases q) (auto simp: tampers_def)

lemma held_set_rversion: "held R (set_rversion u ob) = held R ob"
  by (simp add: held_def set_rversion_def)

lemma tampers_writes: "tampers R e \<Longrightarrow> write_kind (fst e) = Some (re_kind R)"
  unfolding tampers_def by (auto elim!: records.elims strips.elims)

lemma never_tampers: "writes_only S m \<Longrightarrow> re_kind R \<notin> S \<Longrightarrow> never (tampers R) m"
  by (erule writes_only_outside) (use tampers_writes in auto)

definition moves_up :: "'m resource \<Rightarrow> key \<Rightarrow> event \<Rightarrow> bool" where
  \<comment> \<open>forbidden to a run that sets the object up\<close>
  "moves_up R k e = (off R k e \<or> strips R k e)"

definition moves_down :: "'m resource \<Rightarrow> key \<Rightarrow> event \<Rightarrow> bool" where
  \<comment> \<open>forbidden to a run that tears the object down\<close>
  "moves_down R k e = (off R k e \<or> records R k e)"

lemma moves_tamper: "moves_up R k e \<Longrightarrow> tampers R e" "moves_down R k e \<Longrightarrow> tampers R e" "records R k e \<Longrightarrow> tampers R e"
  unfolding moves_up_def moves_down_def off_def tampers_def by blast+

lemma never_moves:
  assumes "never (tampers R) m"
  shows "never (moves_up R k) m" "never (moves_down R k) m" "never (records R k) m"
  by (rule never_weaken [OF assms], erule moves_tamper)+

lemma moves_simps [simp]:
  "moves_up R k (StatusPatchQ b n, a) \<longleftrightarrow> kind_of n = re_kind R \<and> obj_key n \<noteq> k \<and> grants R b n"
  "moves_down R k (PatchQ b n, a) \<longleftrightarrow> kind_of n = re_kind R \<and> obj_key n \<noteq> k \<and> finalizers n \<noteq> finalizers b \<and> \<not> held R n"
  "moves_up R k (Get K j, a) = False" "moves_down R k (Get K j, a) = False"
  by (auto simp: moves_up_def moves_down_def off_def simp del: split_paired_Ex)

definition named :: "'m resource \<Rightarrow> 'a view \<Rightarrow> key \<Rightarrow> ('s, 'a) M \<Rightarrow> bool" where
  \<comment> \<open>what is returned has the name k, or an answer had the wrong name\<close>
  "named R v k m = holds m (\<lambda>r es. \<forall>x. r = Ok x \<longrightarrow> obj_key (wrap v x) \<noteq> k \<longrightarrow> (\<exists>e \<in> set es. misfiled R e))"

lemma guarded_named:
  assumes "never q m" "named R v k m" "\<And>x. obj_key (wrap v x) = k \<Longrightarrow> guarded (misfiled R) q (f x)"
  shows "guarded (misfiled R) q (bnd m f)"
  by (rule guarded_read [where P = "\<lambda>x. obj_key (wrap v x) \<noteq> k"])
     (use holds_conj [OF assms(1) [unfolded never_def] assms(2) [unfolded named_def]] assms(3) in auto)

lemma named_ret: "obj_key (wrap v x) = k \<Longrightarrow> named R v k (ret x)"
  by (simp add: named_def)

lemma named_more:
  "named R v k m \<Longrightarrow> holds m (\<lambda>r es'. \<forall>y. r = Ok y \<longrightarrow> obj_key (wrap v y) \<noteq> k \<longrightarrow> (\<exists>e \<in> set es \<union> set es'. misfiled R e))"
  unfolding named_def by (erule holds_mono) auto

lemma named_bnd:
  assumes "\<And>x. named R v k (f x)"
  shows "named R v k (bnd m f)"
  unfolding named_def
proof (rule holds_bnd_any)
  fix x es
  show "holds (f x) (\<lambda>r es'. \<forall>y. r = Ok y \<longrightarrow> obj_key (wrap v y) \<noteq> k \<longrightarrow> (\<exists>e \<in> set (es @ es'). misfiled R e))"
    by (rule holds_mono [OF assms [unfolded named_def]]) auto
qed auto

lemma named_bnd_named:
  assumes "named R v k m" "\<And>x. obj_key (wrap v x) = k \<Longrightarrow> named R v' k' (f x)"
  shows "named R v' k' (bnd m f)"
  unfolding named_def
proof (rule holds_bnd [OF assms(1) [unfolded named_def]])
  fix x es assume I: "\<forall>y. Ok x = Ok y \<longrightarrow> obj_key (wrap v y) \<noteq> k \<longrightarrow> (\<exists>e \<in> set es. misfiled R e)"
  show "holds (f x) (\<lambda>r es'. \<forall>y. r = Ok y \<longrightarrow> obj_key (wrap v' y) \<noteq> k' \<longrightarrow> (\<exists>e \<in> set (es @ es'). misfiled R e))"
  proof (cases "obj_key (wrap v x) = k")
    case True
    show ?thesis by (rule holds_mono [OF assms(2) [OF True, unfolded named_def]]) auto
  qed (use I in \<open>auto simp: holds_def\<close>)
qed auto

lemma named_returns:
  assumes "returns P m" "\<And>x. P x \<Longrightarrow> named R v k (f x)"
  shows "named R v k (bnd m f)"
  unfolding named_def
proof (rule holds_bnd [OF assms(1) [unfolded returns_def]])
  fix x es assume "\<forall>y. Ok x = Ok y \<longrightarrow> P y"
  then show "holds (f x) (\<lambda>r es'. \<forall>y. r = Ok y \<longrightarrow> obj_key (wrap v y) \<noteq> k \<longrightarrow> (\<exists>e \<in> set (es @ es'). misfiled R e))"
    using assms(2) [of x] by (auto simp: named_def elim!: holds_mono)
qed auto

subsection \<open>The steps the three controllers share\<close>

locale resource_view = typed_view v for v :: "'a view" +
  fixes R :: "'m resource" and fin :: "'a \<Rightarrow> 'a" and unfin :: "'a \<Rightarrow> 'a"
  assumes kind_is: "vkind v = re_kind R"
    and fin_key: "obj_key (wrap v (fin x)) = obj_key (wrap v x)" and fin_held: "held R (wrap v (fin x))"
    and unfin_key: "obj_key (wrap v (unfin x)) = obj_key (wrap v x)"
begin

lemma kind_wrapped [simp]: "kind_of (wrap v x) = re_kind R"
  using kind_wrap kind_is by simp

lemma held_differs: "\<not> held R (wrap v x) \<Longrightarrow> finalizers (wrap v (fin x)) \<noteq> finalizers (wrap v x)"
  using fin_held [of x] by (auto simp: held_def)

lemma the_obj_wrap: "the_obj v a = Some x \<longleftrightarrow> a = RObj (wrap v x)"
  using wrap_unwrap unwrap_wrap by (auto simp: the_obj_def split: response.split)

lemma holds_call:
  assumes "\<And>x. \<Phi> (Ok x) [(q, RObj (wrap v x))]" "\<And>e a. \<Phi> (Err e) [(q, a)]"
  shows "holds (answer q (the_obj v)) \<Phi>"
  by (rule holds_answer) (use assms in \<open>auto simp: the_obj_wrap\<close>)

lemma holds_read:
  "holds (attempt (kget v k)) (\<lambda>r es. (\<exists>a. es = [(Get (re_kind R) k, a)]) \<and>
     (\<forall>x. r = Ok (Inr x) \<longrightarrow> es = [(Get (re_kind R) k, RObj (wrap v x))]))"
proof -
  have "holds (kget v k) (\<lambda>r es. (\<exists>a. es = [(Get (re_kind R) k, a)]) \<and>
     (\<forall>x. r = Ok x \<longrightarrow> es = [(Get (re_kind R) k, RObj (wrap v x))]))"
    unfolding kget_def kind_is by (rule holds_call) auto
  then show ?thesis by (rule holds_attempt) auto
qed

lemma named_calls:
  "named R v k (kget v k)" "named R v (obj_key (wrap v y)) (kpatch_status v b y)"
  "named R v (obj_key (wrap v y)) (kpatch v b y)" "kind_of ob = re_kind R \<Longrightarrow> named R v (obj_key ob) (kcreate_object v ob)"
  unfolding named_def kget_def kpatch_status_def kpatch_def kcreate_object_def
  by (rule holds_call; simp add: kind_is)+

lemma named_patch_status_e:
  assumes "obj_key (wrap v x) = k" "\<And>cur. returns (\<lambda>y. obj_key (wrap v y) = obj_key (wrap v cur)) (f cur)"
  shows "named R v k (patch_status_e v x f)"
  unfolding patch_status_e_def assms(1)
  by (rule named_bnd_named [OF named_calls(1)], rule named_returns [OF assms(2)]) (use named_calls(2) in metis)

lemma named_patch_status:
  "obj_key (wrap v x) = k \<Longrightarrow> (\<And>y. obj_key (wrap v (f y)) = obj_key (wrap v y)) \<Longrightarrow> named R v k (patch_status v x f)"
  unfolding patch_status_def by (rule named_patch_status_e) (auto intro: returns_ret)

lemma named_finalize:
  assumes x: "obj_key (wrap v x) = k"
  shows "named R v k (bnd (create_or_patch v x (\<lambda>y _. fin y)) (\<lambda>(_, new). ret new))"
proof -
  have c: "named R v k (bnd (kcreate_object v (set_rversion '''' (wrap v (fin x)))) (\<lambda>new. ret new))"
    by (rule named_bnd_named [OF named_calls(4)]) (auto simp: fin_key x intro: named_ret)
  have p: "named R v k (bnd (kpatch v cur (fin cur)) (\<lambda>new. bnd pures (\<lambda>C. ret new)))" if "obj_key (wrap v cur) = k" for cur
    by (rule named_bnd_named [OF named_calls(3)]) (auto simp: fin_key that intro: named_bnd named_ret)
  have g: "holds (attempt (kget v k)) (\<lambda>r es. \<forall>x. r = Ok (Inr x) \<longrightarrow> obj_key (wrap v x) \<noteq> k \<longrightarrow> (\<exists>e \<in> set es. misfiled R e))"
    by (rule holds_attempt [OF named_calls(1) [of k, unfolded named_def]]) auto
  show ?thesis
    unfolding create_or_patch_def bnd_assoc x named_def
  proof (rule holds_bnd [OF g])
    fix r :: "gerr + 'a" and es
    assume I: "\<forall>x. Ok r = Ok (Inr x) \<longrightarrow> obj_key (wrap v x) \<noteq> k \<longrightarrow> (\<exists>e \<in> set es. misfiled R e)"
    show "holds (bnd (case r of
        Inl e \<Rightarrow> if is_not_found e then bnd (kcreate_object v (set_rversion '''' (wrap v (fin x)))) (\<lambda>new. ret (VerbCreated, new))
          else fail e
      | Inr cur \<Rightarrow> bnd (kpatch v cur (fin cur)) (\<lambda>new. bnd pures (\<lambda>C. ret (patch_verb C (wrap v cur) (wrap v new), new))))
       (\<lambda>(_, new). ret new))
      (\<lambda>r es'. \<forall>y. r = Ok y \<longrightarrow> obj_key (wrap v y) \<noteq> k \<longrightarrow> (\<exists>e \<in> set (es @ es'). misfiled R e))"
    proof (cases r)
      case (Inl e)
      then show ?thesis by (auto simp: bnd_assoc bnd_simps intro: named_more [OF c])
    next
      case (Inr cur)
      then show ?thesis
        using I named_more [OF p, of cur] by (cases "obj_key (wrap v cur) = k") (auto simp: bnd_assoc bnd_simps, auto simp: holds_def)
    qed
  qed auto
qed

lemma never_tampers_finalize: "never (tampers R) (create_or_patch v x (\<lambda>y _. fin y))"
  by (intro trace_intros) (simp_all add: fin_held)

lemma never_tampers_status:
  "(\<And>y. re_mark R (wrap v (f y)) = re_mark R (wrap v y)) \<Longrightarrow> never (tampers R) (patch_status v x f)"
  by (intro trace_intros) (simp_all add: grants_def)

lemma emits_secures:
  assumes x: "obj_key (wrap v x) = k"
  shows "emits (\<lambda>e. misfiled R e \<or> secures R k e) (create_or_patch v x (\<lambda>y _. fin y))"
proof -
  have c: "emits (\<lambda>e. misfiled R e \<or> secures R k e) (kcreate_object v (set_rversion '''' (wrap v (fin x))))"
    unfolding emits_def kcreate_object_def
    by (rule holds_call) (use fin_held [of x] in \<open>simp_all add: fin_key x held_set_rversion\<close>)
  have p: "emits (\<lambda>e. misfiled R e \<or> secures R k e) (kpatch v cur (fin cur))"
    if "obj_key (wrap v cur) = k" "\<not> held R (wrap v cur)" for cur
    unfolding emits_def kpatch_def
    by (rule holds_call) (use that fin_held [of cur] held_differs [of cur] in \<open>auto simp: fin_key\<close>)
  have g: "holds (attempt (kget v k)) (\<lambda>r es. \<forall>x. r = Ok (Inr x) \<longrightarrow> es = [(Get (re_kind R) k, RObj (wrap v x))])"
    by (rule holds_mono [OF holds_read]) simp
  show ?thesis
    unfolding create_or_patch_def x emits_def
  proof (rule holds_bnd [OF g])
    fix r :: "gerr + 'a" and es
    assume I: "\<forall>x. Ok r = Ok (Inr x) \<longrightarrow> es = [(Get (re_kind R) k, RObj (wrap v x))]"
    show "holds (case r of
        Inl e \<Rightarrow> if is_not_found e then bnd (kcreate_object v (set_rversion '''' (wrap v (fin x)))) (\<lambda>new. ret (VerbCreated, new))
          else fail e
      | Inr cur \<Rightarrow> bnd (kpatch v cur (fin cur)) (\<lambda>new. bnd pures (\<lambda>C. ret (patch_verb C (wrap v cur) (wrap v new), new))))
      (\<lambda>r es'. (\<exists>y. r = Ok y) \<longrightarrow> (\<exists>e \<in> set (es @ es'). misfiled R e \<or> secures R k e))"
    proof (cases r)
      case (Inl e)
      then show ?thesis
        by (auto intro: holds_mono [OF emits_bnd_left [OF c, unfolded emits_def]])
    next
      case (Inr cur)
      show ?thesis
      proof (cases "obj_key (wrap v cur) = k \<and> \<not> held R (wrap v cur)")
        case True
        then have "emits (\<lambda>e. misfiled R e \<or> secures R k e) (bnd (kpatch v cur (fin cur)) f)" for f
          by (intro emits_bnd_left p) simp_all
        then show ?thesis
          unfolding Inr sum.case emits_def by (rule holds_mono) auto
      qed (use I Inr in \<open>auto simp: holds_def\<close>)
    qed
  qed auto
qed

lemma guarded_marking:
  assumes x: "obj_key (wrap v x) = k" and f: "\<And>cur. returns (\<lambda>y. obj_key (wrap v y) = obj_key (wrap v cur)) (f cur)"
    and n: "\<And>cur. never (tampers R) (f cur)"
  shows "guarded (misfiled R) (moves_up R k) (patch_status_e v x f)"
  unfolding patch_status_e_def x
proof (rule guarded_named [OF never_calls(1) named_calls(1)])
  fix cur assume c: "obj_key (wrap v cur) = k"
  show "guarded (misfiled R) (moves_up R k) (bnd (f cur) (kpatch_status v cur))"
    by (rule guarded_never, rule never_bnd_returns [OF f never_moves(1) [OF n]], rule never_calls) (simp add: c)
qed simp

lemma never_unfinalize: "obj_key (wrap v x) = k \<Longrightarrow> never (moves_down R k) (kpatch v x (unfin x))"
  by (rule never_calls) (simp add: unfin_key)

lemma never_unfinalize_current:
  assumes x: "obj_key (wrap v x) = k"
  shows "guarded (misfiled R) (moves_down R k) (create_or_patch v x (\<lambda>y _. unfin y))"
proof -
  have g: "holds (attempt (kget v k)) (\<lambda>r es. (\<forall>e \<in> set es. \<not> moves_down R k e) \<and>
      (\<forall>y. r = Ok y \<longrightarrow> (\<exists>x. y = Inr x \<and> obj_key (wrap v x) \<noteq> k) \<longrightarrow> (\<exists>e \<in> set es. misfiled R e)))"
    by (rule holds_mono [OF holds_read]) auto
  have c: "\<not> moves_down R k (CreateQ ob, a)" for ob a
    by (auto simp: moves_down_def off_def)
  show ?thesis
    unfolding create_or_patch_def x
    by (rule guarded_read [OF g])
       (auto simp: c split: sum.split intro!: guarded_if guarded_fail guarded_never trace_intros never_unfinalize)
qed

text \<open>A run begins with the read of its object, and goes on by whether that is being deleted.\<close>

lemma lawful_read:
  assumes idle: "\<And>e. holds (g (Inl e)) (\<lambda>_ es. es = [])"
    and down: "\<And>x. obj_key (wrap v x) = k \<Longrightarrow> deleting (wrap v x) \<Longrightarrow> guarded (misfiled R) (moves_down R k) (g (Inr x))"
    and up: "\<And>x. obj_key (wrap v x) = k \<Longrightarrow> \<not> deleting (wrap v x) \<Longrightarrow> guarded (misfiled R) (moves_up R k) (g (Inr x))"
    and sec: "\<And>x. obj_key (wrap v x) = k \<Longrightarrow> \<not> deleting (wrap v x) \<Longrightarrow> \<not> held R (wrap v x) \<Longrightarrow>
      guarded (\<lambda>e. misfiled R e \<or> secures R k e) (records R k) (g (Inr x))"
  shows "holds (bnd (attempt (kget v k)) g) (\<lambda>_ es. lawful R k es)"
proof (rule holds_bnd)
  show "holds (attempt (kget v k)) (\<lambda>r es. (\<exists>a. es = [(Get (re_kind R) k, a)]) \<and>
      (\<forall>x. r = Ok (Inr x) \<longrightarrow> es = [(Get (re_kind R) k, RObj (wrap v x))]))" (is "holds _ ?\<Psi>")
    by (rule holds_read)
  have quiet: "lawful R k [(Get (re_kind R) k, a)]" for a
    by (simp add: lawful_def tears_down_def off_def)
  show "lawful R k es" if "?\<Psi> (Err e) es" for e es using that quiet by auto
  show "lawful R k es" if "?\<Psi> (Panic p) es" for p es using that quiet by auto
  fix r :: "gerr + 'a" and es assume I: "?\<Psi> (Ok r) es"
  show "holds (g r) (\<lambda>_ es'. lawful R k (es @ es'))"
  proof (cases r)
    case (Inl e)
    then show ?thesis using I idle [of e] quiet by (auto elim!: holds_mono)
  next
    case (Inr x)
    then have es: "es = [(Get (re_kind R) k, RObj (wrap v x))]" using I by simp
    show ?thesis
    proof (cases "obj_key (wrap v x) = k")
      case False
      then show ?thesis by (simp add: es lawful_def tears_down_def)
    next
      case True
      note d = down [OF True, unfolded guarded_def moves_down_def [abs_def]]
        and u = up [OF True, unfolded guarded_def moves_up_def [abs_def]] and s = sec [OF True, unfolded guarded_def]
      show ?thesis
      proof (cases "deleting (wrap v x)")
        case True
        then show ?thesis using holds_mono [OF d] by (auto simp: es Inr lawful_def tears_down_def off_def)
      next
        case False
        then show ?thesis
          using holds_mono [OF u] holds_mono [OF holds_conj [OF u s]]
          by (cases "held R (wrap v x)") (auto simp: es Inr lawful_def sets_up_def off_def)
      qed
    qed
  qed
qed

end

subsection \<open>The three controllers\<close>

interpretation gdv: resource_view v_gd grafana_dashboards finalized_dashboard unfinalized_dashboard
  by unfold_locales
     (auto simp: v_gd_def grafana_dashboards_def finalized_dashboard_def unfinalized_dashboard_def held_def obj_key_def
        meta_key_def add_finalizer_def remove_finalizer_def split: object.splits)

interpretation pdv: resource_view v_pd perses_dashboards finalized_perses unfinalized_perses
  by unfold_locales
     (auto simp: v_pd_def perses_dashboards_def finalized_perses_def unfinalized_perses_def held_def obj_key_def
        meta_key_def add_finalizer_def remove_finalizer_def split: object.splits)

interpretation dsv: resource_view v_ds grafana_datasources finalized_datasource unfinalized_datasource
  by unfold_locales
     (auto simp: v_ds_def grafana_datasources_def finalized_datasource_def unfinalized_datasource_def held_def obj_key_def
        meta_key_def add_finalizer_def remove_finalizer_def split: object.splits)

lemma resource_kinds [simp]:
  "re_kind grafana_dashboards = KGrafanaDashboard" "re_kind perses_dashboards = KPersesDashboard"
  "re_kind grafana_datasources = KGrafanaDatasource"
  by (simp_all add: resource_defs)

lemma held_finalizers:
  "held grafana_dashboards (wrap v_gd d) \<longleftrightarrow> gdash_finalizer \<in> set (om_finalizers (gd_meta d))"
  "held perses_dashboards (wrap v_pd p) \<longleftrightarrow> pdash_finalizer \<in> set (om_finalizers (pd_meta p))"
  "held grafana_datasources (wrap v_ds s) \<longleftrightarrow> gds_finalizer \<in> set (om_finalizers (ds_meta s))"
  by (simp_all add: held_def resource_defs v_gd_def v_pd_def v_ds_def)

lemma guarded_ret_named:
  assumes "never q m" "named R v k m" "obj_key (wrap v x) = k"
    "\<And>y. obj_key (wrap v y) = k \<Longrightarrow> guarded (misfiled R) q (f y)"
  shows "guarded (misfiled R) q (bnd (if c then ret x else m) f)"
    "guarded (misfiled R) q (bnd (if c then m else ret x) f)"
  by (cases c; simp; rule guarded_named [OF _ _ assms(4)]; simp add: assms named_ret trace_intros)+

text \<open>Grafana dashboards.\<close>

lemma dashboard_quiet:
  "never (tampers grafana_dashboards) (prepare_dashboard obj)"
  "never (tampers grafana_dashboards) (delete_external obj)"
  "never (tampers grafana_dashboards) (handle_set_error after obj e u)"
  "never (tampers grafana_dashboards) (patch_status v_gd obj terminating_dashboard)"
  "never (tampers grafana_dashboards) (patch_status v_gd obj processing_dashboard)"
proof -
  show "never (tampers grafana_dashboards) (prepare_dashboard obj)"
    by (rule never_tampers [of "{}"]) (auto intro: trace_intros)
  show "never (tampers grafana_dashboards) (delete_external obj)"
    by (rule never_tampers [of "{}"]) (auto simp: delete_external_def split: option.split sum.split intro!: trace_intros)
  have m: "re_mark grafana_dashboards (wrap v_gd (failed_dashboard r u d)) = re_mark grafana_dashboards (wrap v_gd d)"
    "re_mark grafana_dashboards (wrap v_gd (terminating_dashboard d)) = re_mark grafana_dashboards (wrap v_gd d)"
    "re_mark grafana_dashboards (wrap v_gd (processing_dashboard d)) = re_mark grafana_dashboards (wrap v_gd d)" for r u d
    by (simp_all add: grafana_dashboards_def v_gd_def failed_dashboard_def terminating_dashboard_def processing_dashboard_def)
  show "never (tampers grafana_dashboards) (handle_set_error after obj e u)"
    unfolding handle_set_error_def
    by (intro never_bnd gdv.never_tampers_status m never_ret never_tampers [of "{}"]) (auto intro: trace_intros)
  show "never (tampers grafana_dashboards) (patch_status v_gd obj terminating_dashboard)"
    "never (tampers grafana_dashboards) (patch_status v_gd obj processing_dashboard)"
    by (intro gdv.never_tampers_status m)+
qed

lemma dashboard_status_key:
  "obj_key (wrap v_gd (terminating_dashboard d)) = obj_key (wrap v_gd d)"
  "obj_key (wrap v_gd (processing_dashboard d)) = obj_key (wrap v_gd d)"
  by (simp_all add: v_gd_def terminating_dashboard_def processing_dashboard_def obj_key_def)

lemma dashboard_down:
  assumes "obj_key (wrap v_gd obj) = k"
  shows "guarded (misfiled grafana_dashboards) (moves_down grafana_dashboards k) (delete_dashboard obj)"
  unfolding delete_dashboard_def
  by (rule guarded_ret_named [OF never_moves(2) [OF dashboard_quiet(4)] gdv.named_patch_status [OF assms dashboard_status_key(1)] assms],
      intro guarded_never never_bnd never_moves(2) [OF dashboard_quiet(2)] never_ignore_not_found gdv.never_unfinalize never_ret)

lemma dashboard_sets:
  assumes "obj_key (wrap v_gd obj) = k"
  shows "guarded (misfiled grafana_dashboards) (moves_up grafana_dashboards k) (set_dashboard after obj)"
proof -
  have c: "returns (\<lambda>y. obj_key (wrap v_gd y) = obj_key (wrap v_gd d)) (current_dashboard st r i d)"
    "never (tampers grafana_dashboards) (current_dashboard st r i d)" for st r i d
    unfolding current_dashboard_def
    by (auto simp: v_gd_def obj_key_def intro!: returns_bnd returns_ret trace_intros)
  have n: "never (tampers grafana_dashboards) (grafana_call gc q)"
    "never (tampers grafana_dashboards) (answer (GrafanaQ gc GetCurrentOrg) g)" for gc q g
    by (rule never_tampers [of "{}"]; auto intro!: trace_intros)+
  note e = guarded_never [OF never_moves(1) [OF dashboard_quiet(3)]]
  show ?thesis
    unfolding set_dashboard_def publish_dashboard_def
    by (rule guarded_bnd [OF guarded_attempt [OF guarded_never [OF never_moves(1) [OF dashboard_quiet(1)]]]])
       (auto split: sum.split option.split prod.split
         intro!: e guarded_bnd guarded_attempt guarded_skip gdv.guarded_marking [OF assms] c n [THEN never_moves(1), THEN guarded_never])
qed

lemma dashboard_up:
  assumes "obj_key (wrap v_gd obj) = k"
  shows "guarded (misfiled grafana_dashboards) (moves_up grafana_dashboards k) (sync_dashboard after obj)"
proof -
  have f: "never (moves_up grafana_dashboards k) (bnd (create_or_patch v_gd obj (\<lambda>ob _. finalized_dashboard ob)) (\<lambda>(_, new). ret new))"
    by (intro never_moves(1) never_bnd gdv.never_tampers_finalize) (auto intro: never_ret)
  show ?thesis
    unfolding sync_dashboard_def
    by (intro guarded_ret_named [OF f gdv.named_finalize [OF assms] assms]
        guarded_ret_named [OF never_moves(1) [OF dashboard_quiet(5)] gdv.named_patch_status [OF _ dashboard_status_key(2)]] dashboard_sets)
qed

lemma dashboard_secured:
  assumes "obj_key (wrap v_gd obj) = k" "\<not> held grafana_dashboards (wrap v_gd obj)"
  shows "guarded (\<lambda>e. misfiled grafana_dashboards e \<or> secures grafana_dashboards k e) (records grafana_dashboards k) (sync_dashboard after obj)"
proof -
  note n = guarded_never [OF never_moves(3) [OF never_bnd [OF gdv.never_tampers_finalize]]]
  show ?thesis
    unfolding sync_dashboard_def
    by (simp add: assms(2) [unfolded held_finalizers])
       (intro guarded_after n emits_bnd_left gdv.emits_secures assms(1); auto intro: never_ret)
qed

lemma dashboard_lawful: "holds (dashboard_reconcile after k) (\<lambda>_ es. lawful grafana_dashboards k es)"
  unfolding dashboard_reconcile_def fetch_result_def
  by (rule gdv.lawful_read)
     (auto simp: v_gd_def intro: dashboard_down [simplified v_gd_def] dashboard_up [simplified v_gd_def] dashboard_secured [simplified v_gd_def])

text \<open>Perses dashboards.\<close>

lemma perses_quiet:
  "never (tampers perses_dashboards) (prepare_perses obj)"
  "never (tampers perses_dashboards) (perses_set pc b prj fol)"
  "never (tampers perses_dashboards) (delete_external_perses obj)"
  "never (tampers perses_dashboards) (handle_perses_error after obj e)"
  "never (tampers perses_dashboards) (patch_status v_pd obj terminating_perses)"
  "never (tampers perses_dashboards) (patch_status v_pd obj processing_perses)"
proof -
  show "never (tampers perses_dashboards) (prepare_perses obj)" "never (tampers perses_dashboards) (perses_set pc b prj fol)"
    by (rule never_tampers [of "{}"]; auto intro!: trace_intros)+
  show "never (tampers perses_dashboards) (delete_external_perses obj)"
    by (rule never_tampers [of "{}"]) (auto simp: delete_external_perses_def split: option.split sum.split intro!: trace_intros)
  have m: "re_mark perses_dashboards (wrap v_pd (failed_perses r d)) = re_mark perses_dashboards (wrap v_pd d)"
    "re_mark perses_dashboards (wrap v_pd (terminating_perses d)) = re_mark perses_dashboards (wrap v_pd d)"
    "re_mark perses_dashboards (wrap v_pd (processing_perses d)) = re_mark perses_dashboards (wrap v_pd d)" for r d
    by (simp_all add: perses_dashboards_def v_pd_def failed_perses_def terminating_perses_def processing_perses_def)
  show "never (tampers perses_dashboards) (handle_perses_error after obj e)"
    unfolding handle_perses_error_def
    by (intro never_bnd pdv.never_tampers_status m never_ret never_tampers [of "{}"]) (auto intro: trace_intros)
  show "never (tampers perses_dashboards) (patch_status v_pd obj terminating_perses)"
    "never (tampers perses_dashboards) (patch_status v_pd obj processing_perses)"
    by (intro pdv.never_tampers_status m)+
qed

lemma perses_status_key:
  "obj_key (wrap v_pd (terminating_perses d)) = obj_key (wrap v_pd d)"
  "obj_key (wrap v_pd (processing_perses d)) = obj_key (wrap v_pd d)"
  "obj_key (wrap v_pd (current_perses st cfg nm d)) = obj_key (wrap v_pd d)"
  by (simp_all add: v_pd_def terminating_perses_def processing_perses_def current_perses_def obj_key_def)

lemma perses_down:
  assumes "obj_key (wrap v_pd obj) = k"
  shows "guarded (misfiled perses_dashboards) (moves_down perses_dashboards k) (delete_perses obj)"
  unfolding delete_perses_def
  by (rule guarded_ret_named [OF never_moves(2) [OF perses_quiet(5)] pdv.named_patch_status [OF assms perses_status_key(1)] assms],
      intro guarded_never never_bnd never_moves(2) [OF perses_quiet(3)] never_ignore_not_found pdv.never_unfinalize never_ret)

lemma perses_sets:
  assumes "obj_key (wrap v_pd obj) = k"
  shows "guarded (misfiled perses_dashboards) (moves_up perses_dashboards k) (set_perses after obj)"
proof -
  note e = guarded_never [OF never_moves(1) [OF perses_quiet(4)]] and p = guarded_never [OF never_moves(1) [OF perses_quiet(2)]]
  show ?thesis
    unfolding set_perses_def patch_status_def
    by (rule guarded_bnd [OF guarded_attempt [OF guarded_never [OF never_moves(1) [OF perses_quiet(1)]]]])
       (auto split: sum.split prod.split
         intro!: e p guarded_bnd guarded_attempt guarded_skip pdv.guarded_marking [OF assms] returns_ret perses_status_key never_ret)
qed

lemma perses_up:
  assumes "obj_key (wrap v_pd obj) = k"
  shows "guarded (misfiled perses_dashboards) (moves_up perses_dashboards k) (sync_perses after obj)"
proof -
  have f: "never (moves_up perses_dashboards k) (bnd (create_or_patch v_pd obj (\<lambda>ob _. finalized_perses ob)) (\<lambda>(_, new). ret new))"
    by (intro never_moves(1) never_bnd pdv.never_tampers_finalize) (auto intro: never_ret)
  show ?thesis
    unfolding sync_perses_def
    by (intro guarded_ret_named [OF f pdv.named_finalize [OF assms] assms]
        guarded_ret_named [OF never_moves(1) [OF perses_quiet(6)] pdv.named_patch_status [OF _ perses_status_key(2)]] perses_sets)
qed

lemma perses_secured:
  assumes "obj_key (wrap v_pd obj) = k" "\<not> held perses_dashboards (wrap v_pd obj)"
  shows "guarded (\<lambda>e. misfiled perses_dashboards e \<or> secures perses_dashboards k e) (records perses_dashboards k) (sync_perses after obj)"
proof -
  note n = guarded_never [OF never_moves(3) [OF never_bnd [OF pdv.never_tampers_finalize]]]
  show ?thesis
    unfolding sync_perses_def
    by (simp add: assms(2) [unfolded held_finalizers])
       (intro guarded_after n emits_bnd_left pdv.emits_secures assms(1); auto intro: never_ret)
qed

lemma perses_lawful: "holds (perses_reconcile after k) (\<lambda>_ es. lawful perses_dashboards k es)"
  unfolding perses_reconcile_def fetch_result_def
  by (rule pdv.lawful_read)
     (auto simp: v_pd_def intro: perses_down [simplified v_pd_def] perses_up [simplified v_pd_def] perses_secured [simplified v_pd_def])

text \<open>Grafana datasources: a run that adds the finalizer ends there.\<close>

lemma datasource_quiet:
  "never (tampers grafana_datasources) (delete_external_datasource ds)"
  "never (tampers grafana_datasources) (handle_failure ds reason)"
  "never (tampers grafana_datasources) (patch_status v_ds ds terminating_datasource)"
  "never (tampers grafana_datasources) (patch_status v_ds ds observed_datasource)"
proof -
  have m: "re_mark grafana_datasources (wrap v_ds (failed_datasource r d)) = re_mark grafana_datasources (wrap v_ds d)"
    "re_mark grafana_datasources (wrap v_ds (terminating_datasource d)) = re_mark grafana_datasources (wrap v_ds d)"
    "re_mark grafana_datasources (wrap v_ds (observed_datasource d)) = re_mark grafana_datasources (wrap v_ds d)" for r d
    by (simp_all add: grafana_datasources_def v_ds_def failed_datasource_def terminating_datasource_def observed_datasource_def)
  show "never (tampers grafana_datasources) (delete_external_datasource ds)"
    by (rule never_tampers [of "{}"]) (auto simp: delete_external_datasource_def split: option.split intro!: trace_intros)
  show "never (tampers grafana_datasources) (patch_status v_ds ds terminating_datasource)"
    "never (tampers grafana_datasources) (patch_status v_ds ds observed_datasource)"
    by (intro dsv.never_tampers_status m)+
  have t: "never (tampers grafana_datasources) (failure_event kd what mt r)"
    "never (tampers grafana_datasources) (send (EventQ kd k r x))" for kd what mt r k x
    by (rule never_tampers [of "{}"]; auto intro!: trace_intros)+
  show "never (tampers grafana_datasources) (handle_failure ds reason)"
    unfolding handle_failure_def
    by (auto split: sum.split intro!: never_bnd never_attempt dsv.never_tampers_status m never_ret t)
qed

lemma datasource_status_key:
  "obj_key (wrap v_ds (terminating_datasource d)) = obj_key (wrap v_ds d)"
  "obj_key (wrap v_ds (observed_datasource d)) = obj_key (wrap v_ds d)"
  "obj_key (wrap v_ds (created_datasource r d)) = obj_key (wrap v_ds d)"
  "obj_key (wrap v_ds (updated_datasource g d)) = obj_key (wrap v_ds d)"
  by (simp_all add: v_ds_def terminating_datasource_def observed_datasource_def created_datasource_def updated_datasource_def obj_key_def)

lemma datasource_down:
  assumes "obj_key (wrap v_ds ds) = k"
  shows "guarded (misfiled grafana_datasources) (moves_down grafana_datasources k) (delete_datasource ds)"
  unfolding delete_datasource_def
  by (intro guarded_if guarded_skip guarded_bnd dsv.never_unfinalize_current
      guarded_named [OF never_moves(2) [OF datasource_quiet(3)] dsv.named_patch_status [OF assms datasource_status_key(1)]]
      guarded_never [OF never_moves(2) [OF datasource_quiet(1)]])

lemma datasource_sets:
  assumes k: "obj_key (wrap v_ds ds) = k"
  shows "guarded (misfiled grafana_datasources) (moves_up grafana_datasources k) (create_or_update ds)"
proof -
  have n: "never (tampers grafana_datasources) (grafana_call gc q)" "never (tampers grafana_datasources) (new_grafana_client r)"
    "never (tampers grafana_datasources) (need x)" for gc q r x
    by (rule never_tampers [of "{}"]; auto intro!: trace_intros)+
  note n' = n [THEN never_moves(1), THEN guarded_never]
  have mk: "guarded (misfiled grafana_datasources) (moves_up grafana_datasources k) (mark_datasource ds f)"
    if "\<And>y. obj_key (wrap v_ds (f y)) = obj_key (wrap v_ds y)" for f
    unfolding mark_datasource_def patch_status_def
    by (auto split: sum.split intro!: guarded_bnd guarded_attempt guarded_skip guarded_fail dsv.guarded_marking [OF k] returns_ret that never_ret)
  show ?thesis
    unfolding create_or_update_def prefixed_def create_datasource_def update_datasource_def
    by (auto split: option.split sum.split prod.split intro!: guarded_bnd guarded_attempt guarded_skip guarded_fail n' mk datasource_status_key)
qed

lemma datasource_up:
  assumes k: "obj_key (wrap v_ds ds) = k"
  shows "guarded (misfiled grafana_datasources) (moves_up grafana_datasources k) (sync_datasource ds)"
  unfolding sync_datasource_def
  by (intro guarded_if guarded_skip guarded_never [OF never_moves(1) [OF never_bnd [OF dsv.never_tampers_finalize never_ret]]]
      guarded_named [OF never_moves(1) [OF datasource_quiet(4)] dsv.named_patch_status [OF k datasource_status_key(2)]])
     (auto split: sum.split intro!: guarded_bnd guarded_attempt guarded_skip guarded_fail datasource_sets
       guarded_never [OF never_moves(1) [OF datasource_quiet(2)]])

lemma datasource_secured:
  assumes "\<not> held grafana_datasources (wrap v_ds ds)"
  shows "guarded p (records grafana_datasources k) (sync_datasource ds)"
  unfolding sync_datasource_def
  by (simp add: assms [unfolded held_finalizers])
     (intro guarded_never never_moves(3) never_bnd dsv.never_tampers_finalize never_ret)

lemma datasource_lawful: "holds (no_result (datasource_reconcile k)) (\<lambda>_ es. lawful grafana_datasources k es)"
  unfolding datasource_reconcile_def fetch_def no_result_def bnd_assoc
  by (rule dsv.lawful_read)
     (auto simp: v_ds_def bnd_simps intro!: guarded_bnd guarded_skip datasource_down [simplified v_ds_def]
       datasource_up [simplified v_ds_def] datasource_secured [simplified v_ds_def])

subsection \<open>Everybody else\<close>

text \<open>
  The controller for client organizations writes copies of dashboards, whose finalizers it leaves alone;
  the others write no such objects.
\<close>

lemma never_tampers_copies:
  "never (tampers R) (copy_grafana ns mon d)" "never (tampers R) (copy_perses mon p)"
proof -
  have g: "never (tampers R) (create_or_patch v_gd x (copied_grafana C mon src b))" for C src b x mon
    by (intro trace_intros) (simp_all add: v_gd_def copied_grafana_def copy_meta_def Let_def)
  have p: "never (tampers R) (create_or_patch v_pd x (copied_perses C mon src b))" for C src b x mon
    by (intro trace_intros) (simp_all add: v_pd_def copied_perses_def copy_meta_def Let_def)
  show "never (tampers R) (copy_grafana ns mon d)" "never (tampers R) (copy_perses mon p)"
    unfolding copy_grafana_def copy_perses_def Let_def
    by (auto split: option.split sum.split intro!: never_ret never_fail never_panic never_bnd never_pures never_collect_err g p)
qed

definition writes_to :: "kind \<Rightarrow> (event \<Rightarrow> bool) \<Rightarrow> bool" where
  \<comment> \<open>only writes of single objects of kind K satisfy q\<close>
  "writes_to K q = (\<forall>e. q e \<longrightarrow> write_kind (fst e) = Some K \<and> (\<forall>ns. fst e \<noteq> DeleteAllOfQ K ns))"

lemma writes_toD:
  assumes "writes_to K q"
  shows "writes_only S m \<Longrightarrow> K \<notin> S \<Longrightarrow> never q m" "\<not> q (DeleteAllOfQ K' ns, a)" "write_kind r = None \<Longrightarrow> \<not> q (r, a)"
proof -
  show "writes_only S m \<Longrightarrow> K \<notin> S \<Longrightarrow> never q m"
    by (erule writes_only_outside) (use assms in \<open>auto simp: writes_to_def\<close>)
qed (use assms in \<open>fastforce simp: writes_to_def\<close>)+

lemma writes_to_tampers: "writes_to (re_kind R) (tampers R)"
  unfolding writes_to_def by (auto dest: tampers_writes)

lemma never_org:
  fixes O1 :: org_reconciler
  assumes w: "writes_to K q" and K: "K \<notin> {KNamespace, KRoleBinding, KAppBinding, KSecret}"
    and copies: "\<And>ns mon d. never q (copy_grafana ns mon d :: ('s, gerr list) M)"
      "\<And>mon d. never q (copy_perses mon d :: ('s, gerr list) M)"
  shows "never q (org_reconcile O1 k :: ('s, requeue) M)"
proof -
  let ?S = "{KNamespace, KRoleBinding, KAppBinding, KSecret}"
  note out = writes_toD(1) [OF w] and w' [simp] = writes_toD(2,3) [OF w]
  have cp: "never q (copy_dashboards ns mon :: ('s, _) M)" for ns mon
    unfolding copy_dashboards_def copy_grafana_dashboards_def copy_perses_dashboards_def
    by (auto intro!: trace_intros copies)
  have b: "never q (register_backends R' hc mon cfg org state :: ('s, _) M)" for R' hc mon cfg org state
    by (rule out [of ?S]) (use K in \<open>auto simp: register_backends_def set_namespace_marker_def intro!: trace_intros\<close>)
  have r: "never q (ensure_monitoring_role_binding mon org :: ('s, _) M)" for mon org
    by (rule out [of ?S]) (use K in \<open>auto simp: ensure_monitoring_role_binding_def intro!: trace_intros\<close>)
  have pc: "never q (build_prometheus_config pk svc :: ('s, _) M)" for pk svc
    by (rule out [of "{}"]) (simp_all add: wo_provision(3))
  have p: "never q (org_provision O1 ns mon org :: ('s, _) M)" for ns mon org
    unfolding org_provision_def by (auto split: option.split intro!: trace_intros cp b r pc)
  have e: "never q (ensure_finalizer ns :: ('s, _) M)" for ns
    by (rule out [of ?S]) (use K in \<open>auto simp: ensure_finalizer_def intro!: trace_intros\<close>)
  have m: "never q (ensure_monitoring_namespace ns :: ('s, _) M)" for ns
    by (rule out [of ?S]) (use K in \<open>auto simp: ensure_monitoring_namespace_def Let_def split: sum.split intro!: trace_intros\<close>)
  have s: "never q (org_sync O1 k ns org :: ('s, _) M)" for ns org
    unfolding org_sync_def by (auto simp: Let_def split: sum.split prod.split intro!: trace_intros p e m)
  have d: "never q (handle_deletion O1 ns org :: ('s, _) M)" for ns org
  proof -
    have u: "never q (unregister_org O1 org :: ('s, _) M)"
      by (rule out [of ?S]) (use K in \<open>auto intro!: trace_intros\<close>)
    have n: "never q (patch v_ns ns unfinalized :: ('s, _) M)"
      by (rule out [of ?S]) (use K in \<open>auto intro!: trace_intros\<close>)
    show ?thesis
      unfolding handle_deletion_def by (auto intro!: never_bnd never_ret never_ignore_not_found never_calls u n)
  qed
  have c: "never q (mark_cleaned_up ns :: ('s, _) M)" for ns
    by (rule out [of ?S]) (use K in \<open>auto simp: mark_cleaned_up_def intro!: trace_intros\<close>)
  show ?thesis
    unfolding org_reconcile_def Let_def org_terminate_def
    by (auto split: sum.split option.split intro!: trace_intros s d c)
qed

lemma others_never:
  fixes c :: "'s controller"
  assumes w: "writes_to K q" and K: "K \<in> {KGrafanaDashboard, KPersesDashboard, KGrafanaDatasource}"
    and copies: "\<And>ns mon d. never q (copy_grafana ns mon d :: ('s, gerr list) M)"
      "\<And>mon d. never q (copy_perses mon d :: ('s, gerr list) M)"
    and own: "\<And>c :: 's controller. c \<in> set (all_controllers self xc cid hub o1) \<Longrightarrow> K \<in> footprint (controller_name c) \<Longrightarrow>
      controller_name c = n \<or> controller_name c = ''namespace''"
    and c: "c \<in> set (all_controllers self xc cid hub o1)" "controller_name c \<noteq> n"
    and r: "run_of (ct_reconcile c k) es" "e \<in> set es"
  shows "\<not> q e"
proof (cases "K \<in> footprint (controller_name c)")
  case True
  then have "controller_name c = ''namespace''" using own c by blast
  then obtain O1 where O1: "ct_reconcile c = org_reconcile O1"
    using c(1) by (auto simp: all_controllers_def monitoring_registry_def grafana_controllers_def) (auto simp: controller_defs)
  have "never q (org_reconcile O1 k :: ('s, requeue) M)"
    by (rule never_org [OF w _ copies]) (use K in auto)
  then show ?thesis using run_of_never r O1 by metis
next
  case False
  have "list_all confined (all_controllers self xc cid hub o1 :: 's controller list)"
    by (simp add: all_controllers_def monitoring_registry_def grafana_controllers_def confined_openviz confined_monitoring)
  then have "writes_only (footprint (controller_name c)) (ct_reconcile c k)"
    using c(1) by (cases k) (auto simp: list_all_iff confined_def)
  then show ?thesis using run_of_never [OF writes_toD(1) [OF w] r] False by blast
qed

definition own_runs :: "'s controller list \<Rightarrow> string \<Rightarrow> key \<Rightarrow> event list \<Rightarrow> bool" where
  \<comment> \<open>the runs of the controller with name n\<close>
  "own_runs cs n k es = (\<exists>c \<in> set cs. controller_name c = n \<and> run_of (ct_reconcile c k) es)"

definition foreign_events :: "'m resource \<Rightarrow> 's controller list \<Rightarrow> string \<Rightarrow> event \<Rightarrow> bool" where
  \<comment> \<open>what a run of another controller does, in any order, and what a user does who neither takes the
     finalizer off nor writes a mark into the status\<close>
  "foreign_events R cs n e =
     ((\<exists>c \<in> set cs. controller_name c \<noteq> n \<and> (\<exists>k es. run_of (ct_reconcile c k) es \<and> e \<in> set es)) \<or> \<not> tampers R e)"

lemma foreign_keeps:
  assumes "re_kind R \<in> {KGrafanaDashboard, KPersesDashboard, KGrafanaDatasource}"
    and "\<And>c :: 's controller. c \<in> set (all_controllers self xc cid hub o1) \<Longrightarrow> re_kind R \<in> footprint (controller_name c) \<Longrightarrow>
      controller_name c = n \<or> controller_name c = ''namespace''"
    and e: "foreign_events R (all_controllers self xc cid hub o1 :: 's controller list) n e"
  shows "\<not> tampers R e"
  using e others_never [OF writes_to_tampers assms(1) never_tampers_copies assms(2)] unfolding foreign_events_def by blast

lemma own_handler:
  fixes c :: "'s controller"
  assumes "c \<in> set (all_controllers self xc cid hub o1)"
  shows "controller_name c = ''grafanadashboard'' \<Longrightarrow> ct_reconcile c = dashboard_reconcile (go_requeue_after o1)"
    and "controller_name c = ''persesdashboard'' \<Longrightarrow> ct_reconcile c = perses_reconcile (go_requeue_after o1)"
    and "controller_name c = ''grafanadatasource'' \<Longrightarrow> ct_reconcile c = (\<lambda>k. no_result (datasource_reconcile k))"
    and "KGrafanaDashboard \<in> footprint (controller_name c) \<Longrightarrow> controller_name c = ''grafanadashboard'' \<or> controller_name c = ''namespace''"
    and "KPersesDashboard \<in> footprint (controller_name c) \<Longrightarrow> controller_name c = ''persesdashboard'' \<or> controller_name c = ''namespace''"
    and "KGrafanaDatasource \<in> footprint (controller_name c) \<Longrightarrow> controller_name c = ''grafanadatasource'' \<or> controller_name c = ''namespace''"
proof -
  show "controller_name c = ''grafanadashboard'' \<Longrightarrow> ct_reconcile c = dashboard_reconcile (go_requeue_after o1)"
    "controller_name c = ''persesdashboard'' \<Longrightarrow> ct_reconcile c = perses_reconcile (go_requeue_after o1)"
    "controller_name c = ''grafanadatasource'' \<Longrightarrow> ct_reconcile c = (\<lambda>k. no_result (datasource_reconcile k))"
    using assms by (auto simp: all_controllers_def monitoring_registry_def grafana_controllers_def)
      (simp_all add: dashboard_controller_def perses_controller_def datasource_controller_def managed_def watching_def)
qed (auto simp: footprint_def split: if_splits)

interpretation gdr: finalized_resource grafana_dashboards
  "own_runs (all_controllers self xc cid hub o1 :: 's controller list) ''grafanadashboard''"
  "foreign_events grafana_dashboards (all_controllers self xc cid hub o1 :: 's controller list) ''grafanadashboard''"
  for self xc cid hub o1
proof unfold_locales
  fix k es assume "own_runs (all_controllers self xc cid hub o1 :: 's controller list) ''grafanadashboard'' k es"
  then show "lawful grafana_dashboards k es"
    by (auto simp: own_runs_def own_handler(1) dest: run_of_holds [OF dashboard_lawful])
next
  fix k e assume "foreign_events grafana_dashboards (all_controllers self xc cid hub o1 :: 's controller list) ''grafanadashboard'' e"
  then have "\<not> tampers grafana_dashboards e" by (rule foreign_keeps [rotated 2]) (auto dest: own_handler(4))
  then show "\<not> records grafana_dashboards k e \<and> \<not> strips grafana_dashboards k e" unfolding tampers_def by blast
qed

interpretation pdr: finalized_resource perses_dashboards
  "own_runs (all_controllers self xc cid hub o1 :: 's controller list) ''persesdashboard''"
  "foreign_events perses_dashboards (all_controllers self xc cid hub o1 :: 's controller list) ''persesdashboard''"
  for self xc cid hub o1
proof unfold_locales
  fix k es assume "own_runs (all_controllers self xc cid hub o1 :: 's controller list) ''persesdashboard'' k es"
  then show "lawful perses_dashboards k es"
    by (auto simp: own_runs_def own_handler(2) dest: run_of_holds [OF perses_lawful])
next
  fix k e assume "foreign_events perses_dashboards (all_controllers self xc cid hub o1 :: 's controller list) ''persesdashboard'' e"
  then have "\<not> tampers perses_dashboards e" by (rule foreign_keeps [rotated 2]) (auto dest: own_handler(5))
  then show "\<not> records perses_dashboards k e \<and> \<not> strips perses_dashboards k e" unfolding tampers_def by blast
qed

interpretation dsr: finalized_resource grafana_datasources
  "own_runs (all_controllers self xc cid hub o1 :: 's controller list) ''grafanadatasource''"
  "foreign_events grafana_datasources (all_controllers self xc cid hub o1 :: 's controller list) ''grafanadatasource''"
  for self xc cid hub o1
proof unfold_locales
  fix k es assume "own_runs (all_controllers self xc cid hub o1 :: 's controller list) ''grafanadatasource'' k es"
  then show "lawful grafana_datasources k es"
    by (auto simp: own_runs_def own_handler(3) dest: run_of_holds [OF datasource_lawful])
next
  fix k e assume "foreign_events grafana_datasources (all_controllers self xc cid hub o1 :: 's controller list) ''grafanadatasource'' e"
  then have "\<not> tampers grafana_datasources e" by (rule foreign_keeps [rotated 2]) (auto dest: own_handler(6))
  then show "\<not> records grafana_datasources k e \<and> \<not> strips grafana_datasources k e" unfolding tampers_def by blast
qed

subsection \<open>The invariant\<close>

definition leaks_nothing :: "'m resource \<Rightarrow> 's controller list \<Rightarrow> string \<Rightarrow> bool" where
  \<comment> \<open>whatever interleaving of the runs of controller n with everybody else's steps\<close>
  "leaks_nothing R cs n = leak_free R (own_runs cs n) (foreign_events R cs n)"

text \<open>
  C2: in every interleaving of the runs of all controllers of both processes with the steps of users,
  crashes included, an API object whose status records a dashboard or datasource in Grafana or Perses
  and that is not being deleted holds the finalizer of its controller.
\<close>

theorem nothing_forgotten:
  "leaks_nothing grafana_dashboards (all_controllers self xc cid hub o1 :: 's controller list) ''grafanadashboard'' \<and>
   leaks_nothing perses_dashboards (all_controllers self xc cid hub o1 :: 's controller list) ''persesdashboard'' \<and>
   leaks_nothing grafana_datasources (all_controllers self xc cid hub o1 :: 's controller list) ''grafanadatasource''"
  unfolding leaks_nothing_def by (intro conjI gdr.no_leak pdr.no_leak dsr.no_leak)

text \<open>
  The invariant is about something: a run that publishes a dashboard reaches a state whose dashboard
  records what Grafana answered.
\<close>

definition demo_key :: key where
  "demo_key = (''demo'', ''pods'')"

lemma dashboard_handler: "ct_reconcile (dashboard_controller a) = dashboard_reconcile a"
  by (simp add: dashboard_controller_def managed_def watching_def)

lemma demo_created:
  "evolves grafana_dashboards own (foreign_events grafana_dashboards cs n)
     \<lparr>cl_objects = (\<lambda>_. None)(demo_key := Some (OGrafanaDashboard demo_dashboard)), cl_runs = \<lambda>_. []\<rparr>"
proof -
  have k: "obj_key (OGrafanaDashboard demo_dashboard) = demo_key"
    by (simp add: demo_dashboard_def new_meta_def obj_key_def meta_key_def demo_key_def)
  have "created grafana_dashboards (OGrafanaDashboard demo_dashboard) (OGrafanaDashboard demo_dashboard)"
    by (simp add: created_def same_object_def demo_dashboard_def new_meta_def grafana_dashboards_def)
  then have "serves grafana_dashboards (\<lambda>_. None) (CreateQ (OGrafanaDashboard demo_dashboard), RObj (OGrafanaDashboard demo_dashboard))
      ((\<lambda>_. None)(demo_key := Some (OGrafanaDashboard demo_dashboard)))"
    unfolding k [symmetric] by (intro serves.create) (auto simp: confirms_def)
  then show ?thesis
    using evolves.foreign_step [OF evolves.boot, where e = "(CreateQ (OGrafanaDashboard demo_dashboard), RObj (OGrafanaDashboard demo_dashboard))"
      and foreign = "foreign_events grafana_dashboards cs n"] by (simp add: foreign_events_def)
qed

lemma serves_cons:
  assumes "evolves R own foreign \<lparr>cl_objects = s, cl_runs = (\<lambda>_. [])(k := e # es)\<rparr>" "serves R s e s'"
  shows "evolves R own foreign \<lparr>cl_objects = s', cl_runs = (\<lambda>_. [])(k := es)\<rparr>"
  using evolves.own_step [OF assms(1), of k e es s'] assms(2) by simp

lemma published_reachable:
  assumes cs: "dashboard_controller (seconds 60) \<in> set (cs :: unit controller list)"
  shows "\<exists>S d. evolves grafana_dashboards (own_runs cs ''grafanadashboard'') (foreign_events grafana_dashboards cs ''grafanadashboard'') S \<and>
    cl_objects S demo_key = Some (OGrafanaDashboard d) \<and> re_mark grafana_dashboards (OGrafanaDashboard d) = Some ''x7''"
proof -
  let ?own = "own_runs cs ''grafanadashboard''" and ?foreign = "foreign_events grafana_dashboards cs ''grafanadashboard''"
  let ?s = "(\<lambda>_. None)(demo_key := Some (OGrafanaDashboard demo_dashboard))"
  have run: "?own demo_key (fst (snd (dashboard_reconcile (seconds 60) demo_key quiet_env (start ()))))"
    unfolding own_runs_def run_of_def
    by (rule bexI [OF _ cs]) (auto simp: dashboard_handler prod_eq_iff)
  have read: "serves grafana_dashboards ?s (Get KGrafanaDashboard demo_key, RObj (OGrafanaDashboard demo_dashboard)) ?s"
    using serves.read [of ?s demo_key "OGrafanaDashboard demo_dashboard" grafana_dashboards] by simp
  have other: "serves grafana_dashboards ?s (Get KAppBinding k, a) ?s" "serves grafana_dashboards ?s (GrafanaQ gc q, a) ?s" for k a gc q
    by (rule serves.elsewhere; simp)+
  have k: "obj_key (OGrafanaDashboard demo_current) = demo_key"
    by (simp add: demo_current_def demo_dashboard_def new_meta_def obj_key_def meta_key_def demo_key_def)
  have "status_patched grafana_dashboards (OGrafanaDashboard demo_dashboard) (OGrafanaDashboard demo_current)
      (OGrafanaDashboard demo_dashboard) (OGrafanaDashboard demo_current)"
    by (simp add: status_patched_def same_object_def demo_current_def obj_key_def grants_def grafana_dashboards_def demo_dashboard_def)
  then have put: "serves grafana_dashboards ?s
      (StatusPatchQ (OGrafanaDashboard demo_dashboard) (OGrafanaDashboard demo_current), RObj (OGrafanaDashboard demo_current))
      (?s(demo_key := Some (OGrafanaDashboard demo_current)))"
    using serves.status [of "OGrafanaDashboard demo_current" grafana_dashboards ?s] by (simp add: k confirms_def)
  have "evolves grafana_dashboards ?own ?foreign \<lparr>cl_objects = ?s,
      cl_runs = (\<lambda>_. [])(demo_key := fst (snd (dashboard_reconcile (seconds 60) demo_key quiet_env (start ()))))\<rparr>"
    using evolves.start_run [where own = ?own and es = "fst (snd (dashboard_reconcile (seconds 60) demo_key quiet_env (start ())))",
      OF demo_created, of demo_key cs "''grafanadashboard''"] run by simp
  then have "evolves grafana_dashboards ?own ?foreign
      \<lparr>cl_objects = ?s(demo_key := Some (OGrafanaDashboard demo_current)), cl_runs = (\<lambda>_. [])(demo_key := [])\<rparr>"
    unfolding demo_run [folded demo_key_def] fst_conv snd_conv list.map quiet_answer.simps
    by (rule serves_cons [OF serves_cons [OF serves_cons [OF serves_cons [OF serves_cons [OF serves_cons [OF serves_cons]]]]]])
       (rule read other put)+
  then show ?thesis
    by (intro exI conjI) (auto simp: grafana_dashboards_def demo_current_def)
qed

end
