(* ===== verification/Stale_Objects.thy ===== *)
theory Stale_Objects imports Stale_Reads Finalized_Objects begin

section \<open>No object is forgotten behind a lagging cache\<close>

text \<open>
  The three openviz controllers satisfy the contract of \<open>Stale_Reads\<close>: each run begins with the read of
  its object; one that sees the object being deleted never adds the finalizer and records nothing; any
  other one never takes it off, and records only after it saw or made the object hold it.
\<close>

definition adds_any :: "'m resource \<Rightarrow> event \<Rightarrow> bool" where
  "adds_any R e = (\<exists>k. adds R k e)"

definition adds_off :: "'m resource \<Rightarrow> key \<Rightarrow> event \<Rightarrow> bool" where
  "adds_off R k e = (\<exists>j. j \<noteq> k \<and> adds R j e)"

lemma adds_simps [simp]:
  "adds_any R (CreateQ n, a) \<longleftrightarrow> kind_of n = re_kind R \<and> held R n"
  "adds_any R (PatchQ b n, a) \<longleftrightarrow> kind_of n = re_kind R \<and> finalizers n \<noteq> finalizers b \<and> held R n"
  "adds_any R (Get K k, a) = False" "adds_any R (StatusPatchQ b n, a) = False"
  "adds_any R (DeleteQ K k, a) = False" "adds_any R (DeleteAllOfQ K ns, a) = False"
  "adds_off R j (CreateQ n, a) \<longleftrightarrow> kind_of n = re_kind R \<and> obj_key n \<noteq> j \<and> held R n"
  "adds_off R j (PatchQ b n, a) \<longleftrightarrow> kind_of n = re_kind R \<and> obj_key n \<noteq> j \<and> finalizers n \<noteq> finalizers b \<and> held R n"
  "adds_off R j (Get K k, a) = False" "adds_off R j (StatusPatchQ b n, a) = False"
  by (auto simp: adds_any_def adds_off_def simp del: split_paired_Ex)

lemma adds_writes: "adds_any R e \<Longrightarrow> write_kind (fst e) = Some (re_kind R)"
  unfolding adds_any_def by (auto elim!: adds.elims)

lemma adds_quiet [simp]: "write_kind q = None \<Longrightarrow> \<not> adds_any R (q, a)"
  using adds_writes by fastforce

lemma never_adds: "writes_only S m \<Longrightarrow> re_kind R \<notin> S \<Longrightarrow> never (adds_any R) m"
  by (erule writes_only_outside) (use adds_writes in auto)

lemma adds_off_any: "never (adds_any R) m \<Longrightarrow> never (adds_off R k) m"
  by (erule never_weaken) (auto simp: adds_any_def adds_off_def)

lemma guarded_either: "guarded p q m \<Longrightarrow> guarded p q' m \<Longrightarrow> guarded p (\<lambda>e. q e \<or> q' e) m"
  unfolding guarded_def
  by (drule (1) holds_conj, erule holds_mono) (auto simp: precedes_iff)

lemma guarded_weaken: "guarded p q m \<Longrightarrow> (\<And>e. q' e \<Longrightarrow> q e) \<Longrightarrow> guarded p q' m"
  unfolding guarded_def by (erule holds_mono) (auto simp: precedes_iff)

lemma holds_only_strips:
  assumes "guarded (misfiled R) (moves_down R k) m" "never (adds_any R) m"
  shows "holds m (\<lambda>_ es. only_strips R k es)"
proof -
  have "guarded (misfiled R) (\<lambda>e. meddles R k e \<or> records R k e \<or> adds R k e) m"
    by (rule guarded_weaken [OF guarded_either [OF assms(1) guarded_never [OF assms(2)]]])
       (unfold meddles_def moves_down_def off_def adds_any_def, blast)
  then show ?thesis by (simp add: only_strips_def guarded_def)
qed

lemma holds_never_strips:
  assumes "guarded (misfiled R) (moves_up R k) m" "guarded (misfiled R) (adds_off R k) m"
  shows "holds m (\<lambda>_ es. never_strips R k es)"
proof -
  have "guarded (misfiled R) (\<lambda>e. meddles R k e \<or> strips R k e) m"
    by (rule guarded_weaken [OF guarded_either [OF assms]])
       (unfold meddles_def moves_up_def off_def adds_off_def, blast)
  then show ?thesis by (simp add: never_strips_def guarded_def)
qed

context resource_view begin

lemma guarded_finalize:
  assumes x: "obj_key (wrap v x) = k"
  shows "guarded (misfiled R) (adds_off R k) (create_or_patch v x (\<lambda>y _. fin y))"
proof -
  have g: "holds (attempt (kget v k)) (\<lambda>r es. (\<forall>e \<in> set es. \<not> adds_off R k e) \<and>
      (\<forall>y. r = Ok y \<longrightarrow> (\<exists>x. y = Inr x \<and> obj_key (wrap v x) \<noteq> k) \<longrightarrow> (\<exists>e \<in> set es. misfiled R e)))"
    by (rule holds_mono [OF holds_read]) auto
  have c: "obj_key (set_rversion [] (wrap v (fin x))) = k"
    by (simp add: fin_key x)
  show ?thesis
    unfolding create_or_patch_def x
    by (rule guarded_read [OF g])
       (auto simp: c x fin_key split: sum.split intro!: guarded_if guarded_fail guarded_never never_bnd never_ret never_pures never_calls)
qed

lemma never_adds_status: "never (adds_any R) (patch_status v x f)"
  by (intro trace_intros) simp_all

lemma never_adds_status_e: "(\<And>y. never (adds_any R) (f y)) \<Longrightarrow> never (adds_any R) (patch_status_e v x f)"
  by (intro trace_intros) simp_all

lemma orderly_read:
  assumes idle: "\<And>e. holds (g (Inl e)) (\<lambda>_ es. es = [])"
    and down: "\<And>x. obj_key (wrap v x) = k \<Longrightarrow> deleting (wrap v x) \<Longrightarrow> holds (g (Inr x)) (\<lambda>_ es. only_strips R k es)"
    and up: "\<And>x. obj_key (wrap v x) = k \<Longrightarrow> \<not> deleting (wrap v x) \<Longrightarrow> holds (g (Inr x)) (\<lambda>_ es. never_strips R k es)"
    and sec: "\<And>x. obj_key (wrap v x) = k \<Longrightarrow> \<not> deleting (wrap v x) \<Longrightarrow> \<not> held R (wrap v x) \<Longrightarrow>
      guarded (\<lambda>e. misfiled R e \<or> secures R k e) (records R k) (g (Inr x))"
  shows "holds (bnd (attempt (kget v k)) g) (\<lambda>_ es. orderly R k es)"
proof (rule holds_bnd)
  show "holds (attempt (kget v k)) (\<lambda>r es. (\<exists>a. es = [(Get (re_kind R) k, a)] \<and>
      (\<forall>x. r = Ok (Inr x) \<longrightarrow> a = RObj (wrap v x))))" (is "holds _ ?\<Psi>")
    by (rule holds_mono [OF holds_read]) auto
  have quiet: "orderly R k [(Get (re_kind R) k, a)]" for a
    by (auto simp: only_strips_def never_strips_def secures_first_def split: response.split)
  show "orderly R k es" if "?\<Psi> (Err e) es" for e es using that quiet by auto
  show "orderly R k es" if "?\<Psi> (Panic p) es" for p es using that quiet by auto
  fix r :: "gerr + 'a" and es assume I: "?\<Psi> (Ok r) es"
  show "holds (g r) (\<lambda>_ es'. orderly R k (es @ es'))"
  proof (cases r)
    case (Inl e)
    then show ?thesis using I idle [of e] quiet by (auto elim!: holds_mono)
  next
    case (Inr x)
    then have es: "es = [(Get (re_kind R) k, RObj (wrap v x))]" using I by simp
    consider (other) "obj_key (wrap v x) \<noteq> k" | (down) "obj_key (wrap v x) = k" "deleting (wrap v x)"
      | (kept) "obj_key (wrap v x) = k" "\<not> deleting (wrap v x)" "held R (wrap v x)"
      | (fresh) "obj_key (wrap v x) = k" "\<not> deleting (wrap v x)" "\<not> held R (wrap v x)" by blast
    then show ?thesis
    proof cases
      case down
      then show ?thesis using holds_mono [OF assms(2) [OF down]] by (simp add: es Inr)
    next
      case kept
      then show ?thesis using holds_mono [OF up [OF kept(1,2)]] by (simp add: es Inr)
    next
      case fresh
      then show ?thesis
        using holds_mono [OF holds_conj [OF up [OF fresh(1,2)] sec [OF fresh, unfolded guarded_def]]]
        by (simp add: es Inr secures_first_def)
    qed (simp add: es)
  qed
qed

lemma orderly_run:
  assumes "\<And>e. holds (g (Inl e)) (\<lambda>_ es. es = [])" "\<And>x. g (Inr x) = (if deleting (wrap v x) then d x else u x)"
    and "\<And>x. obj_key (wrap v x) = k \<Longrightarrow> guarded (misfiled R) (moves_down R k) (d x)" "\<And>x. never (adds_any R) (d x)"
    and "\<And>x. obj_key (wrap v x) = k \<Longrightarrow> guarded (misfiled R) (moves_up R k) (u x)"
    and "\<And>x. obj_key (wrap v x) = k \<Longrightarrow> guarded (misfiled R) (adds_off R k) (u x)"
    and "\<And>x. obj_key (wrap v x) = k \<Longrightarrow> \<not> held R (wrap v x) \<Longrightarrow>
      guarded (\<lambda>e. misfiled R e \<or> secures R k e) (records R k) (u x)"
  shows "holds (bnd (attempt (kget v k)) g) (\<lambda>_ es. orderly R k es)"
  by (rule orderly_read) (simp_all add: assms holds_only_strips holds_never_strips)

end

subsection \<open>The three controllers\<close>

lemma never_adds_unfinalize:
  "never (adds_any grafana_dashboards) (kpatch v_gd d (unfinalized_dashboard d))"
  "never (adds_any perses_dashboards) (kpatch v_pd p (unfinalized_perses p))"
  "never (adds_any grafana_datasources) (create_or_patch v_ds s (\<lambda>d _. unfinalized_datasource d))"
  by (intro trace_intros; simp add: held_set_rversion held_finalizers;
      simp add: unfinalized_dashboard_def unfinalized_perses_def unfinalized_datasource_def)+

lemma guarded_ret_finalize:
  assumes "guarded p q m" "\<And>y. never q (f y)"
  shows "guarded p q (bnd (if c then ret x else m) f)"
  by (rule guarded_bnd) (auto intro: guarded_if guarded_skip guarded_never assms)

lemma dashboard_adds:
  "never (adds_any grafana_dashboards) (delete_dashboard obj)"
  "never (adds_any grafana_dashboards) (set_dashboard after obj)"
proof -
  have n: "never (adds_any grafana_dashboards) (delete_external d)" "never (adds_any grafana_dashboards) (prepare_dashboard d)"
    "never (adds_any grafana_dashboards) (grafana_call gc q)" "never (adds_any grafana_dashboards) (answer (GrafanaQ gc GetCurrentOrg) g)"
    "never (adds_any grafana_dashboards) (failure_event kd what mt r)"
    "never (adds_any grafana_dashboards) (current_dashboard st resp i d)" for d gc q g kd what mt r st resp i
    by (rule never_adds [of "{}"], auto simp: delete_external_def current_dashboard_def
        split: option.split sum.split intro!: trace_intros)+
  have h: "never (adds_any grafana_dashboards) (handle_set_error after d e u)" for d e u
    unfolding handle_set_error_def by (intro never_bnd never_ret n gdv.never_adds_status)
  show "never (adds_any grafana_dashboards) (delete_dashboard obj)"
    unfolding delete_dashboard_def
    by (auto intro!: never_bnd never_ret never_ignore_not_found never_adds_unfinalize n gdv.never_adds_status)
  show "never (adds_any grafana_dashboards) (set_dashboard after obj)"
    unfolding set_dashboard_def publish_dashboard_def
    by (auto split: sum.split option.split prod.split
      intro!: never_bnd never_attempt never_ret n h gdv.never_adds_status_e)
qed

lemma dashboard_adds_off:
  assumes "obj_key (wrap v_gd obj) = k"
  shows "guarded (misfiled grafana_dashboards) (adds_off grafana_dashboards k) (sync_dashboard after obj)"
  unfolding sync_dashboard_def
  by (rule guarded_ret_finalize)
     (auto intro!: guarded_bnd guarded_skip gdv.guarded_finalize [OF assms] adds_off_any never_bnd never_ret
        gdv.never_adds_status dashboard_adds)

lemma dashboard_orderly: "holds (dashboard_reconcile after k) (\<lambda>_ es. orderly grafana_dashboards k es)"
  unfolding dashboard_reconcile_def fetch_result_def
  by (rule gdv.orderly_run [where d = delete_dashboard and u = "sync_dashboard after"])
     (simp_all add: dashboard_down dashboard_adds(1) dashboard_up dashboard_adds_off dashboard_secured, simp add: v_gd_def)

lemma perses_adds:
  "never (adds_any perses_dashboards) (delete_perses obj)"
  "never (adds_any perses_dashboards) (set_perses after obj)"
proof -
  have n: "never (adds_any perses_dashboards) (delete_external_perses d)" "never (adds_any perses_dashboards) (prepare_perses d)"
    "never (adds_any perses_dashboards) (perses_set pc b prj fol)" "never (adds_any perses_dashboards) (failure_event kd what mt r)"
    for d pc b prj fol kd what mt r
    by (rule never_adds [of "{}"], auto simp: delete_external_perses_def
        split: option.split sum.split intro!: trace_intros)+
  have h: "never (adds_any perses_dashboards) (handle_perses_error after d e)" for d e
    unfolding handle_perses_error_def by (intro never_bnd never_ret n pdv.never_adds_status)
  show "never (adds_any perses_dashboards) (delete_perses obj)"
    unfolding delete_perses_def
    by (auto intro!: never_bnd never_ret never_ignore_not_found never_adds_unfinalize n pdv.never_adds_status)
  show "never (adds_any perses_dashboards) (set_perses after obj)"
    unfolding set_perses_def
    by (auto split: sum.split option.split prod.split
      intro!: never_bnd never_attempt never_ret n h pdv.never_adds_status)
qed

lemma perses_adds_off:
  assumes "obj_key (wrap v_pd obj) = k"
  shows "guarded (misfiled perses_dashboards) (adds_off perses_dashboards k) (sync_perses after obj)"
  unfolding sync_perses_def
  by (rule guarded_ret_finalize)
     (auto intro!: guarded_bnd guarded_skip pdv.guarded_finalize [OF assms] adds_off_any never_bnd never_ret
        pdv.never_adds_status perses_adds)

lemma perses_orderly: "holds (perses_reconcile after k) (\<lambda>_ es. orderly perses_dashboards k es)"
  unfolding perses_reconcile_def fetch_result_def
  by (rule pdv.orderly_run [where d = delete_perses and u = "sync_perses after"])
     (simp_all add: perses_down perses_adds(1) perses_up perses_adds_off perses_secured, simp add: v_pd_def)

lemma datasource_adds:
  "never (adds_any grafana_datasources) (delete_datasource ds)"
  "never (adds_any grafana_datasources) (create_or_update ds)"
  "never (adds_any grafana_datasources) (handle_failure ds reason)"
proof -
  have n: "never (adds_any grafana_datasources) (delete_external_datasource d)"
    "never (adds_any grafana_datasources) (grafana_call gc q)" "never (adds_any grafana_datasources) (new_grafana_client r)"
    "never (adds_any grafana_datasources) (need x)" "never (adds_any grafana_datasources) (failure_event kd what mt why)"
    "never (adds_any grafana_datasources) (send (EventQ kd key why msg))" for d gc q r x kd what mt why key msg
    by (rule never_adds [of "{}"], auto simp: delete_external_datasource_def
        split: option.split sum.split intro!: trace_intros)+
  have mk: "never (adds_any grafana_datasources) (mark_datasource d f)" for d f
    unfolding mark_datasource_def
    by (auto split: sum.split intro!: never_bnd never_attempt never_ret never_fail dsv.never_adds_status)
  show "never (adds_any grafana_datasources) (delete_datasource ds)"
    unfolding delete_datasource_def
    by (auto intro!: never_bnd never_ret never_adds_unfinalize n dsv.never_adds_status)
  show "never (adds_any grafana_datasources) (create_or_update ds)"
    unfolding create_or_update_def prefixed_def create_datasource_def update_datasource_def
    by (auto split: option.split sum.split prod.split intro!: never_bnd never_attempt never_ret never_fail n mk)
  show "never (adds_any grafana_datasources) (handle_failure ds reason)"
    unfolding handle_failure_def
    by (auto split: sum.split intro!: never_bnd never_attempt never_ret n dsv.never_adds_status)
qed

lemma datasource_adds_off:
  assumes "obj_key (wrap v_ds ds) = k"
  shows "guarded (misfiled grafana_datasources) (adds_off grafana_datasources k) (sync_datasource ds)"
proof -
  have "never (adds_any grafana_datasources) (if already_reconciled ds then ret () else
      bnd (patch_status v_ds ds observed_datasource) (\<lambda>ds1. bnd (attempt (create_or_update ds1)) (\<lambda>r. case r of
          Inl e \<Rightarrow> seq (handle_failure ds1 (err_msg e)) (fail e)
        | Inr _ \<Rightarrow> ret ())))"
    by (auto split: sum.split
      intro!: never_bnd never_attempt never_fail never_ret dsv.never_adds_status datasource_adds)
  then show ?thesis
    unfolding sync_datasource_def
    by (intro guarded_if guarded_bnd guarded_skip dsv.guarded_finalize [OF assms] guarded_never [OF adds_off_any])
qed

lemma datasource_orderly: "holds (no_result (datasource_reconcile k)) (\<lambda>_ es. orderly grafana_datasources k es)"
  unfolding datasource_reconcile_def fetch_def no_result_def bnd_assoc
  by (rule dsv.orderly_run [where d = "\<lambda>ds. bnd (delete_datasource ds) (\<lambda>_. ret 0)" and u = "\<lambda>ds. bnd (sync_datasource ds) (\<lambda>_. ret 0)"])
     (auto simp: bnd_simps v_ds_def intro!: guarded_bnd guarded_skip never_bnd never_ret datasource_adds(1) datasource_down [simplified v_ds_def]
       datasource_up [simplified v_ds_def] datasource_adds_off [simplified v_ds_def] datasource_secured [simplified v_ds_def])

subsection \<open>Everybody else\<close>

lemma never_adds_copies:
  "never (adds_any R) (copy_grafana ns mon d)" "never (adds_any R) (copy_perses mon p)"
proof -
  have h: "finalizers ob = [] \<Longrightarrow> \<not> held R ob" for ob by (simp add: held_def)
  have g: "never (adds_any R) (create_or_patch v_gd (empty_grafana_dashboard mon n) (copied_grafana C mon src b))" for C src b n
    by (intro trace_intros; simp add: held_set_rversion h v_gd_def copied_grafana_def copy_meta_def Let_def
        empty_grafana_dashboard_def new_meta_def)
  have p: "never (adds_any R) (create_or_patch v_pd (empty_perses_dashboard mon n) (copied_perses C mon src b))" for C src b n
    by (intro trace_intros; simp add: held_set_rversion h v_pd_def copied_perses_def copy_meta_def Let_def
        empty_perses_dashboard_def new_meta_def)
  show "never (adds_any R) (copy_grafana ns mon d)" "never (adds_any R) (copy_perses mon p)"
    unfolding copy_grafana_def copy_perses_def Let_def
    by (auto split: option.split sum.split intro!: never_ret never_fail never_panic never_bnd never_pures never_collect_err g p)
qed

lemma writes_to_adds: "writes_to (re_kind R) (adds_any R)"
  unfolding writes_to_def by (auto dest: adds_writes)

definition foreign_writes :: "'m resource \<Rightarrow> 's controller list \<Rightarrow> string \<Rightarrow> objects \<Rightarrow> event \<Rightarrow> bool" where
  \<comment> \<open>what a run of another controller does, and what a user does who leaves the mark alone and neither
     takes the finalizer off nor puts it on an object of the server that does not have it\<close>
  "foreign_writes R cs n s e =
     ((\<exists>c \<in> set cs. controller_name c \<noteq> n \<and> (\<exists>k es. run_of (ct_reconcile c k) es \<and> e \<in> set es)) \<or>
      \<not> tampers R e \<and> (\<forall>k. adds R k e \<longrightarrow> secured R s k))"

lemma foreign_writes_keep:
  assumes "re_kind R \<in> {KGrafanaDashboard, KPersesDashboard, KGrafanaDatasource}"
    and "\<And>c :: 's controller. c \<in> set (all_controllers self xc cid hub o1) \<Longrightarrow> re_kind R \<in> footprint (controller_name c) \<Longrightarrow>
      controller_name c = n \<or> controller_name c = ''namespace''"
    and e: "foreign_writes R (all_controllers self xc cid hub o1 :: 's controller list) n s e"
  shows "\<not> records R k e \<and> \<not> strips R k e" "adds R k e \<Longrightarrow> secured R s k"
proof -
  note t = others_never [OF writes_to_tampers assms(1) never_tampers_copies assms(2)]
    and a = others_never [OF writes_to_adds assms(1) never_adds_copies assms(2)]
  show "\<not> records R k e \<and> \<not> strips R k e" using e t unfolding foreign_writes_def tampers_def by blast
  show "adds R k e \<Longrightarrow> secured R s k" using e a unfolding foreign_writes_def adds_any_def by blast
qed

interpretation sgd: stale_resource grafana_dashboards
  "own_runs (all_controllers self xc cid hub o1 :: 's controller list) ''grafanadashboard''"
  "foreign_writes grafana_dashboards (all_controllers self xc cid hub o1 :: 's controller list) ''grafanadashboard''"
  for self xc cid hub o1
proof unfold_locales
  fix k es assume "own_runs (all_controllers self xc cid hub o1 :: 's controller list) ''grafanadashboard'' k es"
  then show "orderly grafana_dashboards k es"
    by (auto simp: own_runs_def own_handler(1) dest: run_of_holds [OF dashboard_orderly])
next
  fix s e k assume f: "foreign_writes grafana_dashboards (all_controllers self xc cid hub o1 :: 's controller list) ''grafanadashboard'' s e"
  show "\<not> records grafana_dashboards k e \<and> \<not> strips grafana_dashboards k e" "adds grafana_dashboards k e \<Longrightarrow> secured grafana_dashboards s k"
    by (rule foreign_writes_keep [OF _ _ f]; auto dest: own_handler(4))+
qed

interpretation spd: stale_resource perses_dashboards
  "own_runs (all_controllers self xc cid hub o1 :: 's controller list) ''persesdashboard''"
  "foreign_writes perses_dashboards (all_controllers self xc cid hub o1 :: 's controller list) ''persesdashboard''"
  for self xc cid hub o1
proof unfold_locales
  fix k es assume "own_runs (all_controllers self xc cid hub o1 :: 's controller list) ''persesdashboard'' k es"
  then show "orderly perses_dashboards k es"
    by (auto simp: own_runs_def own_handler(2) dest: run_of_holds [OF perses_orderly])
next
  fix s e k assume f: "foreign_writes perses_dashboards (all_controllers self xc cid hub o1 :: 's controller list) ''persesdashboard'' s e"
  show "\<not> records perses_dashboards k e \<and> \<not> strips perses_dashboards k e" "adds perses_dashboards k e \<Longrightarrow> secured perses_dashboards s k"
    by (rule foreign_writes_keep [OF _ _ f]; auto dest: own_handler(5))+
qed

interpretation sds: stale_resource grafana_datasources
  "own_runs (all_controllers self xc cid hub o1 :: 's controller list) ''grafanadatasource''"
  "foreign_writes grafana_datasources (all_controllers self xc cid hub o1 :: 's controller list) ''grafanadatasource''"
  for self xc cid hub o1
proof unfold_locales
  fix k es assume "own_runs (all_controllers self xc cid hub o1 :: 's controller list) ''grafanadatasource'' k es"
  then show "orderly grafana_datasources k es"
    by (auto simp: own_runs_def own_handler(3) dest: run_of_holds [OF datasource_orderly])
next
  fix s e k assume f: "foreign_writes grafana_datasources (all_controllers self xc cid hub o1 :: 's controller list) ''grafanadatasource'' s e"
  show "\<not> records grafana_datasources k e \<and> \<not> strips grafana_datasources k e" "adds grafana_datasources k e \<Longrightarrow> secured grafana_datasources s k"
    by (rule foreign_writes_keep [OF _ _ f]; auto dest: own_handler(6))+
qed

subsection \<open>The invariant\<close>

definition leaks_nothing_stale :: "'m resource \<Rightarrow> 's controller list \<Rightarrow> string \<Rightarrow> bool" where
  "leaks_nothing_stale R cs n = stale_leak_free R (own_runs cs n) (foreign_writes R cs n)"


text \<open>
  Such a run exists: the cache shows a dashboard without the finalizer from its first to its last read,
  and by then the server's dashboard holds the finalizer and records what Grafana answered.
\<close>

definition bare_dashboard :: grafana_dashboard where
  "bare_dashboard = demo_dashboard\<lparr>gd_meta := (gd_meta demo_dashboard)\<lparr>om_finalizers := []\<rparr>\<rparr>"

definition bare_current :: grafana_dashboard where
  "bare_current = demo_current\<lparr>gd_meta := gd_meta bare_dashboard\<rparr>"

fun behind_answer :: "request \<Rightarrow> response" where
  \<comment> \<open>reads show the bare dashboard, writes take effect\<close>
  "behind_answer (Get KGrafanaDashboard k) = RObj (OGrafanaDashboard bare_dashboard)"
| "behind_answer (PatchQ b n) = RObj n"
| "behind_answer (StatusPatchQ b n) = RObj (OGrafanaDashboard demo_current)"
| "behind_answer q = quiet_answer q"

definition behind_env :: "unit env" where
  "behind_env = \<lparr>exec = (\<lambda>q s. (behind_answer q, s)), codecs = plain_codec\<rparr>"

definition behind_events :: "event list" where
  "behind_events = map (\<lambda>q. (q, behind_answer q)) [Get KGrafanaDashboard demo_key, Get KGrafanaDashboard demo_key,
     PatchQ (OGrafanaDashboard bare_dashboard) (OGrafanaDashboard demo_dashboard),
     Get KAppBinding (''demo'', ''grafana''), Get KAppBinding (''demo'', ''grafana''),
     GrafanaQ demo_conn (SetDashboard (Some ''{}'') 0 True), GrafanaQ demo_conn GetCurrentOrg,
     Get KGrafanaDashboard demo_key, StatusPatchQ (OGrafanaDashboard bare_dashboard) (OGrafanaDashboard bare_current)]"

lemma behind_run:
  "fst (snd (dashboard_reconcile (seconds 60) demo_key behind_env (start ()))) = behind_events"
  by (simp add: dashboard_reconcile_def fetch_result_def kget_def answer_def bnd_def attempt_def send_def behind_env_def
    the_obj_def ret_def v_gd_def v_ab_def demo_dashboard_def new_meta_def sync_dashboard_def set_dashboard_def
    prepare_dashboard_def Let_def get_grafana_def find_binding_def with_namespace_def demo_binding_def
    grafana_state_def cached_state_def get_world_def put_world_def pures_def start_def grafana_digest_def
    grafana_params_def app_url_def plain_codec_def folder_of_def lift_sum_def identified_model_def
    templatized_model_def new_grafana_client_def grafana_client_for_def binding_secret_def app_config_of_def
    secret_auth_def connect_grafana_def skips_verification_def publish_dashboard_def grafana_call_def demo_grafana_def
    patch_status_e_def current_dashboard_def need_def kpatch_status_def demo_current_def demo_conn_def obj_key_def
    meta_key_def itoa_def set_condition_def ready_condition_def digits.simps [of 0] char_of_def bit_Suc_0_iff
    create_or_patch_def kpatch_def finalized_dashboard_def add_finalizer_def patch_verb_def bare_dashboard_def
    bare_current_def behind_events_def demo_key_def)

lemma lag_read:
  assumes "lags R own foreign \<lparr>la_views = V, la_runs = (\<lambda>_. [])(k := (Get (re_kind R) j, RObj ob) # es)\<rparr>" "shown V j = Some ob"
  shows "lags R own foreign \<lparr>la_views = V, la_runs = (\<lambda>_. [])(k := es)\<rparr>"
  using lags.cached_read [OF assms(1), of k j "RObj ob" es] assms(2) by simp

lemma lag_write:
  assumes "lags R own foreign \<lparr>la_views = V, la_runs = (\<lambda>_. [])(k := e # es)\<rparr>" "\<And>j. fst e \<noteq> Get (re_kind R) j"
    "serves R (stored V) e s" "in_turn V s"
  shows "lags R own foreign \<lparr>la_views = extended V s, la_runs = (\<lambda>_. [])(k := es)\<rparr>"
  using lags.own_step [OF assms(1), of k e es s] assms(2-) by simp

lemma lag_other:
  assumes "lags R own foreign \<lparr>la_views = V, la_runs = (\<lambda>_. [])(k := e # es)\<rparr>" "\<And>j. fst e \<noteq> Get (re_kind R) j"
    "serves R (stored V) e (stored V)"
  shows "lags R own foreign \<lparr>la_views = V, la_runs = (\<lambda>_. [])(k := es)\<rparr>"
proof -
  have "extended V (stored V) = V" "in_turn V (stored V)"
    by (auto simp: extended_def stored_def in_turn_def fun_eq_iff)
  then show ?thesis using lag_write [OF assms] by simp
qed

definition demo_views :: "grafana_dashboard list \<Rightarrow> views" where
  \<comment> \<open>the cache shows the first version of the dashboard, and has yet to learn of the others\<close>
  "demo_views ds = (\<lambda>_. [None])(demo_key := map (\<lambda>d. Some (OGrafanaDashboard d)) ds)"

definition demo_object :: "grafana_dashboard \<Rightarrow> objects" where
  "demo_object d = (\<lambda>_. None)(demo_key := Some (OGrafanaDashboard d))"

lemma demo_views_simps:
  "ds \<noteq> [] \<Longrightarrow> stored (demo_views ds) = demo_object (last ds)"
  "shown (demo_views (d # ds)) demo_key = Some (OGrafanaDashboard d)"
  "ds \<noteq> [] \<Longrightarrow> d \<noteq> last ds \<Longrightarrow>
     extended (demo_views ds) (demo_object d) = demo_views (ds @ [d])"
  "ds \<noteq> [] \<Longrightarrow> in_turn (demo_views ds) (demo_object d)"
  by (auto simp: demo_views_def demo_object_def stored_def shown_def extended_def in_turn_def fun_eq_iff last_map)

lemma demo_versions:
  "obj_key (OGrafanaDashboard bare_dashboard) = demo_key" "obj_key (OGrafanaDashboard demo_dashboard) = demo_key"
  "obj_key (OGrafanaDashboard demo_current) = demo_key" "obj_key (OGrafanaDashboard bare_current) = demo_key"
  "\<not> om_deleting (gd_meta bare_dashboard)" "\<not> om_deleting (gd_meta demo_dashboard)" "\<not> om_deleting (gd_meta demo_current)"
  "om_finalizers (gd_meta bare_dashboard) = []" "om_finalizers (gd_meta demo_dashboard) = [gdash_finalizer]"
  "om_finalizers (gd_meta demo_current) = [gdash_finalizer]"
  "re_mark grafana_dashboards (OGrafanaDashboard bare_dashboard) = None"
  "re_mark grafana_dashboards (OGrafanaDashboard demo_dashboard) = None"
  "re_mark grafana_dashboards (OGrafanaDashboard demo_current) = Some ''x7''"
  "re_mark grafana_dashboards (OGrafanaDashboard bare_current) = Some ''x7''"
  "demo_dashboard \<noteq> bare_dashboard" "demo_current \<noteq> demo_dashboard"
  by (simp_all add: bare_current_def bare_dashboard_def demo_current_def demo_dashboard_def demo_key_def new_meta_def
      obj_key_def meta_key_def grafana_dashboards_def)

lemma demo_serves:
  "serves grafana_dashboards (\<lambda>_. None) (CreateQ (OGrafanaDashboard bare_dashboard), RObj (OGrafanaDashboard bare_dashboard)) (demo_object bare_dashboard)"
    "serves grafana_dashboards (demo_object bare_dashboard)
       (PatchQ (OGrafanaDashboard bare_dashboard) (OGrafanaDashboard demo_dashboard), RObj (OGrafanaDashboard demo_dashboard)) (demo_object demo_dashboard)"
    "serves grafana_dashboards (demo_object demo_dashboard)
       (StatusPatchQ (OGrafanaDashboard bare_dashboard) (OGrafanaDashboard bare_current), RObj (OGrafanaDashboard demo_current)) (demo_object demo_current)"
proof -
  note served = served_defs confirms_def persist_def grants_def demo_versions demo_object_def
  show "serves grafana_dashboards (\<lambda>_. None) (CreateQ (OGrafanaDashboard bare_dashboard), RObj (OGrafanaDashboard bare_dashboard)) (demo_object bare_dashboard)"
    using serves.create [where R = grafana_dashboards and n = "OGrafanaDashboard bare_dashboard" and s = "\<lambda>_. None"
        and y = "OGrafanaDashboard bare_dashboard" and a = "RObj (OGrafanaDashboard bare_dashboard)"] by (simp add: served)
  show "serves grafana_dashboards (demo_object bare_dashboard)
       (PatchQ (OGrafanaDashboard bare_dashboard) (OGrafanaDashboard demo_dashboard), RObj (OGrafanaDashboard demo_dashboard)) (demo_object demo_dashboard)"
    using serves.patch [where R = grafana_dashboards and n = "OGrafanaDashboard demo_dashboard" and s = "demo_object bare_dashboard"
        and c = "OGrafanaDashboard bare_dashboard" and b = "OGrafanaDashboard bare_dashboard"
        and y = "OGrafanaDashboard demo_dashboard" and a = "RObj (OGrafanaDashboard demo_dashboard)"] by (simp add: served)
  show "serves grafana_dashboards (demo_object demo_dashboard)
       (StatusPatchQ (OGrafanaDashboard bare_dashboard) (OGrafanaDashboard bare_current), RObj (OGrafanaDashboard demo_current)) (demo_object demo_current)"
    using serves.status [where R = grafana_dashboards and n = "OGrafanaDashboard bare_current" and s = "demo_object demo_dashboard"
        and c = "OGrafanaDashboard demo_dashboard" and b = "OGrafanaDashboard bare_dashboard"
        and y = "OGrafanaDashboard demo_current" and a = "RObj (OGrafanaDashboard demo_current)"] by (simp add: served)
qed

lemma bare_shown:
  "lags grafana_dashboards own (foreign_writes grafana_dashboards cs n) \<lparr>la_views = demo_views [bare_dashboard], la_runs = \<lambda>_. []\<rparr>"
proof -
  let ?s = "demo_object bare_dashboard"
  have "lags grafana_dashboards own (foreign_writes grafana_dashboards cs n)
      \<lparr>la_views = extended (\<lambda>_. [None]) ?s, la_runs = \<lambda>_. []\<rparr>"
    using lags.foreign_step [OF lags.boot, where e = "(CreateQ (OGrafanaDashboard bare_dashboard), RObj (OGrafanaDashboard bare_dashboard))"
        and s = ?s and R = grafana_dashboards and own = own and foreign = "foreign_writes grafana_dashboards cs n"] demo_serves(1)
    by (simp add: stored_def in_turn_def foreign_writes_def held_def demo_versions demo_object_def)
  moreover have "extended (\<lambda>_. [None]) ?s = (\<lambda>_. [None])(demo_key := [None, Some (OGrafanaDashboard bare_dashboard)])"
    by (auto simp: extended_def fun_eq_iff demo_object_def)
  ultimately have "lags grafana_dashboards own (foreign_writes grafana_dashboards cs n)
      \<lparr>la_views = (\<lambda>_. [None])(demo_key := [None, Some (OGrafanaDashboard bare_dashboard)]), la_runs = \<lambda>_. []\<rparr>" by simp
  from lags.catch_up [OF this, of demo_key None "Some (OGrafanaDashboard bare_dashboard)" "[]"]
  show ?thesis by (simp add: demo_views_def)
qed

lemma published_while_stale:
  assumes cs: "dashboard_controller (seconds 60) \<in> set (cs :: unit controller list)"
  shows "lags grafana_dashboards (own_runs cs ''grafanadashboard'') (foreign_writes grafana_dashboards cs ''grafanadashboard'')
    \<lparr>la_views = demo_views [bare_dashboard, demo_dashboard, demo_current], la_runs = \<lambda>_. []\<rparr>"
proof -
  let ?own = "own_runs cs ''grafanadashboard''" and ?foreign = "foreign_writes grafana_dashboards cs ''grafanadashboard''"
  let ?L = "\<lambda>ds es. lags grafana_dashboards ?own ?foreign \<lparr>la_views = demo_views ds, la_runs = (\<lambda>_. [])(demo_key := es)\<rparr>"
  note v = demo_views_simps demo_versions
  have "?own demo_key behind_events"
    unfolding own_runs_def run_of_def
    by (rule bexI [OF _ cs]) (auto simp: dashboard_handler prod_eq_iff behind_run [symmetric])
  then have start: "?L [bare_dashboard] behind_events"
    using lags.start_run [OF bare_shown, of demo_key] by simp
  have read: "?L (bare_dashboard # ds) ((Get KGrafanaDashboard demo_key, RObj (OGrafanaDashboard bare_dashboard)) # es) \<Longrightarrow>
      ?L (bare_dashboard # ds) es" for ds es
    using lag_read [where R = grafana_dashboards and V = "demo_views (bare_dashboard # ds)"] v(2) by simp
  have other: "?L ds ((q, a) # es) \<Longrightarrow> write_kind q = None \<Longrightarrow> (\<And>k. q \<noteq> Get KGrafanaDashboard k) \<Longrightarrow> ?L ds es" for q a ds es
    by (erule lag_other, simp) (rule serves.elsewhere, simp_all)
  have others: "\<forall>e \<in> set es. write_kind (fst e) = None \<and> (\<forall>k. fst e \<noteq> Get KGrafanaDashboard k) \<Longrightarrow> ?L ds (es @ es') \<Longrightarrow> ?L ds es'"
    for es ds es'
  proof (induction es)
    case (Cons e es)
    then show ?case
      using other [of ds "fst e" "snd e" "es @ es'"] by (simp del: fun_upd_apply split_paired_All)
  qed simp
  have put: "?L ds ((q, a) # es) \<Longrightarrow> (\<And>k. q \<noteq> Get KGrafanaDashboard k) \<Longrightarrow> ds \<noteq> [] \<Longrightarrow> d \<noteq> last ds \<Longrightarrow>
      serves grafana_dashboards (demo_object (last ds)) (q, a) (demo_object d) \<Longrightarrow> ?L (ds @ [d]) es" for ds q a es d
    by (drule lag_write [where s = "demo_object d"]) (simp_all add: v)
  note ev = behind_events_def list.map behind_answer.simps quiet_answer.simps
  have "?L [bare_dashboard, demo_dashboard] (drop 3 behind_events)"
    using put [OF read [OF read [OF start [unfolded ev]]], of demo_dashboard] by (simp add: v demo_serves ev)
  then have "?L [bare_dashboard, demo_dashboard] (drop 7 behind_events)"
    using others [of "take 4 (drop 3 behind_events)" "[bare_dashboard, demo_dashboard]" "drop 7 behind_events"] by (simp add: ev)
  then have "?L [bare_dashboard, demo_dashboard] (drop 8 behind_events)"
    using read [of "[demo_dashboard]"] by (simp add: ev)
  then have "?L ([bare_dashboard, demo_dashboard] @ [demo_current]) []"
    by (intro put) (auto simp: ev v demo_serves)
  moreover have "(\<lambda>_. [])(demo_key := []) = (\<lambda>_ :: key. [] :: event list)" by (simp add: fun_eq_iff)
  ultimately show ?thesis by simp
qed

end
