(* ===== verification/Healthy_Runs.thy ===== *)
theory Healthy_Runs imports State_Cache begin

section \<open>Runs against healthy services\<close>

text \<open>
  Total correctness of the dashboard controllers: with an API server that stores what it is sent, and a
  Grafana and a Perses that take models, one run of the handler ends without an error and leaves the
  dashboard stored as Current, with the finalizer and the state of its AppBinding recorded.  \<open>delivers\<close>
  is the weakest precondition of success; the locale \<open>healthy\<close> says what is asked of the services, and
  is interpreted on the in-memory server with a Grafana and a Perses beside it.
\<close>

definition delivers :: "('s, 'a) M \<Rightarrow> 's env \<Rightarrow> 's world \<Rightarrow> ('a \<Rightarrow> 's world \<Rightarrow> bool) \<Rightarrow> bool" where
  "delivers m E w Q = (\<exists>x es w'. m E w = (Ok x, es, w') \<and> Q x w')"

named_theorems delivers_intros "rules of \<open>delivers\<close>"

lemma delivers_ret [delivers_intros]: "Q x w \<Longrightarrow> delivers (ret x) E w Q"
  by (simp add: delivers_def ret_def)

lemma delivers_bnd [delivers_intros]: "delivers m E w (\<lambda>x w1. delivers (f x) E w1 Q) \<Longrightarrow> delivers (bnd m f) E w Q"
  by (fastforce simp: delivers_def bnd_def)

lemma delivers_attempt [delivers_intros]: "delivers m E w (\<lambda>x. Q (Inr x)) \<Longrightarrow> delivers (attempt m) E w Q"
  by (auto simp: delivers_def attempt_def)

lemma delivers_pures [delivers_intros]: "Q (codecs E) w \<Longrightarrow> delivers pures E w Q"
  by (simp add: delivers_def pures_def)

lemma delivers_lift_sum: "s = Inr x \<Longrightarrow> Q x w \<Longrightarrow> delivers (lift_sum s) E w Q"
  by (simp add: lift_sum_def delivers_ret)

lemma delivers_need: "o1 = Some x \<Longrightarrow> Q x w \<Longrightarrow> delivers (need o1) E w Q"
  by (simp add: need_def delivers_ret)

lemma delivers_mono: "delivers m E w P \<Longrightarrow> (\<And>x w1. P x w1 \<Longrightarrow> Q x w1) \<Longrightarrow> delivers m E w Q"
  unfolding delivers_def by blast

subsection \<open>Healthy services\<close>

definition cache_true :: "codec \<Rightarrow> (app_binding \<Rightarrow> codec \<Rightarrow> gerr + string) \<Rightarrow> app_binding \<Rightarrow> 's world \<Rightarrow> bool" where
  \<comment> \<open>what the cache has for an AppBinding is its state\<close>
  "cache_true C digest ab w = (\<forall>v. map_of (w_states w) (state_key ab) = Some v \<longrightarrow> v = digest ab C)"

declare split_paired_All [simp del] split_paired_Ex [simp del]

subsection \<open>What can be published\<close>

definition reachable_backend :: "codec \<Rightarrow> (kind \<Rightarrow> key \<Rightarrow> object option) \<Rightarrow> app_binding \<Rightarrow> bool" where
  \<comment> \<open>the AppBinding has a proper address, and its secret exists if it names one\<close>
  "reachable_backend C objs ab = ((\<exists>u p. app_url C ab = Inr u \<and> url_parse C u = Inr p) \<and>
     (case ab_secret ab of None \<Rightarrow> True
      | Some n \<Rightarrow> n = [] \<or> (\<exists>sec. objs KSecret (om_namespace (ab_meta ab), n) = Some (OSecret sec))))"

definition stale_state :: "string option option \<Rightarrow> gerr + string \<Rightarrow> bool" where
  \<comment> \<open>nothing is recorded yet, or another state of the AppBinding\<close>
  "stale_state rec st = (rec = None \<or> (\<exists>old. rec = Some (Some old) \<and> st \<noteq> Inr old))"

definition publishable :: "codec \<Rightarrow> app_binding \<Rightarrow> grafana_dashboard \<Rightarrow> bool" where
  "publishable C ab obj = (\<not> om_deleting (gd_meta obj) \<and> gd_model obj \<noteq> None \<and>
     map_option snd (gd_templatize obj) \<noteq> Some True \<and> (\<exists>cfg. grafana_params C ab = Inr cfg) \<and>
     stale_state (map_option gr_state (gs_dashboard (gd_status obj))) (grafana_digest ab C))"

definition published :: "codec \<Rightarrow> app_binding \<Rightarrow> grafana_dashboard \<Rightarrow> bool" where
  "published C ab d = (gs_phase (gd_status d) = Current \<and> gdash_finalizer \<in> set (om_finalizers (gd_meta d)) \<and>
     (\<exists>r st. gs_dashboard (gd_status d) = Some r \<and> gr_id r \<noteq> None \<and> gr_org_id r \<noteq> None \<and>
        gr_state r = Some st \<and> grafana_digest ab C = Inr st))"

definition same_dashboard :: "grafana_dashboard \<Rightarrow> grafana_dashboard \<Rightarrow> bool" where
  \<comment> \<open>name, content and record\<close>
  "same_dashboard d d' = (om_namespace (gd_meta d') = om_namespace (gd_meta d) \<and> om_name (gd_meta d') = om_name (gd_meta d) \<and>
     om_deleting (gd_meta d') = om_deleting (gd_meta d) \<and> gd_ref d' = gd_ref d \<and> gd_model d' = gd_model d \<and> gd_templatize d' = gd_templatize d \<and>
     gs_dashboard (gd_status d') = gs_dashboard (gd_status d))"

lemma desired_meta:
  fixes m m' :: objmeta
  assumes "m\<lparr>om_uid := u, om_generation := g, om_rversion := v\<rparr> = m'\<lparr>om_uid := u, om_generation := g, om_rversion := v\<rparr>"
  shows "om_namespace m = om_namespace m'" "om_name m = om_name m'" "om_finalizers m = om_finalizers m'" "om_deleting m = om_deleting m'"
  using arg_cong [OF assms, of om_namespace] arg_cong [OF assms, of om_name] arg_cong [OF assms, of om_finalizers]
    arg_cong [OF assms, of om_deleting] by simp_all

lemma desired_gd:
  assumes "desired (wrap v_gd d) = desired (wrap v_gd d')"
  shows "same_dashboard d' d" "om_finalizers (gd_meta d) = om_finalizers (gd_meta d')" "gd_status d = gd_status d'"
proof -
  let ?f = "\<lambda>m. m\<lparr>om_uid := [], om_generation := 0, om_rversion := []\<rparr> :: objmeta"
  have e: "d\<lparr>gd_meta := ?f (gd_meta d)\<rparr> = d'\<lparr>gd_meta := ?f (gd_meta d')\<rparr>"
    using assms by (simp add: desired_def v_gd_def)
  note m = desired_meta [OF arg_cong [OF e, of gd_meta, simplified]]
  show "om_finalizers (gd_meta d) = om_finalizers (gd_meta d')" by (rule m)
  show s: "gd_status d = gd_status d'" using arg_cong [OF e, of gd_status] by simp
  show "same_dashboard d' d"
    using m s arg_cong [OF e, of gd_ref] arg_cong [OF e, of gd_model] arg_cong [OF e, of gd_templatize]
    by (simp add: same_dashboard_def)
qed

definition finalized_copy :: "grafana_dashboard \<Rightarrow> grafana_dashboard \<Rightarrow> bool" where
  "finalized_copy d d' = (same_dashboard d d' \<and> gdash_finalizer \<in> set (om_finalizers (gd_meta d')))"

lemma finalized_copies:
  "desired (wrap v_gd z) = desired (wrap v_gd (finalized_dashboard d)) \<Longrightarrow> finalized_copy d z"
  "finalized_copy obj d \<Longrightarrow> desired (wrap v_gd z) = desired (wrap v_gd (processing_dashboard d)) \<Longrightarrow> finalized_copy obj z"
  "gdash_finalizer \<in> set (om_finalizers (gd_meta d)) \<Longrightarrow> finalized_copy d d"
  "obj_key (wrap v_gd (finalized_dashboard d)) = obj_key (wrap v_gd d)"
  "obj_key (wrap v_gd (processing_dashboard d)) = obj_key (wrap v_gd d)"
  "finalized_copy obj d \<Longrightarrow> obj_key (wrap v_gd d) = obj_key (wrap v_gd obj)"
proof -
  show "finalized_copy d z" if "desired (wrap v_gd z) = desired (wrap v_gd (finalized_dashboard d))"
    using desired_gd [OF that] by (simp add: finalized_copy_def same_dashboard_def finalized_dashboard_def add_finalizer_def)
  show "finalized_copy obj z" if "finalized_copy obj d" "desired (wrap v_gd z) = desired (wrap v_gd (processing_dashboard d))"
    using desired_gd [OF that(2)] that(1) by (simp add: finalized_copy_def same_dashboard_def processing_dashboard_def)
qed (simp_all add: finalized_copy_def same_dashboard_def finalized_dashboard_def processing_dashboard_def add_finalizer_def
  v_gd_def obj_key_def meta_key_def)

definition perses_publishable :: "codec \<Rightarrow> app_binding \<Rightarrow> perses_dashboard \<Rightarrow> bool" where
  "perses_publishable C ab obj = (\<not> om_deleting (pd_meta obj) \<and>
     (\<exists>u a. app_url C ab = Inr u \<and> api_server_address C u = Inr a) \<and>
     (\<exists>cfg b vs. perses_params C ab = Inr cfg \<and> perses_model C obj = Inr b \<and>
        updated_perses_vars (pc_datasource cfg) (pb_vars b) = Inr vs \<and> \<not> list_ex (\<lambda>(k, p). p = None) (pb_panels b)))"

definition perses_published :: "codec \<Rightarrow> app_binding \<Rightarrow> perses_dashboard \<Rightarrow> bool" where
  "perses_published C ab d = (ps_phase (pd_status d) = Current \<and> pdash_finalizer \<in> set (om_finalizers (pd_meta d)) \<and>
     (\<exists>r st. ps_dashboard (pd_status d) = Some r \<and> pr_state r = Some st \<and> perses_digest ab C = Inr st))"

definition perses_copy :: "perses_dashboard \<Rightarrow> perses_dashboard \<Rightarrow> bool" where
  "perses_copy d d' = (om_namespace (pd_meta d') = om_namespace (pd_meta d) \<and> om_name (pd_meta d') = om_name (pd_meta d) \<and>
     om_deleting (pd_meta d') = om_deleting (pd_meta d) \<and> pd_ref d' = pd_ref d \<and> pd_model d' = pd_model d \<and>
     pdash_finalizer \<in> set (om_finalizers (pd_meta d')))"

lemma desired_pd:
  assumes "desired (wrap v_pd d) = desired (wrap v_pd d')"
  shows "om_namespace (pd_meta d) = om_namespace (pd_meta d')" "om_name (pd_meta d) = om_name (pd_meta d')"
    "om_finalizers (pd_meta d) = om_finalizers (pd_meta d')" "om_deleting (pd_meta d) = om_deleting (pd_meta d')"
    "pd_status d = pd_status d'" "pd_ref d = pd_ref d'" "pd_model d = pd_model d'"
proof -
  let ?f = "\<lambda>m. m\<lparr>om_uid := [], om_generation := 0, om_rversion := []\<rparr> :: objmeta"
  have e: "d\<lparr>pd_meta := ?f (pd_meta d)\<rparr> = d'\<lparr>pd_meta := ?f (pd_meta d')\<rparr>"
    using assms by (simp add: desired_def v_pd_def)
  show "om_namespace (pd_meta d) = om_namespace (pd_meta d')" "om_name (pd_meta d) = om_name (pd_meta d')"
    "om_finalizers (pd_meta d) = om_finalizers (pd_meta d')" "om_deleting (pd_meta d) = om_deleting (pd_meta d')"
    by (rule desired_meta [OF arg_cong [OF e, of pd_meta, simplified]])+
  show "pd_status d = pd_status d'" "pd_ref d = pd_ref d'" "pd_model d = pd_model d'"
    using arg_cong [OF e, of pd_status] arg_cong [OF e, of pd_ref] arg_cong [OF e, of pd_model] by simp_all
qed

lemma perses_copies:
  "desired (wrap v_pd z) = desired (wrap v_pd (finalized_perses d)) \<Longrightarrow> perses_copy d z"
  "perses_copy obj d \<Longrightarrow> desired (wrap v_pd z) = desired (wrap v_pd (processing_perses d)) \<Longrightarrow> perses_copy obj z"
  "pdash_finalizer \<in> set (om_finalizers (pd_meta d)) \<Longrightarrow> perses_copy d d"
  "obj_key (wrap v_pd (finalized_perses d)) = obj_key (wrap v_pd d)"
  "obj_key (wrap v_pd (processing_perses d)) = obj_key (wrap v_pd d)"
  "perses_copy obj d \<Longrightarrow> obj_key (wrap v_pd d) = obj_key (wrap v_pd obj)"
proof -
  show "perses_copy d z" if "desired (wrap v_pd z) = desired (wrap v_pd (finalized_perses d))"
    using desired_pd [OF that] by (simp add: perses_copy_def finalized_perses_def add_finalizer_def)
  show "perses_copy obj z" if "perses_copy obj d" "desired (wrap v_pd z) = desired (wrap v_pd (processing_perses d))"
    using desired_pd [OF that(2)] that(1) by (simp add: perses_copy_def processing_perses_def)
qed (simp_all add: perses_copy_def finalized_perses_def processing_perses_def add_finalizer_def v_pd_def obj_key_def meta_key_def)

lemma perses_marked:
  assumes "desired (wrap v_pd z) = desired (wrap v_pd (current_perses st cfg nm d))" "perses_copy obj d" "perses_digest ab C = Inr st"
  shows "perses_published C ab z"
  using desired_pd [OF assms(1)] assms(2,3) by (simp add: perses_published_def perses_copy_def current_perses_def)

locale healthy = api_server "exec E" stored for E :: "'s env" and stored :: "'s \<Rightarrow> kind \<Rightarrow> key \<Rightarrow> object option" +
  assumes status_current: "stored s (kind_of ob) (obj_key ob) = Some base \<Longrightarrow>
      \<exists>ob' s'. exec E (StatusPatchQ base ob) s = (RObj ob', s') \<and> desired ob' = desired ob \<and>
        stored s' (kind_of ob) (obj_key ob) = Some ob'"
    and apart: "write_kind q \<noteq> Some K \<Longrightarrow> stored (snd (exec E q s)) K k = stored s K k"
    and grafana_takes: "\<exists>r. fst (exec E (GrafanaQ gc (SetDashboard m f True)) s) = RGrafana (Some r) None \<and>
      gq_id r \<noteq> None \<and> gq_version r \<noteq> None"
    and grafana_org: "\<exists>i. fst (exec E (GrafanaQ gc GetCurrentOrg) s) = ROrg (Some i)"
    and perses_takes: "hq_method h = ''POST'' \<Longrightarrow> \<exists>st b. fst (exec E (HttpQ h) s) = RHttp st b \<and> (st div 100 = 2 \<or> st = 409)"
begin

definition same_but :: "kind \<Rightarrow> 's world \<Rightarrow> 's world \<Rightarrow> bool" where
  \<comment> \<open>objects of other kinds and the cache are as before\<close>
  "same_but K w w' = ((\<forall>J k. J \<noteq> K \<longrightarrow> stored (w_ext w') J k = stored (w_ext w) J k) \<and> w_states w' = w_states w)"

lemma same_but_refl: "same_but K w w"
  by (simp add: same_but_def)

lemma same_but_trans: "same_but K w w1 \<Longrightarrow> same_but K w1 w2 \<Longrightarrow> same_but K w w2"
  by (simp add: same_but_def)

lemma delivers_kget:
  assumes "typed_view v" "stored (w_ext w) (vkind v) k = Some (wrap v x)" "Q x w"
  shows "delivers (kget v k) E w Q"
  using kget_found [OF HOL.refl assms(1,2)] assms(3) by (auto simp: delivers_def)

lemma delivers_write:
  assumes v: "typed_view v" and q: "write_kind q = Some (vkind v)"
    and x: "exec E q (w_ext w) = (RObj ob, s)" "desired ob = desired (wrap v y)" "stored s (vkind v) (obj_key (wrap v y)) = Some ob"
    and Q: "\<And>z w'. desired (wrap v z) = desired (wrap v y) \<Longrightarrow> stored (w_ext w') (vkind v) (obj_key (wrap v y)) = Some (wrap v z) \<Longrightarrow>
      same_but (vkind v) w w' \<Longrightarrow> Q z w'"
  shows "delivers (answer q (the_obj v)) E w Q"
proof -
  have "kind_of ob = vkind v" using x(2) typed_view.kind_wrap [OF v] by (metis kind_of_desired)
  then obtain z where z: "ob = wrap v z" using typed_view.kind_iff [OF v] by blast
  have "same_but (vkind v) w (w\<lparr>w_ext := s\<rparr>)"
    using apart [of q _ "w_ext w"] q x(1) by (simp add: same_but_def)
  then have "Q z (w\<lparr>w_ext := s\<rparr>)" using x z by (intro Q) simp_all
  then show ?thesis
    using x(1) z typed_view.unwrap_wrap [OF v, of z]
    by (simp add: delivers_def answer_def bnd_def send_def the_obj_def ret_def)
qed

lemma delivers_kpatch:
  assumes v: "typed_view v" and s: "stored (w_ext w) (vkind v) (obj_key (wrap v y)) = Some (wrap v x)"
    and Q: "\<And>z w'. desired (wrap v z) = desired (wrap v y) \<Longrightarrow> stored (w_ext w') (vkind v) (obj_key (wrap v y)) = Some (wrap v z) \<Longrightarrow>
      same_but (vkind v) w w' \<Longrightarrow> Q z w'"
  shows "delivers (kpatch v x y) E w Q" "delivers (kpatch_status v x y) E w Q"
proof -
  have k: "kind_of (wrap v y) = vkind v" by (rule typed_view.kind_wrap [OF v])
  obtain ob t where "exec E (PatchQ (wrap v x) (wrap v y)) (w_ext w) = (RObj ob, t)" "desired ob = desired (wrap v y)"
    "stored t (vkind v) (obj_key (wrap v y)) = Some ob" using patch_current [of "w_ext w" "wrap v y" "wrap v x"] s k by auto
  then show "delivers (kpatch v x y) E w Q"
    unfolding kpatch_def by (intro delivers_write [OF v _ _ _ _ Q]) (auto simp: k)
  obtain ob t where "exec E (StatusPatchQ (wrap v x) (wrap v y)) (w_ext w) = (RObj ob, t)" "desired ob = desired (wrap v y)"
    "stored t (vkind v) (obj_key (wrap v y)) = Some ob" using status_current [of "w_ext w" "wrap v y" "wrap v x"] s k by auto
  then show "delivers (kpatch_status v x y) E w Q"
    unfolding kpatch_status_def by (intro delivers_write [OF v _ _ _ _ Q]) (auto simp: k)
qed

lemma delivers_create_or_patch:
  assumes v: "typed_view v" and k: "obj_key (wrap v x) = k" "obj_key (wrap v (f cur False)) = k"
    and s: "stored (w_ext w) (vkind v) k = Some (wrap v cur)"
    and Q: "\<And>vb z w'. desired (wrap v z) = desired (wrap v (f cur False)) \<Longrightarrow> stored (w_ext w') (vkind v) k = Some (wrap v z) \<Longrightarrow>
      same_but (vkind v) w w' \<Longrightarrow> Q (vb, z) w'"
  shows "delivers (create_or_patch v x f) E w Q"
  unfolding create_or_patch_def k
  by (intro delivers_intros delivers_kget [OF v s], simp, intro delivers_intros delivers_kpatch(1) [OF v])
     (auto simp: k s intro: delivers_intros Q)

lemma delivers_patch_status_e:
  assumes v: "typed_view v" and k: "obj_key (wrap v x) = k" "stored (w_ext w) (vkind v) k = Some (wrap v cur)"
    and f: "delivers (f cur) E w (\<lambda>y w1. w1 = w \<and> obj_key (wrap v y) = k \<and> (\<forall>z w'. desired (wrap v z) = desired (wrap v y) \<longrightarrow>
      stored (w_ext w') (vkind v) k = Some (wrap v z) \<longrightarrow> same_but (vkind v) w w' \<longrightarrow> Q z w'))"
  shows "delivers (patch_status_e v x f) E w Q"
  unfolding patch_status_e_def k(1)
  by (intro delivers_intros delivers_kget [OF v k(2)], rule delivers_mono [OF f])
     (use k(2) in \<open>auto intro!: delivers_kpatch(2) [OF v]\<close>)

lemma delivers_patch_status:
  assumes v: "typed_view v" and k: "obj_key (wrap v x) = k" "stored (w_ext w) (vkind v) k = Some (wrap v cur)"
    and f: "obj_key (wrap v (f cur)) = k"
    and Q: "\<And>z w'. desired (wrap v z) = desired (wrap v (f cur)) \<Longrightarrow> stored (w_ext w') (vkind v) k = Some (wrap v z) \<Longrightarrow>
      same_but (vkind v) w w' \<Longrightarrow> Q z w'"
  shows "delivers (patch_status v x f) E w Q"
  unfolding patch_status_def
  by (rule delivers_patch_status_e [OF v k]) (auto intro!: delivers_ret f Q)

lemma delivers_cached_state:
  assumes "cache_true (codecs E) digest ab w"
    and Q: "\<And>w'. w_ext w' = w_ext w \<Longrightarrow> Q (digest ab (codecs E)) w'"
  shows "delivers (cached_state ab (digest ab)) E w Q"
  using assms by (auto simp: delivers_def cached_state_run cache_true_def split: option.split)

text \<open>The first two steps of a run, with what the caller needs to keep: P.\<close>

lemma delivers_finalized:
  assumes v: "typed_view v" and k: "obj_key (wrap v obj) = k" "obj_key (wrap v (fin obj)) = k"
    and s: "stored (w_ext w) (vkind v) k = Some (wrap v obj)"
    and P: "c \<Longrightarrow> P obj" "\<And>z. desired (wrap v z) = desired (wrap v (fin obj)) \<Longrightarrow> P z"
  shows "delivers (if c then ret obj else bnd (create_or_patch v obj (\<lambda>ob _. fin ob)) (\<lambda>(_, new). ret new)) E w
    (\<lambda>d w'. stored (w_ext w') (vkind v) k = Some (wrap v d) \<and> P d \<and> same_but (vkind v) w w')"
proof (cases c)
  case True
  then show ?thesis using s P(1) by (simp add: delivers_ret same_but_refl)
next
  case False
  show ?thesis
    unfolding if_not_P [OF False]
    by (rule delivers_bnd, rule delivers_create_or_patch [OF v k(1), where cur = obj]) (use k s P(2) in \<open>simp_all add: delivers_ret\<close>)
qed

lemma delivers_status:
  assumes v: "typed_view v" and k: "obj_key (wrap v obj) = k" "obj_key (wrap v (f obj)) = k"
    and s: "stored (w_ext w) (vkind v) k = Some (wrap v obj)"
    and P: "\<not> c \<Longrightarrow> P obj" "\<And>z. desired (wrap v z) = desired (wrap v (f obj)) \<Longrightarrow> P z"
  shows "delivers (if c then patch_status v obj f else ret obj) E w
    (\<lambda>d w'. stored (w_ext w') (vkind v) k = Some (wrap v d) \<and> P d \<and> same_but (vkind v) w w')"
proof (cases c)
  case False
  then show ?thesis using s P(1) by (simp add: delivers_ret same_but_refl)
next
  case True
  show ?thesis
    unfolding if_P [OF True]
    by (rule delivers_patch_status [OF v k(1), where cur = obj]) (use k s P(2) in simp_all)
qed

subsection \<open>A run of the Grafana dashboard controller\<close>

lemma delivers_find_binding:
  assumes "r = Some k" "stored (w_ext w) KAppBinding k = Some (OAppBinding ab)" "Q ab w"
  shows "delivers (find_binding field what r) E w Q"
  unfolding find_binding_def assms(1) option.case
  by (intro delivers_intros delivers_kget [OF view_ab.typed_view_axioms, where x = ab])
     (use assms(2,3) in \<open>simp_all add: v_ab_def delivers_ret\<close>)

lemma delivers_binding_secret:
  assumes "reachable_backend (codecs E) (stored (w_ext w)) ab" "\<And>s. Q s w"
  shows "delivers (binding_secret ab) E w Q"
proof (cases "\<exists>n. ab_secret ab = Some n \<and> n \<noteq> []")
  case True
  then obtain n sec where n: "ab_secret ab = Some n" "n \<noteq> []" "stored (w_ext w) KSecret (om_namespace (ab_meta ab), n) = Some (OSecret sec)"
    using assms(1) by (auto simp: reachable_backend_def)
  show ?thesis
    unfolding binding_secret_def n(1) option.case if_P [OF n(2)]
    by (intro delivers_intros delivers_kget [OF view_secret.typed_view_axioms, where x = sec])
       (use n assms(2) in \<open>simp_all add: v_secret_def\<close>)
next
  case False
  then have "(binding_secret ab :: ('s, secret option) M) = ret None" by (auto simp: binding_secret_def split: option.split)
  then show ?thesis using delivers_ret [of Q None w E] assms(2) by simp
qed

lemma delivers_clients:
  assumes "r = Some k" "stored (w_ext w) KAppBinding k = Some (OAppBinding ab)"
    and b: "reachable_backend (codecs E) (stored (w_ext w)) ab"
  shows "(\<And>gc. Q gc w) \<Longrightarrow> delivers (new_grafana_client r) E w Q" "(\<And>pc. app_url (codecs E) ab = Inr (pe_base pc) \<Longrightarrow> P pc w) \<Longrightarrow> delivers (new_perses_client r) E w P"
proof -
  obtain u p where u: "app_url (codecs E) ab = Inr u" "url_parse (codecs E) u = Inr p"
    using b by (auto simp: reachable_backend_def)
  show "delivers (new_grafana_client r) E w Q" if "\<And>gc. Q gc w"
    unfolding new_grafana_client_def get_grafana_def grafana_client_for_def
    by (intro delivers_intros delivers_find_binding [OF assms(1,2)] delivers_binding_secret [OF b])
       (simp add: lift_sum_def app_config_of_def connect_grafana_def u delivers_bnd delivers_ret that)
  show "delivers (new_perses_client r) E w P" if "\<And>pc. app_url (codecs E) ab = Inr (pe_base pc) \<Longrightarrow> P pc w"
    unfolding new_perses_client_def get_perses_def perses_client_for_def
    by (intro delivers_intros delivers_find_binding [OF assms(1,2)] delivers_binding_secret [OF b])
       (simp add: lift_sum_def app_config_of_def connect_perses_def Let_def u delivers_bnd delivers_ret that)
qed

lemma delivers_call:
  assumes "\<And>a s. exec E q (w_ext w) = (a, s) \<Longrightarrow> delivers (f a) E (w\<lparr>w_ext := s\<rparr>) Q"
  shows "delivers (bnd (send q) f) E w Q"
  by (cases "exec E q (w_ext w)") (use assms in \<open>auto simp: delivers_def send_def bnd_def\<close>)

lemma calls_apart: "write_kind q = None \<Longrightarrow> exec E q s = (a, s') \<Longrightarrow> stored s' K k = stored s K k"
  using apart [of q K s k] by simp

lemma dashboard_prepared:
  assumes p: "publishable (codecs E) ab obj" and k: "with_namespace (om_namespace (gd_meta obj)) (gd_ref obj) = Some r"
    and ab: "stored (w_ext w) KAppBinding r = Some (OAppBinding ab)" "reachable_backend (codecs E) (stored (w_ext w)) ab"
    and c: "cache_true (codecs E) grafana_digest ab w"
    and Q: "\<And>st m fo gc w'. grafana_digest ab (codecs E) = Inr st \<Longrightarrow> w_ext w' = w_ext w \<Longrightarrow> Q (st, m, fo, gc) w'"
  shows "delivers (prepare_dashboard obj) E w Q"
proof -
  obtain cfg u where cfg: "grafana_params (codecs E) ab = Inr cfg" and u: "app_url (codecs E) ab = Inr u"
    using p ab(2) by (auto simp: publishable_def reachable_backend_def)
  then obtain st where st: "grafana_digest ab (codecs E) = Inr st" by (simp add: grafana_digest_def)
  have same: "identified_model obj st = ret (gd_model obj)"
    using p st by (auto simp: identified_model_def publishable_def stale_state_def split: option.split)
  have plain: "templatized_model obj ab cfg m = ret m" for m
    using p unfolding templatized_model_def publishable_def by metis
  have cl: "delivers (new_grafana_client (Some r)) E w' P" if "\<And>gc. P gc w'" "w_ext w' = w_ext w" for w' P
    by (rule delivers_clients(1) [OF HOL.refl]) (use ab that in auto)
  show ?thesis
    unfolding prepare_dashboard_def Let_def k get_grafana_def grafana_state_def
    by (intro delivers_intros delivers_find_binding [OF HOL.refl ab(1)] delivers_cached_state [OF c])
       (simp add: lift_sum_def st same plain cfg delivers_ret delivers_bnd delivers_pures cl Q)
qed

lemma dashboard_publishes:
  assumes k: "obj_key (wrap v_gd obj) = k" and s: "stored (w_ext w) KGrafanaDashboard k = Some (OGrafanaDashboard obj)"
    and st: "grafana_digest ab (codecs E) = Inr st" and fz: "gdash_finalizer \<in> set (om_finalizers (gd_meta obj))"
  shows "delivers (publish_dashboard after obj (st, m, fo, gc)) E w (\<lambda>x w'. x = 0 \<and>
    (\<exists>d. stored (w_ext w') KGrafanaDashboard k = Some (OGrafanaDashboard d) \<and> published (codecs E) ab d))"
proof -
  obtain g s1 where g: "exec E (GrafanaQ gc (SetDashboard m fo True)) (w_ext w) = (RGrafana (Some g) None, s1)"
    "gq_id g \<noteq> None" "gq_version g \<noteq> None"
    using grafana_takes [of gc m fo "w_ext w"] by (metis prod.collapse)
  obtain i s2 where i: "exec E (GrafanaQ gc GetCurrentOrg) s1 = (ROrg (Some i), s2)"
    using grafana_org [of gc s1] by (metis prod.collapse)
  have s2: "stored s2 KGrafanaDashboard k = Some (OGrafanaDashboard obj)"
    using s calls_apart [OF _ i] calls_apart [OF _ g(1)] by simp
  obtain n v where n: "gq_id g = Some n" "gq_version g = Some v" using g by auto
  let ?w = "w\<lparr>w_ext := s2\<rparr>"
  obtain y where y: "current_dashboard st (Some g) (Some i) obj = (ret y :: ('s, grafana_dashboard) M)"
    "same_dashboard obj (y\<lparr>gd_status := gd_status obj\<rparr>)" "om_finalizers (gd_meta y) = om_finalizers (gd_meta obj)"
    "published (codecs E) ab y"
    by (rule that [of "obj\<lparr>gd_status := (gd_status obj)\<lparr>
       gs_dashboard := Some \<lparr>gr_id = Some n, gr_uid = gq_uid g, gr_org_id = Some i, gr_slug = gq_slug g,
         gr_url = gq_url g, gr_version = Some v, gr_state = Some st\<rparr>,
       gs_phase := Current, gs_observed := om_generation (gd_meta obj),
       gs_conditions := set_condition (gs_conditions (gd_status obj)) (ready_condition ''Dashboard is successfully created''),
       gs_reason := ''Dashboard is successfully created''\<rparr>\<rparr>"])
       (simp_all add: current_dashboard_def need_def n bnd_simps same_dashboard_def published_def fz st)
  have "delivers (patch_status_e v_gd obj (current_dashboard st (Some g) (Some i))) E ?w (\<lambda>_ w'.
      \<exists>d. stored (w_ext w') KGrafanaDashboard k = Some (OGrafanaDashboard d) \<and> published (codecs E) ab d)"
  proof (rule delivers_patch_status_e [OF view_gd.typed_view_axioms k, where cur = obj])
    have "obj_key (wrap v_gd y) = k"
      using y(2) k by (simp add: same_dashboard_def v_gd_def obj_key_def meta_key_def)
    moreover have "published (codecs E) ab z" if "desired (wrap v_gd z) = desired (wrap v_gd y)" for z
      using desired_gd [OF that] y(4) by (simp add: published_def)
    ultimately show "delivers (current_dashboard st (Some g) (Some i) obj) E ?w (\<lambda>y w1. w1 = ?w \<and> obj_key (wrap v_gd y) = k \<and>
      (\<forall>z w'. desired (wrap v_gd z) = desired (wrap v_gd y) \<longrightarrow> stored (w_ext w') (vkind v_gd) k = Some (wrap v_gd z) \<longrightarrow>
        same_but (vkind v_gd) ?w w' \<longrightarrow> (\<exists>d. stored (w_ext w') KGrafanaDashboard k = Some (OGrafanaDashboard d) \<and> published (codecs E) ab d)))"
      unfolding y(1) by (intro delivers_ret) (auto simp: v_gd_def)
  qed (simp add: s2 v_gd_def)
  then show ?thesis
    unfolding publish_dashboard_def grafana_call_def answer_def bnd_assoc prod.case
    by (intro delivers_call)
       (auto simp: g i bnd_simps bnd_assoc attempt_def delivers_def bnd_def send_def ret_def)
qed

lemma same_but_backend:
  assumes "same_but K w w'" "K \<noteq> KAppBinding" "K \<noteq> KSecret"
  shows "stored (w_ext w') KAppBinding r = stored (w_ext w) KAppBinding r"
    "reachable_backend C (stored (w_ext w')) ab = reachable_backend C (stored (w_ext w)) ab"
    "cache_true C dg ab w' = cache_true C dg ab w"
  using assms by (simp_all add: same_but_def reachable_backend_def cache_true_def cong: option.case_cong)

lemma dashboard_delivered:
  assumes s: "stored (w_ext w) KGrafanaDashboard k = Some (OGrafanaDashboard obj)"
    and p: "publishable (codecs E) ab obj" and r: "with_namespace (om_namespace (gd_meta obj)) (gd_ref obj) = Some r"
    and ab: "stored (w_ext w) KAppBinding r = Some (OAppBinding ab)" "reachable_backend (codecs E) (stored (w_ext w)) ab"
    and c: "cache_true (codecs E) grafana_digest ab w"
  shows "delivers (dashboard_reconcile after k) E w (\<lambda>x w'. x = 0 \<and>
    (\<exists>d. stored (w_ext w') KGrafanaDashboard k = Some (OGrafanaDashboard d) \<and> published (codecs E) ab d))"
    (is "delivers _ E w ?Q")
proof -
  have k: "obj_key (wrap v_gd obj) = k" using stored_sort [OF s] by (simp add: v_gd_def)
  have set: "delivers (set_dashboard after d2) E w2 ?Q"
    if s2: "stored (w_ext w2) KGrafanaDashboard k = Some (OGrafanaDashboard d2)" and d2: "finalized_copy obj d2"
      and w2: "same_but KGrafanaDashboard w w2" for d2 w2
  proof -
    note b = same_but_backend [OF w2, simplified]
    have k2: "obj_key (wrap v_gd d2) = k" using finalized_copies(6) [OF d2] k by simp
    have "publishable (codecs E) ab d2" "with_namespace (om_namespace (gd_meta d2)) (gd_ref d2) = Some r"
      using p r d2 by (auto simp: publishable_def finalized_copy_def same_dashboard_def)
    then have "delivers (prepare_dashboard d2) E w2 (\<lambda>x w'. \<exists>st m fo gc. x = (st, m, fo, gc) \<and>
        grafana_digest ab (codecs E) = Inr st \<and> w_ext w' = w_ext w2)"
      by (rule dashboard_prepared) (use ab c b in auto)
    then have "delivers (prepare_dashboard d2) E w2 (\<lambda>x w'. delivers (publish_dashboard after d2 x) E w' ?Q)"
      by (rule delivers_mono) (use d2 in \<open>auto intro!: dashboard_publishes [OF k2] simp: s2 finalized_copy_def\<close>)
    then show ?thesis
      unfolding set_dashboard_def by (intro delivers_intros) simp
  qed
  have "delivers (sync_dashboard after obj) E w ?Q"
    unfolding sync_dashboard_def
  proof (rule delivers_bnd, rule delivers_mono, rule delivers_finalized [OF view_gd.typed_view_axioms k, where P = "finalized_copy obj"];
      (clarify, rule delivers_bnd)?)
    fix d1 w1
    assume 1: "stored (w_ext w1) (vkind v_gd) k = Some (wrap v_gd d1)" "finalized_copy obj d1" "same_but (vkind v_gd) w w1"
    have k1: "obj_key (wrap v_gd d1) = k" using finalized_copies(6) [OF 1(2)] k by simp
    show "delivers (if gs_phase (gd_status d1) \<noteq> Processing \<and> gs_phase (gd_status d1) \<noteq> Failed
        then patch_status v_gd d1 processing_dashboard else ret d1) E w1 (\<lambda>d2 w2. delivers (set_dashboard after d2) E w2 ?Q)"
    proof (rule delivers_mono, rule delivers_status [OF view_gd.typed_view_axioms k1 _ 1(1), where P = "finalized_copy obj"])
      fix d2 w2
      assume "stored (w_ext w2) (vkind v_gd) k = Some (wrap v_gd d2) \<and> finalized_copy obj d2 \<and> same_but (vkind v_gd) w1 w2"
      then show "delivers (set_dashboard after d2) E w2 ?Q"
        using set [of w2 d2] same_but_trans [OF 1(3)] by (simp add: v_gd_def)
    qed (use 1(2) k1 finalized_copies in auto)
  qed (use k s finalized_copies in \<open>auto simp: v_gd_def\<close>)
  moreover have "\<not> om_deleting (gd_meta obj)" using p by (simp add: publishable_def)
  ultimately show ?thesis
    unfolding dashboard_reconcile_def fetch_result_def
    by (intro delivers_intros delivers_kget [OF view_gd.typed_view_axioms, where x = obj]) (simp_all add: s v_gd_def)
qed

subsection \<open>A run of the Perses dashboard controller\<close>

lemma perses_prepared:
  assumes p: "perses_publishable (codecs E) ab obj" and k: "perses_ref_of obj = Some r"
    and ab: "stored (w_ext w) KAppBinding r = Some (OAppBinding ab)" "reachable_backend (codecs E) (stored (w_ext w)) ab"
    and c: "cache_true (codecs E) perses_digest ab w"
    and Q: "\<And>st cfg pc b w'. perses_digest ab (codecs E) = Inr st \<Longrightarrow> w_ext w' = w_ext w \<Longrightarrow>
      (\<exists>u. api_server_address (codecs E) (pe_base pc) = Inr u) \<Longrightarrow> Q (st, cfg, pc, b) w'"
  shows "delivers (prepare_perses obj) E w Q"
proof -
  obtain cfg u b a vs where cfg: "perses_params (codecs E) ab = Inr cfg" and u: "app_url (codecs E) ab = Inr u"
    "api_server_address (codecs E) u = Inr a" and b: "perses_model (codecs E) obj = Inr b"
    and vs: "updated_perses_vars (pc_datasource cfg) (pb_vars b) = Inr vs" "\<not> list_ex (\<lambda>(k, p). p = None) (pb_panels b)"
    using p by (auto simp: perses_publishable_def)
  then obtain st where st: "perses_digest ab (codecs E) = Inr st" by (simp add: perses_digest_def)
  have cl: "delivers (new_perses_client (Some r)) E w' P"
    if "\<And>pc. pe_base pc = u \<Longrightarrow> P pc w'" "w_ext w' = w_ext w" for w' P
    by (rule delivers_clients(2) [OF HOL.refl]) (use ab that u in auto)
  have up: "update_datasource_variable (pc_datasource cfg) (placed_board cfg b) = ret ((placed_board cfg b)\<lparr>pb_vars := vs,
      pb_panels := map (\<lambda>(k, p). (k, map_option updated_perses_panel p)) (pb_panels b)\<rparr>)"
    using vs by (simp add: update_datasource_variable_def placed_board_def lift_sum_def bnd_simps)
  show ?thesis
    unfolding prepare_perses_def k get_perses_def perses_state_def
    by (intro delivers_intros delivers_find_binding [OF HOL.refl ab(1)] delivers_cached_state [OF c])
       (simp add: lift_sum_def st cfg b up delivers_ret delivers_bnd delivers_pures cl Q u)
qed

lemma perses_sent:
  assumes a: "api_server_address (codecs E) (pe_base pc) = Inr u" and s: "stored (w_ext w) K k = Some ob"
    and Q: "\<And>w'. stored (w_ext w') K k = Some ob \<Longrightarrow> Q () w'"
  shows "delivers (perses_set pc b prj fo) E w Q"
proof -
  have call: "delivers (answer (HttpQ h) the_http) E w (\<lambda>(st, body) w'. (st div 100 = 2 \<or> st = 409) \<and> stored (w_ext w') K k = Some ob)"
    if hm: "hq_method h = ''POST''" for h
  proof -
    obtain st body t where h: "exec E (HttpQ h) (w_ext w) = (RHttp st body, t)" "st div 100 = 2 \<or> st = 409"
      using perses_takes [OF hm, of "w_ext w"] by (metis prod.collapse)
    show ?thesis
      unfolding answer_def
      by (rule delivers_call) (use h s calls_apart [OF _ h(1)] in \<open>simp add: the_http_def delivers_ret\<close>)
  qed
  show ?thesis
    unfolding perses_set_def perses_call_def bnd_assoc
    by (intro delivers_intros delivers_lift_sum [where x = "url_string (codecs E) (u\<lparr>u_path := path_join (codecs E) (u_path u) (dashboards_path prj fo)\<rparr>)"],
        simp add: perses_endpoint_def a, rule delivers_mono [OF call])
       (auto simp: perses_request_def intro!: delivers_ret [of Q "()"] Q)
qed

lemma perses_delivered:
  assumes s: "stored (w_ext w) KPersesDashboard k = Some (OPersesDashboard obj)"
    and p: "perses_publishable (codecs E) ab obj" and r: "perses_ref_of obj = Some r"
    and ab: "stored (w_ext w) KAppBinding r = Some (OAppBinding ab)" "reachable_backend (codecs E) (stored (w_ext w)) ab"
    and c: "cache_true (codecs E) perses_digest ab w"
  shows "delivers (perses_reconcile after k) E w (\<lambda>x w'. x = 0 \<and>
    (\<exists>d. stored (w_ext w') KPersesDashboard k = Some (OPersesDashboard d) \<and> perses_published (codecs E) ab d))"
    (is "delivers _ E w ?Q")
proof -
  have k: "obj_key (wrap v_pd obj) = k" using stored_sort [OF s] by (simp add: v_pd_def)
  have set: "delivers (set_perses after d2) E w2 ?Q"
    if s2: "stored (w_ext w2) (vkind v_pd) k = Some (wrap v_pd d2)" and d2: "perses_copy obj d2"
      and w2: "same_but KPersesDashboard w w2" for d2 w2
  proof -
    note b = same_but_backend [OF w2, simplified]
    have k2: "obj_key (wrap v_pd d2) = k" using perses_copies(6) [OF d2] k by simp
    have "perses_publishable (codecs E) ab d2" "perses_ref_of d2 = Some r"
      using p r d2 by (auto simp: perses_publishable_def perses_copy_def perses_ref_of_def perses_model_def)
    then have "delivers (prepare_perses d2) E w2 (\<lambda>x w'. \<exists>st cfg pc bd u. x = (st, cfg, pc, bd) \<and>
        perses_digest ab (codecs E) = Inr st \<and> w_ext w' = w_ext w2 \<and> api_server_address (codecs E) (pe_base pc) = Inr u)"
      by (rule perses_prepared) (use ab c b in auto)
    moreover have mark: "delivers (seq (patch_status v_pd d2 (current_perses st cfg nm)) (ret 0)) E w3 ?Q"
      if "stored (w_ext w3) KPersesDashboard k = Some (OPersesDashboard d2)" "perses_digest ab (codecs E) = Inr st" for st cfg nm w3
    proof (rule delivers_bnd, rule delivers_patch_status [OF view_pd.typed_view_axioms k2])
      show "obj_key (wrap v_pd (current_perses st cfg nm d2)) = k"
        using k2 by (simp add: v_pd_def current_perses_def obj_key_def)
    qed (use that perses_marked [OF _ d2 that(2)] in \<open>auto simp: v_pd_def intro!: delivers_ret\<close>)
    moreover have "delivers (attempt (perses_set pc bd prj fo)) E w1 (\<lambda>s w3. s = Inr () \<and> stored (w_ext w3) KPersesDashboard k = Some (OPersesDashboard d2))"
      if "api_server_address (codecs E) (pe_base pc) = Inr u" "w_ext w1 = w_ext w2" for pc bd prj fo w1 u
      by (intro delivers_attempt perses_sent [OF that(1), where K = KPersesDashboard and k = k]) (use s2 that(2) in \<open>auto simp: v_pd_def\<close>)
    ultimately show ?thesis
      unfolding set_perses_def
      by (intro delivers_bnd delivers_attempt, elim delivers_mono) (fastforce intro: delivers_bnd elim: delivers_mono)
  qed
  have "delivers (sync_perses after obj) E w ?Q"
    unfolding sync_perses_def
  proof (rule delivers_bnd, rule delivers_mono, rule delivers_finalized [OF view_pd.typed_view_axioms k, where P = "perses_copy obj"];
      (clarify, rule delivers_bnd)?)
    fix d1 w1
    assume 1: "stored (w_ext w1) (vkind v_pd) k = Some (wrap v_pd d1)" "perses_copy obj d1" "same_but (vkind v_pd) w w1"
    have k1: "obj_key (wrap v_pd d1) = k" using perses_copies(6) [OF 1(2)] k by simp
    show "delivers (if ps_phase (pd_status d1) \<noteq> Processing \<and> ps_phase (pd_status d1) \<noteq> Failed
        then patch_status v_pd d1 processing_perses else ret d1) E w1 (\<lambda>d2 w2. delivers (set_perses after d2) E w2 ?Q)"
    proof (rule delivers_mono, rule delivers_status [OF view_pd.typed_view_axioms k1 _ 1(1), where P = "perses_copy obj"])
      fix d2 w2
      assume "stored (w_ext w2) (vkind v_pd) k = Some (wrap v_pd d2) \<and> perses_copy obj d2 \<and> same_but (vkind v_pd) w1 w2"
      then show "delivers (set_perses after d2) E w2 ?Q"
        using set [of w2 d2] same_but_trans [OF 1(3)] by simp
    qed (use 1(2) k1 perses_copies in auto)
  qed (use k s perses_copies in \<open>auto simp: v_pd_def\<close>)
  moreover have "\<not> om_deleting (pd_meta obj)" using p by (simp add: perses_publishable_def)
  ultimately show ?thesis
    unfolding perses_reconcile_def fetch_result_def
    by (intro delivers_intros delivers_kget [OF view_pd.typed_view_axioms, where x = obj]) (simp_all add: s v_pd_def)
qed

end

declare split_paired_All [simp] split_paired_Ex [simp]

subsection \<open>A healthy cluster in memory\<close>

definition taken_model :: gresp where
  "taken_model = \<lparr>gq_status = 200, gq_id = Some 7, gq_uid = Some ''x7'', gq_slug = Some ''pods'', gq_url = Some ''/d/x7'',
     gq_version = Some 1, gq_message = None\<rparr>"

fun cluster_exec :: "request \<Rightarrow> mem_store \<Rightarrow> response \<times> mem_store" where
  \<comment> \<open>the in-memory server, a Grafana and a Perses that take what they get\<close>
  "cluster_exec (GrafanaQ gc c) s = (case c of
     SetDashboard m f ow \<Rightarrow> RGrafana (Some taken_model) None
   | GetCurrentOrg \<Rightarrow> ROrg (Some 1)
   | _ \<Rightarrow> RGrafana None None, s)"
| "cluster_exec (HttpQ h) s = (RHttp 200 [], s)"
| "cluster_exec q s = mem_exec q s"

definition cluster_env :: "mem_store env" where
  "cluster_env = \<lparr>exec = cluster_exec, codecs = plain_codec\<rparr>"

lemma ms_find_put:
  "ms_find (snd (ms_put ob s)) K k = (if K = kind_of ob \<and> k = obj_key ob
     then Some (set_rversion (itoa (ms_tick s)) ob) else ms_find s K k)"
  by (auto simp: ms_put_def Let_def ms_find_def update_conv')

lemma ms_find_delete: "J \<noteq> K \<Longrightarrow> ms_find (s\<lparr>ms_objs := AList.delete (J, j) (ms_objs s)\<rparr>) K k = ms_find s K k"
  by (simp add: ms_find_def delete_conv')

lemma mem_apart: "write_kind q \<noteq> Some K \<Longrightarrow> ms_find (snd (mem_exec q s)) K k = ms_find s K k"
  by (cases "(q, s)" rule: mem_exec.cases) (auto simp: ms_find_put ms_find_delete split: option.split)

interpretation mem_cluster: healthy cluster_env ms_find
proof unfold_locales
  fix s K k ob
  show "ms_find s K k = Some ob \<Longrightarrow> exec cluster_env (Get K k) s = (RObj ob, s)"
    by (simp add: cluster_env_def)
  show "ms_find s K k = None \<Longrightarrow> \<exists>m. exec cluster_env (Get K k) s = (RErr (ApiErr NotFound m), s)"
    by (simp add: cluster_env_def)
  show "ms_find s K k = Some ob \<Longrightarrow> kind_of ob = K \<and> obj_key ob = k"
    by (rule mem.stored_sort)
next
  fix s ob
  show "ms_find s (kind_of ob) (obj_key ob) = None \<Longrightarrow> \<exists>ob' s'. exec cluster_env (CreateQ ob) s = (RObj ob', s') \<and>
      desired ob' = desired ob \<and> ms_find s' (kind_of ob) (obj_key ob) = Some ob'"
    using mem.create_new [of s ob] by (simp add: cluster_env_def)
next
  fix s ob base
  assume b: "ms_find s (kind_of ob) (obj_key ob) = Some base"
  then show "\<exists>ob' s'. exec cluster_env (PatchQ base ob) s = (RObj ob', s') \<and>
      desired ob' = desired ob \<and> ms_find s' (kind_of ob) (obj_key ob) = Some ob'"
    using mem.patch_current [OF b] by (simp add: cluster_env_def)
  show "\<exists>ob' s'. exec cluster_env (StatusPatchQ base ob) s = (RObj ob', s') \<and>
      desired ob' = desired ob \<and> ms_find s' (kind_of ob) (obj_key ob) = Some ob'"
    using b ms_find_put [of ob s "kind_of ob" "obj_key ob"] by (simp add: cluster_env_def ms_put_def Let_def)
next
  fix q :: request and K s k
  assume "write_kind q \<noteq> Some K"
  then show "ms_find (snd (exec cluster_env q s)) K k = ms_find s K k"
    by (cases "(q, s)" rule: cluster_exec.cases) (simp_all add: cluster_env_def mem_apart del: mem_exec.simps)
qed (simp_all add: cluster_env_def taken_model_def)

subsection \<open>Published in one run\<close>

definition grafana_ready :: "'s env \<Rightarrow> ('s \<Rightarrow> kind \<Rightarrow> key \<Rightarrow> object option) \<Rightarrow> 's world \<Rightarrow> key \<Rightarrow> app_binding \<Rightarrow> bool" where
  \<comment> \<open>the dashboard under key k and the AppBinding it refers to are stored and in order\<close>
  "grafana_ready E stored w k ab = (case stored (w_ext w) KGrafanaDashboard k of
     Some (OGrafanaDashboard obj) \<Rightarrow> publishable (codecs E) ab obj \<and>
       (case with_namespace (om_namespace (gd_meta obj)) (gd_ref obj) of
          Some r \<Rightarrow> stored (w_ext w) KAppBinding r = Some (OAppBinding ab) | None \<Rightarrow> False) \<and>
       reachable_backend (codecs E) (stored (w_ext w)) ab \<and> cache_true (codecs E) grafana_digest ab w
   | _ \<Rightarrow> False)"

definition perses_ready :: "'s env \<Rightarrow> ('s \<Rightarrow> kind \<Rightarrow> key \<Rightarrow> object option) \<Rightarrow> 's world \<Rightarrow> key \<Rightarrow> app_binding \<Rightarrow> bool" where
  "perses_ready E stored w k ab = (case stored (w_ext w) KPersesDashboard k of
     Some (OPersesDashboard obj) \<Rightarrow> perses_publishable (codecs E) ab obj \<and>
       (case perses_ref_of obj of
          Some r \<Rightarrow> stored (w_ext w) KAppBinding r = Some (OAppBinding ab) | None \<Rightarrow> False) \<and>
       reachable_backend (codecs E) (stored (w_ext w)) ab \<and> cache_true (codecs E) perses_digest ab w
   | _ \<Rightarrow> False)"


definition demo_backend :: app_binding where
  "demo_backend = \<lparr>ab_meta = (new_meta ''demo'' ''grafana'')\<lparr>om_uid := ''u1'', om_generation := 1\<rparr>,
     ab_type = [], ab_app_ref = None, ab_client = \<lparr>cc_url = Some ''http://grafana'', cc_service = None,
     cc_insecure = False, cc_ca = [], cc_server_name = []\<rparr>, ab_secret = None, ab_tls_secret = None, ab_params = None\<rparr>"

definition new_dashboard :: grafana_dashboard where
  "new_dashboard = \<lparr>gd_meta = new_meta ''demo'' ''pods'', gd_ref = Some ([], ''grafana''), gd_model = Some ''{}'',
     gd_overwrite = True, gd_templatize = None, gd_status = \<lparr>gs_observed = 0, gs_phase = PhaseNone, gs_reason = [],
       gs_dashboard = None, gs_conditions = []\<rparr>\<rparr>"

definition new_perses :: perses_dashboard where
  "new_perses = \<lparr>pd_meta = new_meta ''demo'' ''pods'', pd_ref = Some ([], ''grafana''), pd_model = Some ''pods'',
     pd_overwrite = True, pd_templatize = None, pd_status = \<lparr>ps_observed = 0, ps_phase = PhaseNone, ps_reason = [],
       ps_dashboard = None, ps_conditions = []\<rparr>\<rparr>"

definition demo_cluster :: mem_store where
  "demo_cluster = \<lparr>ms_objs = [((KGrafanaDashboard, (''demo'', ''pods'')), OGrafanaDashboard new_dashboard),
     ((KPersesDashboard, (''demo'', ''pods'')), OPersesDashboard new_perses),
     ((KAppBinding, (''demo'', ''grafana'')), OAppBinding demo_backend)], ms_tick = 1\<rparr>"


end
