(* ===== verification/Openviz_Progress.thy ===== *)
theory Openviz_Progress imports Perses_Dashboard_Ctl begin

section \<open>No dashboard is given up\<close>

text \<open>
  A run of the Grafana or of the Perses dashboard controller that ends without an error either asks
  for another run after the configured time, or its last effect needs none: the API server took a
  status that says Current, the finalizer of a dashboard being deleted was submitted for removal, or
  there is no such dashboard.  (A run that ends with an error is repeated by the controller runtime.)
\<close>

definition ends_with :: "(event \<Rightarrow> bool) \<Rightarrow> requeue \<Rightarrow> ('s, requeue) M \<Rightarrow> bool" where
  "ends_with p n m = holds m (\<lambda>r es. case r of Ok x \<Rightarrow> x = n \<or> (\<exists>e \<in> set es. p e) | _ \<Rightarrow> True)"

named_theorems ends_intros "rules of \<open>ends_with\<close>"

lemma ends_bnd [ends_intros]: "(\<And>x. ends_with p n (f x)) \<Longrightarrow> ends_with p n (bnd m f)"
  unfolding ends_with_def
proof (rule holds_bnd_any)
  fix x es
  assume "\<And>x. holds (f x) (\<lambda>r es. case r of Ok x \<Rightarrow> x = n \<or> (\<exists>e \<in> set es. p e) | _ \<Rightarrow> True)"
  then show "holds (f x) (\<lambda>r es'. case r of Ok x \<Rightarrow> x = n \<or> (\<exists>e \<in> set (es @ es'). p e) | _ \<Rightarrow> True)"
    by (rule holds_mono) (auto split: outcome.splits)
qed auto

lemma ends_ret [ends_intros]: "ends_with p n (ret n)"
  and ends_fail [ends_intros]: "ends_with p n (fail e)"
  by (simp_all add: ends_with_def)

lemma ends_emits: "emits p m \<Longrightarrow> ends_with p n m"
  unfolding ends_with_def emits_def by (erule holds_mono) (auto split: outcome.split)

lemma ends_if [ends_intros]: "ends_with p n m \<Longrightarrow> ends_with p n m' \<Longrightarrow> ends_with p n (if c then m else m')"
  by simp

lemma ends_fetch [ends_intros]:
  assumes "\<And>x. ends_with p n (f x)" and p: "\<And>e. not_there e \<Longrightarrow> p e"
  shows "ends_with p n (fetch_result (kget v k) f)"
  unfolding fetch_result_def ends_with_def
proof (rule holds_bnd [OF holds_attempt [OF explains_kget [unfolded explains_def],
    where \<Phi> = "\<lambda>r es. \<forall>e. r = Ok (Inl e) \<longrightarrow> is_not_found e \<longrightarrow> (\<exists>v \<in> set es. not_there v)"]])
  fix x :: "gerr + 'a" and es
  assume P: "\<forall>e. Ok x = Ok (Inl e) \<longrightarrow> is_not_found e \<longrightarrow> (\<exists>v \<in> set es. not_there v)"
  have f: "holds (f y) (\<lambda>r es'. case r of Ok z \<Rightarrow> z = n \<or> (\<exists>e \<in> set (es @ es'). p e) | _ \<Rightarrow> True)" for y
    using assms(1) [of y] unfolding ends_with_def by (rule holds_mono) (auto split: outcome.splits)
  show "holds (case x of Inl e \<Rightarrow> if is_not_found e then ret 0 else fail e | Inr y \<Rightarrow> f y)
      (\<lambda>r es'. case r of Ok z \<Rightarrow> z = n \<or> (\<exists>e \<in> set (es @ es'). p e) | _ \<Rightarrow> True)"
    using P f by (auto split: sum.split intro: p)
qed auto

lemma emits_ignored:
  assumes "holds m (\<lambda>_ es. \<exists>e \<in> set es. p e)"
  shows "emits p (ignore_not_found (bnd m f))"
proof -
  have "holds (bnd m f) (\<lambda>_ es. \<exists>e \<in> set es. p e)"
    by (rule holds_bnd [OF assms]) (auto simp: holds_def)
  then have "emits p (attempt (bnd m f))"
    unfolding emits_def by (rule holds_attempt) auto
  then show ?thesis unfolding ignore_not_found_def by (rule emits_bnd_left)
qed

subsection \<open>Grafana dashboards\<close>

definition dashboard_done :: "event \<Rightarrow> bool" where
  "dashboard_done e = (not_there e \<or>
     (\<exists>b n d. e = (StatusPatchQ b (OGrafanaDashboard n), RObj d) \<and> gs_phase (gd_status n) = Current) \<or>
     (\<exists>b n a. e = (PatchQ b (OGrafanaDashboard n), a) \<and> gdash_finalizer \<notin> set (om_finalizers (gd_meta n))))"

lemma ends_delete_dashboard: "ends_with dashboard_done n (delete_dashboard obj)"
proof -
  have "emits dashboard_done (ignore_not_found (seq (kpatch v_gd x (unfinalized_dashboard x)) (ret ())))" for x
    by (rule emits_ignored) (auto simp: kpatch_def dashboard_done_def v_gd_def unfinalized_dashboard_def remove_finalizer_def intro!: holds_answer)
  then show ?thesis
    unfolding delete_dashboard_def by (intro ends_bnd ends_emits [OF emits_bnd_right] emits_bnd_left)
qed

lemma ends_current: "ends_with dashboard_done n (seq (patch_status_e v_gd obj (current_dashboard state resp org)) (ret 0))"
proof -
  have "emits dashboard_done (kpatch_status v_gd cur x)" if "gs_phase (gd_status x) = Current" for cur x
    using that unfolding kpatch_status_def emits_def
    by (intro holds_answer) (auto simp: dashboard_done_def v_gd_def the_obj_def split: response.splits)
  moreover have "returns (\<lambda>x. gs_phase (gd_status x) = Current) (current_dashboard state resp org d)" for d
    unfolding current_dashboard_def by (intro returns_bnd returns_ret) simp
  ultimately have "emits dashboard_done (bnd (current_dashboard state resp org cur) (kpatch_status v_gd cur))" for cur
    by (rule emits_bnd_returns [rotated])
  then show ?thesis
    unfolding patch_status_e_def by (rule ends_emits [OF emits_bnd_left [OF emits_bnd_right]])
qed

lemma ends_set_dashboard: "ends_with dashboard_done after (set_dashboard after obj)"
proof -
  have h: "ends_with dashboard_done after (handle_set_error after obj e u)" for e u
    unfolding handle_set_error_def by (intro ends_intros)
  show ?thesis
    unfolding set_dashboard_def publish_dashboard_def
    by (auto split: sum.split option.split prod.split intro!: ends_bnd h ends_current)
qed

subsection \<open>Perses dashboards\<close>

definition perses_done :: "event \<Rightarrow> bool" where
  "perses_done e = (not_there e \<or>
     (\<exists>b n d. e = (StatusPatchQ b (OPersesDashboard n), RObj d) \<and> ps_phase (pd_status n) = Current) \<or>
     (\<exists>b n a. e = (PatchQ b (OPersesDashboard n), a) \<and> pdash_finalizer \<notin> set (om_finalizers (pd_meta n))))"

lemma ends_delete_perses: "ends_with perses_done n (delete_perses obj)"
proof -
  have "emits perses_done (ignore_not_found (seq (kpatch v_pd x (unfinalized_perses x)) (ret ())))" for x
    by (rule emits_ignored) (auto simp: kpatch_def perses_done_def v_pd_def unfinalized_perses_def remove_finalizer_def intro!: holds_answer)
  then show ?thesis
    unfolding delete_perses_def by (intro ends_bnd ends_emits [OF emits_bnd_right] emits_bnd_left)
qed

lemma ends_set_perses: "ends_with perses_done after (set_perses after obj)"
proof -
  have h: "ends_with perses_done after (handle_perses_error after obj e)" for e
    unfolding handle_perses_error_def by (intro ends_intros)
  have "emits perses_done (patch_status v_pd obj (current_perses state cfg nm))" for state cfg nm
    unfolding patch_status_def patch_status_e_def bnd_simps
    by (rule emits_bnd_right)
       (auto simp: perses_done_def kpatch_status_def emits_def v_pd_def the_obj_def current_perses_def split: response.splits intro!: holds_answer)
  then have c: "ends_with perses_done after (seq (patch_status v_pd obj (current_perses state cfg nm)) (ret 0))" for state cfg nm
    by (intro ends_emits emits_bnd_left)
  show ?thesis
    unfolding set_perses_def
    by (auto split: sum.split prod.split intro!: ends_bnd h c)
qed

subsection \<open>Both controllers\<close>


end
