(* ===== verification/Tooling.thy ===== *)
theory Tooling imports Prelude Effects "HOL-Library.List_Lexorder" "HOL-Library.Char_ord" begin

section \<open>The command tree, its documentation, and the event recorder\<close>

text \<open>
  The packages around the controllers: the tree of commands (src/pkg/cmds/root.go), the generator of its
  reference pages (src/hack/gendocs), and two packages nothing imports, the recorder of events
  (src/pkg/eventer) and the wrapper for REST storage (src/pkg/registry).  Title casing, the reference of
  an object, and the calls to the API server and the file system are arguments.
\<close>

subsection \<open>Commands\<close>

datatype command = Command (cm_name: string) (cm_children: "command list")

definition root_cmd :: command where
  \<comment> \<open>\<open>NewRootCmd\<close>: the first word of each \<open>Use\<close>\<close>
  "root_cmd = Command ''grafana-tools''
     [Command ''version'' [], Command ''grafana'' [], Command ''monitoring-operator'' []]"

subsection \<open>Reference pages\<close>

definition base_name :: "string \<Rightarrow> string" where
  \<comment> \<open>\<open>filepath.Base\<close>\<close>
  "base_name s =
     (if s = '''' then ''.''
      else (case rev (dropWhile (\<lambda>c. c = CHR ''/'') (rev s)) of
        [] \<Rightarrow> ''/''
      | t \<Rightarrow> rev (takeWhile (\<lambda>c. c \<noteq> CHR ''/'') (rev t))))"

definition path_ext :: "string \<Rightarrow> string" where
  \<comment> \<open>\<open>path.Ext\<close>\<close>
  "path_ext s =
     (let r = takeWhile (\<lambda>c. c \<noteq> CHR ''.'' \<and> c \<noteq> CHR ''/'') (rev s) in
      case drop (length r) (rev s) of
        c # _ \<Rightarrow> if c = CHR ''.'' then CHR ''.'' # rev r else ''''
      | [] \<Rightarrow> '''')"

definition without_ext :: "string \<Rightarrow> string" where
  \<comment> \<open>\<open>strings.TrimSuffix(name, path.Ext(name))\<close>: the extension is a suffix\<close>
  "without_ext s = take (length s - length (path_ext s)) s"

definition replace_char :: "char \<Rightarrow> char \<Rightarrow> string \<Rightarrow> string" where
  "replace_char a b = map (\<lambda>c. if c = a then b else c)"

record page_data =
  pa_id :: string
  pa_name :: string
  pa_version :: string   \<comment> \<open>handed over, not printed\<close>
  pa_root :: bool

definition page_of :: "(string \<Rightarrow> string) \<Rightarrow> string \<Rightarrow> page_data" where
  \<comment> \<open>the data \<open>filePrepender\<close> hands to the template\<close>
  "page_of title filename =
     (let base = without_ext (base_name filename) in
      \<lparr>pa_id = replace_char CHR ''_'' CHR ''-'' base,
       pa_name = title (replace_char CHR ''_'' CHR '' '' base), pa_version = ''0.2.0'',
       pa_root = (CHR ''_'' \<notin> set base)\<rparr>)"

definition line :: "string \<Rightarrow> string" where
  "line s = s @ [CHR 0x0A]"

definition version_slot :: string where
  \<comment> \<open>what the template prints for its quoted action\<close>
  "version_slot = ''{{ .version }}''"

definition cmd_matter :: "page_data \<Rightarrow> string" where
  \<comment> \<open>the template named cmd\<close>
  "cmd_matter d =
     line ''---'' @ line (''title: '' @ pa_name d) @ line ''menu:'' @ line (''  docs_'' @ version_slot @ '':'') @
     line (''    identifier: '' @ pa_id d) @ line (''    name: '' @ pa_name d) @ ''    parent: reference-operator'' @
     (if pa_root d then line '''' @ line ''    weight: 0'' else '''') @ line '''' @
     line (''menu_name: docs_'' @ version_slot) @ ''section_menu_id: reference'' @
     (if pa_root d then line '''' @ line (''url: /docs/'' @ version_slot @ ''/reference/operator/'') @ line ''aliases:'' @
        ''- /docs/'' @ version_slot @ ''/reference/operator/'' @ pa_id d @ ''/''
      else '''') @ line '''' @ line ''---''"

definition index_matter :: string where
  \<comment> \<open>the template named index\<close>
  "index_matter =
     line ''---'' @ line ''title: Reference | Vault Operator'' @ line ''description: Vault Operator CLI Reference'' @
     line ''menu:'' @ line (''  docs_'' @ version_slot @ '':'') @ line ''    identifier: reference-operator'' @
     line ''    name: Vault Operator'' @ line ''    weight: 10'' @ line ''    parent: reference'' @
     line (''menu_name: docs_'' @ version_slot) @ line ''---''"

definition link_handler :: "string \<Rightarrow> string" where
  "link_handler name = ''/docs/reference/operator/'' @ name"

fun page_files :: "string \<Rightarrow> string \<Rightarrow> command \<Rightarrow> string list" where
  \<comment> \<open>\<open>doc.GenMarkdownTreeCustom\<close>: one file for each command, children first and by name; every command
     of the tool is available\<close>
  "page_files dir parents (Command n cs) =
     concat (map (page_files dir (parents @ n @ ''_'')) (sort_key cm_name cs)) @ [dir @ ''/'' @ parents @ n @ ''.md'']"

datatype doc_step =
    RemoveAll string
  | MkdirAll string
  | PageTree "(string \<times> page_data) list"
  | OpenIndex string
  | WriteIndex string
  | CloseIndex

fun until_error :: "('a \<Rightarrow> gerr option) \<Rightarrow> 'a list \<Rightarrow> 'a list \<times> gerr option" where
  \<comment> \<open>\<open>klog.Fatalln\<close> ends the process after the first step that fails\<close>
  "until_error E [] = ([], None)"
| "until_error E (x # xs) = (case E x of
     Some e \<Rightarrow> ([x], Some e)
   | None \<Rightarrow> (case until_error E xs of (ys, r) \<Rightarrow> (x # ys, r)))"

definition docs_dir :: "string \<Rightarrow> string" where
  "docs_dir gopath = gopath @ ''/src/kubevault.dev/docs/docs/reference/operator''"

definition gendocs_steps :: "(string \<Rightarrow> string) \<Rightarrow> string \<Rightarrow> doc_step list" where
  "gendocs_steps title dir =
     [RemoveAll dir, MkdirAll dir, PageTree (map (\<lambda>f. (f, page_of title f)) (page_files dir '''' root_cmd)),
      OpenIndex (dir @ ''/_index.md''), WriteIndex index_matter, CloseIndex]"

definition gendocs_main :: "(string \<Rightarrow> string) \<Rightarrow> string \<Rightarrow> (doc_step \<Rightarrow> gerr option) \<Rightarrow> doc_step list \<times> gerr option" where
  "gendocs_main title gopath E = until_error E (gendocs_steps title (docs_dir gopath))"

subsection \<open>Events\<close>

record obj_ref =
  or_kind :: string
  or_namespace :: string
  or_name :: string

record k8s_event =
  ev_name :: string
  ev_namespace :: string
  ev_involved :: obj_ref
  ev_reason :: string
  ev_message :: string
  ev_first :: int   \<comment> \<open>nanoseconds\<close>
  ev_last :: int
  ev_count :: int
  ev_type :: string
  ev_component :: string

definition hex_lower :: "nat \<Rightarrow> char" where
  "hex_lower n = char_of (if n < 10 then 48 + n else 87 + n)"

fun hex_digits :: "nat \<Rightarrow> string" where
  "hex_digits n = (if n < 16 then [hex_lower n] else hex_digits (n div 16) @ [hex_lower (n mod 16)])"

declare hex_digits.simps [simp del]

definition hex_int :: "int \<Rightarrow> string" where
  \<comment> \<open>\<open>%x\<close> of an int64\<close>
  "hex_int i = (if i < 0 then ''-'' @ hex_digits (nat (- i)) else hex_digits (nat i))"

definition event_name :: "string \<Rightarrow> int \<Rightarrow> string" where
  "event_name n t = n @ ''.'' @ hex_int t"

definition new_event :: "string \<Rightarrow> obj_ref \<Rightarrow> int \<Rightarrow> string \<Rightarrow> string \<Rightarrow> string \<Rightarrow> k8s_event" where
  "new_event component r t ty reason msg =
     \<lparr>ev_name = event_name (or_name r) t, ev_namespace = or_namespace r, ev_involved = r, ev_reason = reason,
      ev_message = msg, ev_first = t, ev_last = t, ev_count = 1, ev_type = ty, ev_component = component\<rparr>"

definition create_event ::
    "('o \<Rightarrow> gerr + obj_ref) \<Rightarrow> (string \<Rightarrow> k8s_event \<Rightarrow> gerr + k8s_event) \<Rightarrow> int \<Rightarrow> string \<Rightarrow> 'o \<Rightarrow> string \<Rightarrow> string \<Rightarrow> string \<Rightarrow>
     gerr + k8s_event" where
  \<comment> \<open>\<open>CreateEvent\<close> at time t\<close>
  "create_event get_ref post t component ob ty reason msg = (case get_ref ob of
     Inl e \<Rightarrow> Inl e
   | Inr r \<Rightarrow> post (or_namespace r) (new_event component r t ty reason msg))"

datatype log_line = LogError string | LogInfo string

definition create_event_with_log ::
    "('o \<Rightarrow> gerr + obj_ref) \<Rightarrow> (string \<Rightarrow> k8s_event \<Rightarrow> gerr + k8s_event) \<Rightarrow> int \<Rightarrow> string \<Rightarrow> 'o \<Rightarrow> string \<Rightarrow> string \<Rightarrow> string \<Rightarrow>
     log_line" where
  "create_event_with_log get_ref post t component ob ty reason msg =
     (case create_event get_ref post t component ob ty reason msg of
        Inl e \<Rightarrow> LogError (''Failed to write event, reason:  '' @ err_msg e)
      | Inr ev \<Rightarrow> LogInfo (''Event created:  '' @ ev_name ev))"

definition watch_event :: "(string \<Rightarrow> k8s_event \<Rightarrow> gerr + k8s_event) \<Rightarrow> k8s_event \<Rightarrow> log_line list" where
  \<comment> \<open>the watcher of \<open>NewEventRecorder\<close>\<close>
  "watch_event post ev = (case post (ev_namespace ev) ev of Inl e \<Rightarrow> [LogError (err_msg e)] | Inr _ \<Rightarrow> [])"

subsection \<open>REST storage\<close>

definition rest_in_peace :: "'a \<Rightarrow> gerr option \<Rightarrow> 'a outcome" where
  "rest_in_peace storage err = (case err of
     Some e \<Rightarrow> Panic (''unable to create REST storage for a resource due to '' @ err_msg e @ '', will die'')
   | None \<Rightarrow> Ok storage)"

subsection \<open>The pages of the tool\<close>

lemma takeWhile_until: "a \<notin> set xs \<Longrightarrow> takeWhile (\<lambda>c. c \<noteq> a) (xs @ a # ys) = xs"
  and dropWhile_until: "a \<notin> set xs \<Longrightarrow> dropWhile (\<lambda>c. c \<noteq> a) (xs @ a # ys) = a # ys"
  by (induction xs) auto

lemma base_name_in:
  assumes "f \<noteq> ''''" "CHR ''/'' \<notin> set f"
  shows "base_name (dir @ CHR ''/'' # f) = f"
proof -
  obtain c g where r: "rev f = c # g" using assms(1) by (cases "rev f") auto
  have "c \<in> set f" using r by (metis list.set_intros(1) set_rev)
  then have "c \<noteq> CHR ''/''" using assms(2) by blast
  then have t: "rev (dropWhile (\<lambda>c. c = CHR ''/'') (rev (dir @ CHR ''/'' # f))) = dir @ CHR ''/'' # f"
    by (simp add: r) (metis r rev.simps(2) rev_rev_ident)
  have u: "takeWhile (\<lambda>c. c \<noteq> CHR ''/'') (rev (dir @ CHR ''/'' # f)) = rev f"
    using takeWhile_until [of "CHR ''/''" "rev f" "rev dir"] assms(2) by simp
  show ?thesis
    unfolding base_name_def t using u by (cases "dir @ CHR ''/'' # f") (auto simp del: rev_append rev.simps)
qed

lemma command_order: "sort_key cm_name (cm_children root_cmd) =
  [Command ''grafana'' [], Command ''monitoring-operator'' [], Command ''version'' []]"
  by (simp add: root_cmd_def insort_key_def less_eq_char_def)

lemma page_files_root:
  "page_files dir '''' root_cmd = map (\<lambda>n. dir @ ''/'' @ n)
     [''grafana-tools_grafana.md'', ''grafana-tools_monitoring-operator.md'', ''grafana-tools_version.md'', ''grafana-tools.md'']"
  using command_order by (simp add: root_cmd_def)

text \<open>
  Every command has one page, the pages have distinct identifiers, and only that of the root is the
  landing page with a URL of its own.
\<close>

lemma tool_pages:
  "map (\<lambda>f. (pa_id (page_of title f), pa_root (page_of title f))) (page_files dir '''' root_cmd) =
     [(''grafana-tools-grafana'', False), (''grafana-tools-monitoring-operator'', False),
      (''grafana-tools-version'', False), (''grafana-tools'', True)]"
  unfolding page_files_root
  by (simp add: page_of_def base_name_in without_ext_def path_ext_def replace_char_def Let_def)

subsection \<open>Errors end the generator\<close>

lemma until_error_prefix: "until_error E xs = (ys, r) \<Longrightarrow> \<exists>zs. xs = ys @ zs"
  by (induction xs arbitrary: ys) (auto split: option.splits prod.splits)

lemma until_error_result:
  "until_error E xs = (ys, None) \<longleftrightarrow> ys = xs \<and> (\<forall>x \<in> set xs. E x = None)"
  "until_error E xs = (ys, Some e) \<Longrightarrow> \<exists>zs x. ys = zs @ [x] \<and> E x = Some e \<and> (\<forall>z \<in> set zs. E z = None)"
proof -
  show "until_error E xs = (ys, None) \<longleftrightarrow> ys = xs \<and> (\<forall>x \<in> set xs. E x = None)"
  proof (induction xs arbitrary: ys)
    case (Cons x xs)
    show ?case by (cases "until_error E xs") (use Cons.IH in \<open>auto split: option.splits\<close>)
  qed auto
  show "until_error E xs = (ys, Some e) \<Longrightarrow> \<exists>zs x. ys = zs @ [x] \<and> E x = Some e \<and> (\<forall>z \<in> set zs. E z = None)"
  proof (induction xs arbitrary: ys)
    case (Cons x xs)
    show ?case
    proof (cases "E x")
      case None
      then obtain ys' where ys: "ys = x # ys'" "until_error E xs = (ys', Some e)"
        using Cons.prems by (auto split: prod.splits)
      then obtain zs z where "ys' = zs @ [z]" "E z = Some e" "\<forall>z \<in> set zs. E z = None" using Cons.IH by blast
      then show ?thesis using ys None by (intro exI [of _ "x # zs"]) auto
    qed (use Cons.prems in auto)
  qed simp
qed

text \<open>The index is written only into a directory that was emptied, made and filled without an error.\<close>

lemma index_after_pages:
  assumes "gendocs_main title gopath E = (done, r)" "WriteIndex x \<in> set done"
  shows "x = index_matter \<and> E (RemoveAll (docs_dir gopath)) = None \<and> E (MkdirAll (docs_dir gopath)) = None"
  using assms unfolding gendocs_main_def gendocs_steps_def by (auto split: option.splits prod.splits)

subsection \<open>Names of events\<close>

fun hex_read :: "char \<Rightarrow> nat" where
  "hex_read c = (let n = (of_char c :: nat) in if n < 58 then n - 48 else n - 87)"

lemma hex_lower_read: "n < 16 \<Longrightarrow> hex_read (hex_lower n) = n"
  by (auto simp: hex_lower_def Let_def)

lemma hex_digits_read: "foldl (\<lambda>a c. 16 * a + hex_read c) 0 (hex_digits n) = n"
proof (induction n rule: hex_digits.induct)
  case (1 n)
  show ?case
  proof (cases "n < 16")
    case True
    then show ?thesis by (simp add: hex_digits.simps [of n] hex_lower_read del: hex_read.simps)
  next
    case False
    then show ?thesis using 1 by (simp add: hex_digits.simps [of n] hex_lower_read del: hex_read.simps)
  qed
qed

lemma hex_digits_inject: "hex_digits m = hex_digits n \<Longrightarrow> m = n"
  by (metis hex_digits_read)

lemma hex_lower_plain: "n < 16 \<Longrightarrow> hex_lower n \<noteq> CHR ''.'' \<and> hex_lower n \<noteq> CHR ''-''"
proof -
  assume "n < 16"
  then have "(of_char (hex_lower n) :: nat) \<ge> 48" by (auto simp: hex_lower_def)
  then show ?thesis by auto
qed

lemma hex_digits_plain: "c \<in> set (hex_digits n) \<Longrightarrow> c \<noteq> CHR ''.'' \<and> c \<noteq> CHR ''-''"
proof (induction n rule: hex_digits.induct)
  case (1 n)
  then show ?case
    using hex_lower_plain [of n] hex_lower_plain [of "n mod 16"] by (subst (asm) (2) hex_digits.simps) (auto split: if_splits)
qed

lemma hex_int_plain: "CHR ''.'' \<notin> set (hex_int i)"
  by (auto simp: hex_int_def dest: hex_digits_plain)

lemma hex_int_inject:
  assumes "hex_int i = hex_int j"
  shows "i = j"
proof -
  have d: "hex_digits n \<noteq> ''-'' @ s" for n s
    using hex_digits_plain [of "CHR ''-''" n] by (metis append_Cons list.set_intros(1))
  have "i < 0 \<longleftrightarrow> j < 0" using assms d d [symmetric] by (auto simp: hex_int_def split: if_splits)
  then show ?thesis using assms by (auto simp: hex_int_def split: if_splits dest!: hex_digits_inject)
qed

text \<open>Two events share a name only if they are about objects of one name and of the same nanosecond.\<close>

lemma event_name_inject:
  assumes "event_name n t = event_name m u"
  shows "n = m \<and> t = u"
proof -
  have s: "takeWhile (\<lambda>c. c \<noteq> CHR ''.'') (rev (event_name x i)) = rev (hex_int i)"
    "dropWhile (\<lambda>c. c \<noteq> CHR ''.'') (rev (event_name x i)) = CHR ''.'' # rev x" for x i
    using hex_int_plain [of i]
    by (simp_all add: event_name_def takeWhile_until dropWhile_until)
  then show ?thesis using assms s [of n t] s [of m u] by (auto dest: hex_int_inject)
qed

lemma created_event_names:
  assumes "create_event get_ref post t component ob ty reason msg = Inr ev" "\<And>ns e e'. post ns e = Inr e' \<Longrightarrow> e' = e"
  obtains r where "get_ref ob = Inr r" "ev_name ev = event_name (or_name r) t" "ev_namespace ev = or_namespace r" "ev_involved ev = r"
  using assms(1) by (auto simp: create_event_def new_event_def split: sum.splits dest!: assms(2))

end
