(* ===== verification/Spec2Isabelle.thy ===== *)
theory Spec2Isabelle imports Run_Bounds Dashboard_Group Indexes Settled_Writes Stale_Objects Healthy_Runs Openviz_Progress Tooling begin

text \<open>
  A verification development of open-viz/grafana-tools, the monitoring operator and the Grafana
  operator: controllers that connect the Prometheus, Alertmanager, Grafana and Perses instances of a
  Kubernetes cluster with each other and with a hub, and an aggregated API that answers with links
  to dashboards.

  \<^bold>\<open>The parts of the program and how they interact.\<close>  Each controller under src/pkg/controllers is a handler
  that the controller runtime calls with the key of an object.  The service monitor controllers
  label monitors for the Prometheus that should scrape them and copy monitors and services into
  Rancher projects; the Prometheus controller registers the Prometheus with the hub and creates the
  AppBindings of Grafana and Perses; the client organization controller gives each organization a
  monitoring namespace, AppBindings of its own and copies of the dashboards; the token controller
  renews the Rancher token they all use; the Alertmanager controller writes one configuration.  The
  openviz controllers put dashboards and datasources into the Grafana or Perses an AppBinding points
  to, which src/pkg/grafana and src/pkg/perses connect to.  src/pkg/detector decides, once per process,
  which flavour of monitoring stack the cluster has; all controllers ask it.
  src/pkg/registry/ui/dashboardgroup builds links into what the openviz controllers have created.
  src/pkg/cmds and src/pkg/apiserver make two processes of all this: the monitoring operator, whose
  controllers are set up when the cluster has the CustomResourceDefinitions they need, and the
  Grafana operator, which registers its own and runs the three openviz controllers.

  \<^bold>\<open>The model.\<close>  \<open>Effects\<close> gives the shape of all effectful code: a value of \<open>('s, 'a) M\<close> reads an environment,
  threads the state of the process and of the services, and returns a value, a Go error or a panic
  with the list of calls made and their answers.  The environment is a parameter of every theorem:
  \<open>exec\<close> answers the calls (API server, hub, Grafana, Perses, Rancher, clock, authorizer), \<open>codecs\<close> holds
  the byte-level functions (JSON, URLs, digests).  Nothing is assumed of either, unless a theorem
  says so.  The logic of \<open>Effects\<close> speaks about all runs: \<open>never q m\<close> (no run of m has an event in q),
  \<open>guarded p q m\<close> (no q-event before the first p-event), \<open>emits p m\<close> (a run that succeeds has a
  p-event), \<open>returns R m\<close>, \<open>no_panic m\<close>.

  \<^item> \<open>Prelude\<close>, \<open>Objects\<close>: Go strings, maps and sorting; the API objects, one record per kind, and
    \<open>typed_view\<close>, the contract of the typed client, interpreted for each kind.
  \<^item> \<open>Client\<close>: typed calls and the helpers of the vendored client library (\<open>CreateOrPatch\<close>,
    \<open>PatchStatus\<close>, finalizers), rules for them, and the locale \<open>api_server\<close> with an in-memory server as
    its interpretation.
  \<^item> \<open>Meta_Util\<close>: label selectors, owner references, conditions, cluster tests.
  \<^item> \<open>Detector\<close> (src/pkg/detector): both lazy detectors; readiness is stable under any interleaving, and
    detection implements the decision table of flavours.
  \<^item> \<open>Servicemonitor_Ctl\<close> (src/pkg/controllers/servicemonitor): labels converge, only marked monitors
    cause writes, ports and endpoints are copied exactly.
  \<^item> \<open>Hub_Client\<close>, \<open>Rancher_Token\<close>, \<open>Prometheus_Ctl\<close> (src/pkg/controllers/prometheus, ranchertoken,
    src/pkg/rancherutil): calls of the hub, choice and renewal of tokens, order of registration and
    clean-up.
  \<^item> \<open>Namespace_Ctl\<close> (src/pkg/controllers/namespace, clientorg): provisioning and teardown of client
    organizations, dashboard copies.
  \<^item> \<open>Grafana_Client\<close> (src/pkg/grafana, src/pkg/perses): how AppBindings become clients; the client
    builder as a transition relation.
  \<^item> \<open>Dashboard_Json\<close>, \<open>Grafana_Dashboard_Ctl\<close>, \<open>Perses_Dashboard_Ctl\<close>, \<open>Grafana_Datasource_Ctl\<close>
    (src/pkg/controllers/openviz): edits of dashboard models, and the three handlers with their event
    filters; finalizers go last, a dashboard is current only after its backend answered.
  \<^item> \<open>State_Cache\<close>: the locale \<open>memo\<close>, the contract of the process-wide cache, interpreted for Grafana and
    for Perses; cached lookups are equivalent to recomputation.
  \<^item> \<open>Alertmanager_Ctl\<close> (src/pkg/controllers/alertmanager): validation and the generated configuration.
  \<^item> \<open>Url_Query\<close>, \<open>Dashboard_Group\<close> (src/pkg/registry/ui/dashboardgroup): query strings read back, links
    need permission, client organizations are confined to their namespace.
  \<^item> \<open>Indexes\<close> (the index functions of src/pkg/apiserver): the locale \<open>cached_client\<close> and the lookup of the
    default AppBinding.
  \<^item> \<open>Run_Bounds\<close>: bounds on the number of calls of a run.
  \<^item> \<open>Wiring\<close> (every \<open>SetupWithManager\<close>): controllers as values, with what they watch, their filters and
    map functions; \<open>deliver\<close> says which keys an object puts into a controller's queue.
  \<^item> \<open>Go_Duration\<close>, \<open>Options\<close> (src/pkg/cmds/server/options.go, grafana.go): durations as text, flags, files
    and validation; a printed duration reads back exactly.
  \<^item> \<open>Startup\<close> (src/pkg/cmds, src/pkg/apiserver, src/pkg/controllers/config.go): both processes; a controller
    is set up once and not before its CustomResourceDefinition exists, and the Grafana operator starts
    its manager last.
  \<^item> \<open>Footprints\<close>: the kinds of objects each controller writes, and that delivering events writes none.
  \<^item> \<open>Settled_Writes\<close>: the locale \<open>settling\<close>, what keeps a write from changing its object again on every run,
    interpreted for twelve transforms of the controllers.
  \<^item> \<open>Openviz_System\<close>, \<open>Openviz_Progress\<close>: runs, events and cache together.  The locale \<open>world_frame\<close> (what
    code leaves alone, interpreted for the answers of the server and for the cache); a published
    dashboard is not enqueued again while no AppBinding changes, and one that is not published is
    tried again.
  \<^item> \<open>Shared_Objects\<close>, \<open>Finalized_Objects\<close>: the objects of the API server under interleaved runs of all
    controllers, steps of users and crashes (\<open>evolves\<close>), with merge patches and lost answers.  The locale
    \<open>finalized_resource\<close> is the contract of a controller that keeps objects in another service; for
    dashboards and datasources it gives the invariant that no object of Grafana or Perses is forgotten.
  \<^item> \<open>Stale_Reads\<close>, \<open>Stale_Objects\<close>: the same objects when the controllers read from informer caches.  A view
    is the version the cache shows with those it has yet to learn of; \<open>lags\<close> interleaves runs, foreign
    writes and the cache's catching up; the locale \<open>stale_resource\<close> is the contract, and the invariant
    holds for the three kinds again.
  \<^item> \<open>Healthy_Runs\<close>: total correctness.  \<open>delivers\<close> is the weakest precondition of success; the locale
    \<open>healthy\<close> says what is asked of the API server, Grafana and Perses, and is interpreted on the in-memory
    server; one run then publishes a dashboard.
  \<^item> \<open>Tooling\<close> (src/pkg/cmds/root.go, src/hack/gendocs, src/pkg/eventer, src/pkg/registry): the command
    tree and its reference pages, names of events, the wrapper for REST storage.

  \<^bold>\<open>Bounds and fuel.\<close>  No definition uses fuel: loops of the source are over finite lists and become structural
  recursion, the one nested recursion (panels in rows) has a measure.  Retries belong to the
  controller runtime: a handler's result says whether it asks for one.  Integers that Go keeps in 64
  bits are \<open>int\<close> where only compared or printed, and wrap where the code converts or multiplies them
  (\<open>go_uint\<close>, the delay of the token controller, the port of \<open>IsValidPort\<close>).

  \<^bold>\<open>Choices.\<close>  Nil and empty maps are one value.  The order in which Go iterates over a map is the order of the
  list that models it.  Mutexes are left out: each handler runs as one sequence of steps, and
  interleavings are explicit where a theorem is about them (detector, client builder, the objects of
  the API server).  For the objects of the API server there are two models: in \<open>Shared_Objects\<close> reads are
  current, in \<open>Stale_Reads\<close> they lag, and a name is not used again before the cache saw its last object
  go (merge patches carry no uid).  Log output is left out, except where it is all a function does;
  events sent to the API server are not.

  \<^bold>\<open>Not modelled.\<close>  The flag parser, the queue of the controller runtime and its retries after an error:
  libraries; their steps are requests of the environment, named after the function.  Generated and
  vendored code, apart from the helpers named in the theories.  The Grafana library and the HTTP
  transport are calls of the environment.  The registration of Go types with the scheme, import lists
  and accessors without logic.

  \<^bold>\<open>What is open.\<close>  The invariants over interleavings are about the objects that Grafana and Perses hold;
  the registrations with the hub have theorems about single runs only.  The invariant of \<open>Stale_Reads\<close>
  for names that are used again at once needs patches with a uid, which the code does not send.
\<close>

end
